(* ===== verification/Prelude.thy ===== *)
theory Prelude
  imports Main
begin

text \<open>
  What every component shares: the exceptions the handlers throw, the JSON values the
  payload columns hold, the parts of the JavaScript string library the sources use, and
  the table operations (a table is the list of its rows in insertion order) with the
  lemmas about them that the component theories build on.

  Strings are lists of characters of the Latin-1 range, one per UTF-16 code unit; the
  string functions below are exact on that range except that the two code points whose
  upper case leaves it (micro sign and y with diaeresis) are their own upper case.
  Numbers in JSON values are integers.  Times are integers: milliseconds since the epoch,
  as \<open>Date.now()\<close> returns them.
\<close>

named_theorems table_simps \<open>rewrite rules on tables\<close>

section \<open>Exceptions and results\<close>

text \<open>
  The exceptions of \<open>@nestjs/common\<close> that the sources throw, each with its message, and
  the plain \<open>Error\<close> of the modules that do not know about HTTP.
\<close>

datatype http_error =
    BadRequestException string
  | UnauthorizedException string
  | ForbiddenException string
  | NotFoundException string
  | ConflictException string
  | BadGatewayException string
  | Error string

type_synonym 'a result = "http_error + 'a"

type_synonym id = string

type_synonym time = int

section \<open>JSON values\<close>

datatype json =
    JNull
  | JBool bool
  | JNum int
  | JStr string
  | JArr "json list"
  | JObj "(string \<times> json) list"

text \<open>A property read \<open>o[k]\<close>: None is \<open>undefined\<close>.\<close>

fun jget :: "json \<Rightarrow> string \<Rightarrow> json option" where
  "jget (JObj kvs) k = map_of kvs k"
| "jget _ k = None"

text \<open>
  Assignment of one property (an existing key keeps its place, a new one goes last), which
  is also \<open>Map.set\<close>, and the spread \<open>{...a, ...b}\<close>: the properties of \<open>b\<close> assigned one after the other.
\<close>

fun jput :: "('k \<times> 'v) list \<Rightarrow> 'k \<Rightarrow> 'v \<Rightarrow> ('k \<times> 'v) list" where
  "jput [] k v = [(k, v)]"
| "jput ((k', v') # kvs) k v = (if k' = k then (k, v) # kvs else (k', v') # jput kvs k v)"

fun jspread :: "(string \<times> json) list \<Rightarrow> (string \<times> json) list \<Rightarrow> (string \<times> json) list" where
  "jspread base [] = base"
| "jspread base ((k, v) # kvs) = jspread (jput base k v) kvs"

text \<open>A property whose value is \<open>undefined\<close> is left out when the object is stored.\<close>

definition jopt :: "string \<Rightarrow> json option \<Rightarrow> (string \<times> json) list" where
  "jopt k v = (case v of None \<Rightarrow> [] | Some x \<Rightarrow> [(k, x)])"

lemma map_of_jput: "map_of (jput kvs k v) = (map_of kvs)(k \<mapsto> v)"
  by (induction kvs k v rule: jput.induct) auto

lemma map_of_jspread:
  "distinct (map fst kvs) \<Longrightarrow> map_of (jspread base kvs) = map_of base ++ map_of kvs"
proof (induction base kvs rule: jspread.induct)
  case (1 base)
  then show ?case by simp
next
  case (2 base k v kvs)
  then have "k \<notin> dom (map_of kvs)"
    by (auto simp: dom_map_of_conv_image_fst)
  with 2 show ?case
    by (auto simp: map_of_jput map_add_def fun_eq_iff split: option.splits)
qed

lemma map_of_jput_keys: "fst ` set (jput kvs k v) = insert k (fst ` set kvs)"
  by (induction kvs k v rule: jput.induct) auto

lemma distinct_jput: "distinct (map fst kvs) \<Longrightarrow> distinct (map fst (jput kvs k v))"
  by (induction kvs k v rule: jput.induct) (auto simp: map_of_jput_keys)

text \<open>The last of several assignments to a key wins.\<close>

lemma map_of_jspread_rev: "map_of (jspread base kvs) = map_of base ++ map_of (rev kvs)"
proof (induction base kvs rule: jspread.induct)
  case (1 base)
  then show ?case by simp
next
  case (2 base k v kvs)
  then show ?case
    by (auto simp: map_of_jput map_add_def fun_eq_iff split: option.splits)
qed

lemma map_of_jspread_other: "k \<notin> fst ` set kvs \<Longrightarrow> map_of (jspread base kvs) k = map_of base k"
  by (induction base kvs rule: jspread.induct) (auto simp: map_of_jput)

section \<open>JavaScript strings\<close>

definition js_space :: "char \<Rightarrow> bool" where
  "js_space c \<longleftrightarrow> (of_char c :: nat) \<in> set [9, 10, 11, 12, 13, 32, 160]"

definition js_trim :: "string \<Rightarrow> string" where
  "js_trim s = rev (dropWhile js_space (rev (dropWhile js_space s)))"

definition lower_char :: "char \<Rightarrow> char" where
  "lower_char c = (let n = of_char c :: nat in
     if 65 \<le> n \<and> n \<le> 90 \<or> 192 \<le> n \<and> n \<le> 222 \<and> n \<noteq> 215 then char_of (n + 32) else c)"

definition upper_char :: "char \<Rightarrow> string" where
  "upper_char c = (let n = of_char c :: nat in
     if n = 223 then ''SS''
     else if 97 \<le> n \<and> n \<le> 122 \<or> 224 \<le> n \<and> n \<le> 254 \<and> n \<noteq> 247 then [char_of (n - 32)]
     else [c])"

definition js_lower :: "string \<Rightarrow> string" where
  "js_lower s = map lower_char s"

definition js_upper :: "string \<Rightarrow> string" where
  "js_upper s = concat (map upper_char s)"

text \<open>\<open>s.split(c)\<close> at a one-character separator: always at least one piece.\<close>

fun js_split :: "char \<Rightarrow> string \<Rightarrow> string list" where
  "js_split c [] = [[]]"
| "js_split c (x # xs) =
     (if x = c then [] # js_split c xs
      else (case js_split c xs of [] \<Rightarrow> [[x]] | p # ps \<Rightarrow> (x # p) # ps))"

text \<open>\<open>s.startsWith(p)\<close>, \<open>s.includes(p)\<close>, and \<open>a || null\<close> on strings, where the empty string is falsy.\<close>

fun js_starts_with :: "string \<Rightarrow> string \<Rightarrow> bool" where
  "js_starts_with s [] = True"
| "js_starts_with [] (p # ps) = False"
| "js_starts_with (x # s) (p # ps) = (x = p \<and> js_starts_with s ps)"

definition js_includes :: "string \<Rightarrow> string \<Rightarrow> bool" where
  "js_includes s p = list_ex (\<lambda>i. js_starts_with (drop i s) p) [0..<Suc (length s)]"

definition or_null :: "string \<Rightarrow> string option" where
  "or_null s = (if s = [] then None else Some s)"

text \<open>\<open>a ?? b\<close>, and \<open>s?.trim() || null\<close>.\<close>

definition or_else :: "'a option \<Rightarrow> 'a option \<Rightarrow> 'a option" where
  "or_else a b = (case a of None \<Rightarrow> b | Some x \<Rightarrow> Some x)"

definition trim_or_null :: "string option \<Rightarrow> string option" where
  "trim_or_null v = (case v of None \<Rightarrow> None | Some x \<Rightarrow> or_null (js_trim x))"

lemma js_split_nonempty [simp]: "js_split c s \<noteq> []"
  by (induction s) (auto split: list.splits)

lemma js_split_none: "c \<notin> set s \<Longrightarrow> js_split c s = [s]"
  by (induction s) auto

lemma js_split_append:
  "c \<notin> set s \<Longrightarrow> js_split c (s @ c # t) = s # js_split c t"
  by (induction s) auto

lemma js_starts_with_append: "js_starts_with (p @ s) p"
  by (induction p) auto

lemma js_starts_with_iff: "js_starts_with s p \<longleftrightarrow> take (length p) s = p"
  by (induction s p rule: js_starts_with.induct) auto

lemma length_js_lower [simp]: "length (js_lower s) = length s"
  by (simp add: js_lower_def)

lemma js_lower_append: "js_lower (s @ t) = js_lower s @ js_lower t"
  by (simp add: js_lower_def)

lemma of_char_less_256: "(of_char c :: nat) < 256"
  by simp

lemma lower_char_idem [simp]: "lower_char (lower_char c) = lower_char c"
proof -
  have "(of_char c :: nat) < 256" by simp
  then show ?thesis by (auto simp: lower_char_def Let_def)
qed

lemma js_lower_idem [simp]: "js_lower (js_lower s) = js_lower s"
  by (simp add: js_lower_def)

lemma js_trim_idem [simp]: "js_trim (js_trim s) = js_trim s"
proof -
  have *: "dropWhile js_space (rev (dropWhile js_space (rev t))) =
      rev (dropWhile js_space (rev t))" if t: "dropWhile js_space t = t" for t
  proof (cases "dropWhile js_space (rev t)")
    case Nil
    show ?thesis by (simp only: Nil rev.simps dropWhile.simps)
  next
    case (Cons x xs)
    obtain u where u: "rev t = u @ x # xs"
      by (metis Cons takeWhile_dropWhile_id)
    then have t_eq: "t = rev (x # xs) @ rev u"
      by (metis rev_append rev_rev_ident)
    then have "hd t = hd (rev (x # xs))" and "t \<noteq> []"
      by (simp_all add: hd_append)
    moreover have "\<not> js_space (hd t)"
      using t \<open>t \<noteq> []\<close> hd_dropWhile [of js_space t] by auto
    ultimately have "dropWhile js_space (rev (x # xs)) = rev (x # xs)"
      by (subst dropWhile_eq_self_iff) simp
    with Cons show ?thesis by simp
  qed
  have "dropWhile js_space (dropWhile js_space s) = dropWhile js_space s"
    by (induction s) auto
  from * [OF this] show ?thesis
    by (simp add: js_trim_def dropWhile_idem)
qed

text \<open>
  The handlers that turn a service's plain error into an HTTP one: 404 when the message says
  that something was not found, 400 otherwise.
\<close>

definition plain_error_handler :: "'a result \<Rightarrow> 'a result" where
  "plain_error_handler r = (case r of
     Inl (Error msg) \<Rightarrow> Inl (if js_includes msg ''not found'' then NotFoundException msg else BadRequestException msg)
   | _ \<Rightarrow> r)"

section \<open>Tables\<close>

text \<open>
  The queries the sources write: \<open>findUnique\<close> and \<open>findFirst\<close> without an order are
  the library's \<open>List.find\<close>, \<open>findMany\<close> is \<open>filter\<close>, \<open>create\<close> appends.
  \<open>update_where P f\<close> changes the rows \<open>P\<close> selects, \<open>delete_where P\<close> removes them,
  \<open>count_where P\<close> counts them.
\<close>

definition update_where :: "('r \<Rightarrow> bool) \<Rightarrow> ('r \<Rightarrow> 'r) \<Rightarrow> 'r list \<Rightarrow> 'r list" where
  "update_where P f rows = map (\<lambda>r. if P r then f r else r) rows"

definition delete_where :: "('r \<Rightarrow> bool) \<Rightarrow> 'r list \<Rightarrow> 'r list" where
  "delete_where P rows = filter (\<lambda>r. \<not> P r) rows"

definition count_where :: "('r \<Rightarrow> bool) \<Rightarrow> 'r list \<Rightarrow> nat" where
  "count_where P rows = length (filter P rows)"

definition exists_where :: "('r \<Rightarrow> bool) \<Rightarrow> 'r list \<Rightarrow> bool" where
  "exists_where P rows = list_ex P rows"

lemma find_SomeD: "List.find P xs = Some x \<Longrightarrow> x \<in> set xs \<and> P x"
  by (induction xs) (auto split: if_splits)

lemma find_None_iff': "List.find P xs = None \<longleftrightarrow> (\<forall>x\<in>set xs. \<not> P x)"
  by (induction xs) auto

lemma find_first:
  "List.find P xs = Some x \<Longrightarrow> \<exists>before after. xs = before @ x # after \<and> (\<forall>y \<in> set before. \<not> P y)"
proof (induction xs)
  case Nil
  then show ?case by simp
next
  case (Cons y ys)
  show ?case
  proof (cases "P y")
    case True
    with Cons.prems show ?thesis by (intro exI [of _ "[]"] exI [of _ ys]) auto
  next
    case False
    with Cons obtain b a where "ys = b @ x # a" "\<forall>z \<in> set b. \<not> P z" by auto
    with False show ?thesis by (intro exI [of _ "y # b"] exI [of _ a]) auto
  qed
qed

lemma find_fresh: "k \<notin> key ` set xs \<Longrightarrow> List.find (\<lambda>r. key r = k) xs = None"
  by (auto simp: find_None_iff' image_iff)

lemma find_append:
  "List.find P (xs @ ys) = (case List.find P xs of None \<Rightarrow> List.find P ys | Some x \<Rightarrow> Some x)"
  by (induction xs) auto

lemma find_key_distinct:
  "distinct (map key xs) \<Longrightarrow> x \<in> set xs \<Longrightarrow> key x = k \<Longrightarrow>
   List.find (\<lambda>r. key r = k) xs = Some x"
  by (induction xs) auto

lemma find_update_where:
  assumes "\<And>r. Q (f r) = Q r"
  shows "List.find Q (update_where P f rows) =
    map_option (\<lambda>r. if P r then f r else r) (List.find Q rows)"
  using assms by (induction rows) (auto simp: update_where_def)

lemma map_update_where:
  assumes "\<And>r. P r \<Longrightarrow> key (f r) = key r"
  shows "map key (update_where P f rows) = map key rows"
  using assms by (induction rows) (auto simp: update_where_def)

lemma update_where_Nil [simp]: "update_where P f [] = []"
  by (simp add: update_where_def)

lemma update_where_Cons [simp]:
  "update_where P f (r # rows) = (if P r then f r else r) # update_where P f rows"
  by (simp add: update_where_def)

lemma set_update_where: "set (update_where P f rows) = (\<lambda>r. if P r then f r else r) ` set rows"
  by (simp add: update_where_def)

lemma bex_update_where:
  "(\<exists>x \<in> set (update_where P f rows). Q x) \<longleftrightarrow> (\<exists>x \<in> set rows. Q (if P x then f x else x))"
  by (induction rows) auto

lemma ball_update_where:
  "(\<forall>x \<in> set (update_where P f rows). Q x) \<longleftrightarrow> (\<forall>x \<in> set rows. Q (if P x then f x else x))"
  by (induction rows) auto

lemma length_update_where [simp]: "length (update_where P f rows) = length rows"
  by (simp add: update_where_def)

lemma update_where_none: "(\<And>r. r \<in> set rows \<Longrightarrow> \<not> P r) \<Longrightarrow> update_where P f rows = rows"
  by (induction rows) auto

lemma update_where_append [simp]:
  "update_where P f (xs @ ys) = update_where P f xs @ update_where P f ys"
  by (simp add: update_where_def)

lemma count_where_append [simp]:
  "count_where P (xs @ ys) = count_where P xs + count_where P ys"
  by (simp add: count_where_def)

lemma count_where_Nil [simp]: "count_where P [] = 0"
  by (simp add: count_where_def)

lemma count_where_Cons [simp]:
  "count_where P (x # xs) = (if P x then Suc (count_where P xs) else count_where P xs)"
  by (simp add: count_where_def)

lemma count_where_cong:
  "(\<And>r. r \<in> set rows \<Longrightarrow> P r = Q r) \<Longrightarrow> count_where P rows = count_where Q rows"
  by (induction rows) auto

lemma count_where_pos: "x \<in> set rows \<Longrightarrow> P x \<Longrightarrow> 0 < count_where P rows"
  by (induction rows) auto

lemma count_where_update_where:
  "count_where P (update_where Q f rows) = count_where (\<lambda>r. P (if Q r then f r else r)) rows"
  by (induction rows) auto

text \<open>
  The change of a count when exactly one row changes: the row with key \<open>k\<close> leaves
  \<open>P\<close> or enters it.
\<close>

lemma count_where_update_one:
  assumes "distinct (map key rows)" and "r \<in> set rows" and "key r = k"
  shows "int (count_where P (update_where (\<lambda>x. key x = k) f rows)) =
    int (count_where P rows) - (if P r then 1 else 0) + (if P (f r) then 1 else 0)"
  using assms
proof (induction rows)
  case Nil
  then show ?case by simp
next
  case (Cons x rows)
  show ?case
  proof (cases "x = r")
    case True
    have "key y \<noteq> k" if "y \<in> set rows" for y
      using that True Cons.prems by (metis distinct.simps(2) image_eqI list.simps(9) list.set_map)
    then have "update_where (\<lambda>x. key x = k) f rows = rows"
      by (rule update_where_none) simp
    with True Cons.prems show ?thesis by simp
  next
    case False
    with Cons.prems have r: "r \<in> set rows" by simp
    with Cons.prems have "key x \<noteq> k"
      by (metis distinct.simps(2) image_eqI list.simps(9) list.set_map)
    with Cons r show ?thesis by (auto split: if_splits)
  qed
qed

lemma count_where_two:
  "distinct (map key rows) \<Longrightarrow> 1 < count_where P rows \<Longrightarrow> \<exists>x \<in> set rows. P x \<and> key x \<noteq> k"
proof (induction rows)
  case Nil
  then show ?case by simp
next
  case (Cons x rows)
  show ?case
  proof (cases "P x \<and> key x = k")
    case True
    with Cons.prems have "0 < count_where P rows" by simp
    then obtain y where "y \<in> set rows" "P y"
      by (auto simp: count_where_def filter_empty_conv)
    moreover from this Cons.prems(1) have "key y \<noteq> key x" by (metis distinct.simps(2) image_eqI list.simps(9) list.set_map)
    ultimately show ?thesis using True by auto
  next
    case False
    with Cons show ?thesis by (auto split: if_splits)
  qed
qed

lemma set_delete_where: "set (delete_where P rows) = {r \<in> set rows. \<not> P r}"
  by (auto simp: delete_where_def)

lemma distinct_delete_where: "distinct (map key rows) \<Longrightarrow> distinct (map key (delete_where P rows))"
  by (simp add: delete_where_def distinct_map_filter)

lemma exists_where_iff: "exists_where P rows \<longleftrightarrow> (\<exists>r\<in>set rows. P r)"
  by (simp add: exists_where_def list_ex_iff)

lemmas table_set [table_simps] = set_update_where set_delete_where exists_where_iff

end
