(* ===== verification/Schema.thy ===== *)
theory Schema
  imports Prelude
begin

text \<open>
  The persistent state: one record per model of \<open>control-plane/prisma/schema.prisma\<close>,
  and the store that holds a list of rows per table together with the Redis queues.  A nullable
  column is an option, a \<open>Json\<close> column is a JSON value.  The statuses that
  \<open>jobs/constants.ts\<close> and the batch service enumerate are datatypes.  Columns that the
  modelled services neither read nor write (\<open>updatedAt\<close>, \<open>logRef\<close>) are left out.
\<close>

section \<open>Tenants and identity\<close>

record org =
  org_id :: id
  org_name :: string
  org_slug :: string
  org_discordWebhookUrl :: "string option"
  org_frigateUrl :: "string option"
  org_frigateApiKey :: "string option"
  org_frigateWebhookSecret :: "string option"
  org_logRetentionDays :: int
  org_healthIntervalSec :: int
  org_avoidBloodMoonRestart :: bool
  org_openaiApiKeyEncrypted :: "string option"
  org_openaiModel :: string
  org_modAiProvider :: string
  org_kimiApiKeyEncrypted :: "string option"
  org_kimiModel :: string
  org_createdAt :: time

record user =
  user_id :: id
  user_email :: string
  user_name :: "string option"
  user_passwordHash :: "string option"
  user_createdAt :: time

record role =
  role_id :: id
  role_name :: string

record user_org =
  uo_userId :: id
  uo_orgId :: id
  uo_roleId :: id
  uo_createdAt :: time

record user_server_role =
  usr_userId :: id
  usr_serverInstanceId :: id
  usr_roleId :: id

section \<open>Hosts and game servers\<close>

record game_type =
  gt_id :: id
  gt_slug :: string
  gt_name :: string
  gt_capabilities :: "json option"

record host =
  h_id :: id
  h_orgId :: id
  h_name :: string
  h_lastHeartbeatAt :: "time option"
  h_agentVersion :: "string option"
  h_agentKeyVersion :: int
  h_status :: "string option"
  h_lastMetrics :: "json option"
  h_labels :: "json option"
  h_createdAt :: time

record pairing_token =
  pt_id :: id
  pt_orgId :: id
  pt_tokenHash :: string
  pt_expiresAt :: time
  pt_usedAt :: "time option"
  pt_createdById :: id
  pt_usedByHostId :: "id option"

record server_instance =
  si_id :: id
  si_orgId :: id
  si_hostId :: id
  si_gameTypeId :: id
  si_name :: string
  si_installPath :: "string option"
  si_startCommand :: "string option"
  si_telnetHost :: "string option"
  si_telnetPort :: "int option"
  si_telnetPassword :: "string option"
  si_config :: "json option"
  si_createdAt :: time

record server_log =
  log_id :: id
  log_orgId :: id
  log_serverInstanceId :: id
  log_content :: string
  log_createdAt :: time

record protection_settings =
  ps_serverInstanceId :: id
  ps_highPingEnabled :: bool
  ps_highPingThresholdMs :: int
  ps_highPingSamples :: int
  ps_highPingReason :: string
  ps_countryBanEnabled :: bool
  ps_blockedCountryCodes :: "string list"
  ps_countryAction :: string
  ps_countryBanDuration :: string
  ps_countryReason :: string

record health_sample =
  hs_orgId :: id
  hs_hostId :: id
  hs_cpuPercent :: int
  hs_ramUsedMb :: int
  hs_ramTotalMb :: int
  hs_diskUsedGb :: int
  hs_latencyMs :: int
  hs_gameReachable :: bool
  hs_createdAt :: time

section \<open>Players\<close>

record player =
  pl_id :: id
  pl_orgId :: id
  pl_serverInstanceId :: id
  pl_identityKey :: string
  pl_steamId :: "string option"
  pl_eosId :: "string option"
  pl_entityId :: "int option"
  pl_ipAddress :: "string option"
  pl_name :: string
  pl_online :: bool
  pl_currentSessionStartedAt :: "time option"
  pl_lifetimeSeconds :: int
  pl_zombieKills :: int
  pl_playerKills :: int
  pl_deaths :: int
  pl_level :: int
  pl_firstSeenAt :: time
  pl_lastSeenAt :: time

record player_session =
  ses_playerId :: id
  ses_startedAt :: time
  ses_endedAt :: "time option"
  ses_durationSeconds :: "int option"

section \<open>Schedules, jobs and batches\<close>

record schedule =
  sch_id :: id
  sch_orgId :: id
  sch_serverInstanceId :: id
  sch_name :: string
  sch_cronExpression :: string
  sch_jobType :: string
  sch_payload :: "json option"
  sch_enabled :: bool
  sch_executionWindowStart :: "string option"
  sch_executionWindowEnd :: "string option"
  sch_retryPolicy :: "json option"
  sch_lastRunAt :: "time option"
  sch_nextRunAt :: "time option"
  sch_lastRunStatus :: "string option"
  sch_lastRunJobId :: "id option"
  sch_runCount :: int
  sch_failureCount :: int
  sch_createdById :: "id option"
  sch_createdAt :: time

datatype run_status = Pending | Running | Success | Failed | Cancelled

datatype batch_status = BRunning | BCompleted | BCompletedWithFailures | BCancelled

record job_batch =
  b_id :: id
  b_orgId :: id
  b_type :: string
  b_status :: batch_status
  b_totalCount :: int
  b_pendingCount :: int
  b_runningCount :: int
  b_successCount :: int
  b_failedCount :: int
  b_cancelledCount :: int
  b_createdById :: "id option"
  b_createdAt :: time
  b_completedAt :: "time option"

record job =
  j_id :: id
  j_orgId :: id
  j_batchId :: "id option"
  j_serverInstanceId :: "id option"
  j_type :: string
  j_payload :: "json option"
  j_createdById :: "id option"
  j_createdAt :: time

record job_run =
  r_id :: id
  r_jobId :: id
  r_hostId :: id
  r_status :: run_status
  r_startedAt :: "time option"
  r_finishedAt :: "time option"
  r_result :: "json option"
  r_createdAt :: time

section \<open>Events, alert rules, audit\<close>

record event =
  ev_id :: id
  ev_orgId :: id
  ev_sourceType :: string
  ev_sourceId :: id
  ev_eventType :: string
  ev_payload :: "json option"
  ev_createdAt :: time

record alert_rule =
  ar_id :: id
  ar_orgId :: id
  ar_name :: string
  ar_condition :: json
  ar_channel :: json
  ar_enabled :: bool
  ar_createdAt :: time

record audit_log =
  al_orgId :: id
  al_actorId :: "id option"
  al_action :: string
  al_resourceType :: string
  al_resourceId :: id
  al_details :: "(string \<times> json) list"
  al_ip :: "string option"

section \<open>The queues and the store\<close>

text \<open>
  The data of a job in an organisation's BullMQ queue \<open>jobs-<orgId>\<close>
  (\<open>QueueJobData\<close> of \<open>jobs/jobs-queue.service.ts\<close>), and of a delayed firing in the
  scheduler's queue.  A delayed firing carries the schedule and the due time that make up its
  job id; a processed one stays in the queue as finished.
\<close>

record queue_job =
  q_jobId :: id
  q_jobRunId :: id
  q_hostId :: id
  q_serverInstanceId :: "id option"
  q_type :: string
  q_payload :: json
  q_scheduleId :: "id option"

record fire_job =
  f_scheduleId :: id
  f_at :: time
  f_done :: bool

record store =
  t_orgs :: "org list"
  t_users :: "user list"
  t_roles :: "role list"
  t_userOrgs :: "user_org list"
  t_userServerRoles :: "user_server_role list"
  t_gameTypes :: "game_type list"
  t_hosts :: "host list"
  t_pairingTokens :: "pairing_token list"
  t_serverInstances :: "server_instance list"
  t_serverLogs :: "server_log list"
  t_protection :: "protection_settings list"
  t_healthSamples :: "health_sample list"
  t_players :: "player list"
  t_sessions :: "player_session list"
  t_schedules :: "schedule list"
  t_batches :: "job_batch list"
  t_jobs :: "job list"
  t_runs :: "job_run list"
  t_events :: "event list"
  t_alertRules :: "alert_rule list"
  t_audit :: "audit_log list"
  org_queues :: "id \<Rightarrow> queue_job list"
  fire_queue :: "fire_job list"

definition empty_store :: store where
  "empty_store = \<lparr>t_orgs = [], t_users = [], t_roles = [], t_userOrgs = [],
     t_userServerRoles = [], t_gameTypes = [], t_hosts = [], t_pairingTokens = [],
     t_serverInstances = [], t_serverLogs = [], t_protection = [], t_healthSamples = [],
     t_players = [], t_sessions = [], t_schedules = [], t_batches = [], t_jobs = [],
     t_runs = [], t_events = [], t_alertRules = [], t_audit = [],
     org_queues = (\<lambda>_. []), fire_queue = []\<rparr>"

section \<open>Queries several services share\<close>

text \<open>
  \<open>userOrg.findUnique({ where: { userId_orgId }, include: { role: true } })\<close>: the
  membership and the name of its role (the foreign key on \<open>roleId\<close> is what makes the
  role exist).
\<close>

definition find_org :: "store \<Rightarrow> id \<Rightarrow> org option" where
  "find_org s oid = List.find (\<lambda>x. org_id x = oid) (t_orgs s)"

definition find_user :: "store \<Rightarrow> id \<Rightarrow> user option" where
  "find_user s uid = List.find (\<lambda>x. user_id x = uid) (t_users s)"

definition find_role :: "store \<Rightarrow> id \<Rightarrow> role option" where
  "find_role s rid = List.find (\<lambda>x. role_id x = rid) (t_roles s)"

definition find_member :: "store \<Rightarrow> id \<Rightarrow> id \<Rightarrow> user_org option" where
  "find_member s uid oid =
     List.find (\<lambda>m. uo_userId m = uid \<and> uo_orgId m = oid) (t_userOrgs s)"

definition member_role :: "store \<Rightarrow> id \<Rightarrow> id \<Rightarrow> string option" where
  "member_role s uid oid = (case find_member s uid oid of
     None \<Rightarrow> None
   | Some m \<Rightarrow> map_option role_name (find_role s (uo_roleId m)))"

definition find_host :: "store \<Rightarrow> id \<Rightarrow> host option" where
  "find_host s hid = List.find (\<lambda>h. h_id h = hid) (t_hosts s)"

definition find_host_in_org :: "store \<Rightarrow> id \<Rightarrow> id \<Rightarrow> host option" where
  "find_host_in_org s hid oid = List.find (\<lambda>h. h_id h = hid \<and> h_orgId h = oid) (t_hosts s)"

definition find_server_in_org :: "store \<Rightarrow> id \<Rightarrow> id \<Rightarrow> server_instance option" where
  "find_server_in_org s sid oid =
     List.find (\<lambda>x. si_id x = sid \<and> si_orgId x = oid) (t_serverInstances s)"

definition find_server :: "store \<Rightarrow> id \<Rightarrow> server_instance option" where
  "find_server s sid = List.find (\<lambda>x. si_id x = sid) (t_serverInstances s)"

definition find_job :: "store \<Rightarrow> id \<Rightarrow> job option" where
  "find_job s jid = List.find (\<lambda>j. j_id j = jid) (t_jobs s)"

definition find_run :: "store \<Rightarrow> id \<Rightarrow> job_run option" where
  "find_run s rid = List.find (\<lambda>r. r_id r = rid) (t_runs s)"

definition find_batch :: "store \<Rightarrow> id \<Rightarrow> job_batch option" where
  "find_batch s bid = List.find (\<lambda>b. b_id b = bid) (t_batches s)"

definition find_schedule :: "store \<Rightarrow> id \<Rightarrow> schedule option" where
  "find_schedule s sid = List.find (\<lambda>x. sch_id x = sid) (t_schedules s)"

definition game_slug :: "store \<Rightarrow> id \<Rightarrow> string" where
  "game_slug s gid = (case List.find (\<lambda>g. gt_id g = gid) (t_gameTypes s) of
     None \<Rightarrow> [] | Some g \<Rightarrow> gt_slug g)"

text \<open>One row appended to the audit table.\<close>

definition add_audit :: "audit_log \<Rightarrow> store \<Rightarrow> store" where
  "add_audit a s = s\<lparr>t_audit := t_audit s @ [a]\<rparr>"

lemma find_member_SomeD:
  "find_member s uid oid = Some m \<Longrightarrow>
   m \<in> set (t_userOrgs s) \<and> uo_userId m = uid \<and> uo_orgId m = oid"
  by (auto simp: find_member_def dest: find_SomeD)

lemma find_host_SomeD: "find_host s hid = Some h \<Longrightarrow> h \<in> set (t_hosts s) \<and> h_id h = hid"
  by (auto simp: find_host_def dest: find_SomeD)

lemma find_host_in_org_SomeD:
  "find_host_in_org s hid oid = Some h \<Longrightarrow>
   h \<in> set (t_hosts s) \<and> h_id h = hid \<and> h_orgId h = oid"
  by (auto simp: find_host_in_org_def dest: find_SomeD)

lemma find_server_in_org_SomeD:
  "find_server_in_org s sid oid = Some x \<Longrightarrow>
   x \<in> set (t_serverInstances s) \<and> si_id x = sid \<and> si_orgId x = oid"
  by (auto simp: find_server_in_org_def dest: find_SomeD)

lemma find_server_SomeD: "find_server s sid = Some x \<Longrightarrow> x \<in> set (t_serverInstances s) \<and> si_id x = sid"
  by (auto simp: find_server_def dest: find_SomeD)

lemma find_schedule_SomeD: "find_schedule s sid = Some x \<Longrightarrow> x \<in> set (t_schedules s) \<and> sch_id x = sid"
  by (auto simp: find_schedule_def dest: find_SomeD)

lemma find_job_SomeD: "find_job s jid = Some j \<Longrightarrow> j \<in> set (t_jobs s) \<and> j_id j = jid"
  by (auto simp: find_job_def dest: find_SomeD)

lemma find_run_SomeD: "find_run s rid = Some r \<Longrightarrow> r \<in> set (t_runs s) \<and> r_id r = rid"
  by (auto simp: find_run_def dest: find_SomeD)

lemma find_batch_SomeD: "find_batch s bid = Some b \<Longrightarrow> b \<in> set (t_batches s) \<and> b_id b = bid"
  by (auto simp: find_batch_def dest: find_SomeD)

lemmas find_SomeDs = find_member_SomeD find_host_SomeD find_host_in_org_SomeD
  find_server_in_org_SomeD find_server_SomeD find_schedule_SomeD find_job_SomeD find_run_SomeD find_batch_SomeD

end
