(* ===== verification/Calendar.thy ===== *)
theory Calendar
  imports Prelude
begin

text \<open>
  The part of JavaScript's \<open>Date\<close> the sources use, for a process whose time zone is UTC (the
  containers set no \<open>TZ\<close>): the civil date of a time value, its fields, and
  \<open>toISOString\<close>; and decimal printing of numbers in template strings.
\<close>

section \<open>Decimal numbers\<close>

definition digit_char :: "nat \<Rightarrow> char" where
  "digit_char d = char_of (48 + d)"

fun nat_string :: "nat \<Rightarrow> string" where
  "nat_string n = (if n < 10 then [digit_char n] else nat_string (n div 10) @ [digit_char (n mod 10)])"

declare nat_string.simps [simp del]

definition int_string :: "int \<Rightarrow> string" where
  "int_string i = (if i < 0 then CHR ''-'' # nat_string (nat (- i)) else nat_string (nat i))"

definition pad2 :: "int \<Rightarrow> string" where
  "pad2 i = (if i < 10 then CHR ''0'' # int_string i else int_string i)"

definition pad3 :: "int \<Rightarrow> string" where
  "pad3 i = (if i < 100 then CHR ''0'' # pad2 i else int_string i)"

definition pad4 :: "int \<Rightarrow> string" where
  "pad4 i = (if i < 1000 then CHR ''0'' # pad3 i else int_string i)"

definition is_digit :: "char \<Rightarrow> bool" where
  "is_digit c \<longleftrightarrow> 48 \<le> (of_char c :: nat) \<and> (of_char c :: nat) \<le> 57"

definition digit_value :: "char \<Rightarrow> nat" where
  "digit_value c = of_char c - 48"

definition digits_value :: "string \<Rightarrow> nat" where
  "digits_value s = foldl (\<lambda>acc c. 10 * acc + digit_value c) 0 s"

text \<open>\<open>parseInt(s, 10)\<close>, None for \<open>NaN\<close>.\<close>

definition js_parse_int :: "string \<Rightarrow> int option" where
  "js_parse_int s = (let t = dropWhile js_space s;
       neg = js_starts_with t ''-'';
       u = (if neg \<or> js_starts_with t ''+'' then drop 1 t else t);
       ds = takeWhile is_digit u
     in if ds = [] then None
        else Some (if neg then - int (digits_value ds) else int (digits_value ds)))"

text \<open>\<open>limit ? Math.min(max, parseInt(limit, 10) || dflt) : dflt\<close>.\<close>

definition query_limit :: "int \<Rightarrow> int \<Rightarrow> string option \<Rightarrow> int" where
  "query_limit mx dflt limit = (case limit of None \<Rightarrow> dflt
     | Some l \<Rightarrow> if l = [] then dflt
         else min mx (case js_parse_int l of None \<Rightarrow> dflt | Some n \<Rightarrow> if n = 0 then dflt else n))"

text \<open>Prisma's \<open>take\<close>: a negative count takes from the end of the ordered rows.\<close>

definition prisma_take :: "int \<Rightarrow> 'a list \<Rightarrow> 'a list" where
  "prisma_take n rows = (if 0 \<le> n then take (nat n) rows else drop (length rows - nat (- n)) rows)"

lemma query_limit_le: "dflt \<le> mx \<Longrightarrow> query_limit mx dflt limit \<le> mx"
  by (auto simp: query_limit_def split: option.splits)

lemma set_prisma_take: "set (prisma_take n rows) \<subseteq> set rows"
  by (auto simp: prisma_take_def dest: in_set_takeD in_set_dropD)

lemma length_prisma_take: "0 \<le> n \<Longrightarrow> int (length (prisma_take n rows)) \<le> n"
  by (auto simp: prisma_take_def)

lemma digit_char_value [simp]: "d < 10 \<Longrightarrow> digit_value (digit_char d) = d"
  by (simp add: digit_value_def digit_char_def)

lemma is_digit_digit_char [simp]: "d < 10 \<Longrightarrow> is_digit (digit_char d)"
  by (simp add: is_digit_def digit_char_def)

lemma nat_string_digits: "c \<in> set (nat_string n) \<Longrightarrow> is_digit c"
proof (induction n rule: nat_string.induct)
  case (1 n)
  then show ?case
    by (cases "n < 10") (auto simp: nat_string.simps [of n])
qed

lemma nat_string_nonempty: "nat_string n \<noteq> []"
  by (subst nat_string.simps) simp

lemma digits_value_nat_string: "digits_value (nat_string n) = n"
proof (induction n rule: nat_string.induct)
  case (1 n)
  then show ?case
    by (cases "n < 10") (auto simp: nat_string.simps [of n] digits_value_def)
qed

lemma nat_string_inj: "nat_string m = nat_string n \<longleftrightarrow> m = n"
  by (metis digits_value_nat_string)

section \<open>Civil dates\<close>

record civil =
  cv_year :: int
  cv_month :: int
  cv_day :: int

text \<open>
  The proleptic Gregorian date of a day number (days since 1970-01-01).  Years are counted
  from March, so that the leap day comes last; an era is 400 years of 146097 days, split
  into centuries, four-year cycles and years, the last of each being a day longer or shorter.
\<close>

record march_date =
  md_era :: int
  md_century :: int
  md_cycle :: int
  md_year :: int
  md_doy :: int

definition march_of_days :: "int \<Rightarrow> march_date" where
  "march_of_days z = (let
     z' = z + 719468;
     era = z' div 146097; doe = z' mod 146097;
     c = min 3 (doe div 36524); r = doe - 36524 * c;
     q = r div 1461; r' = r mod 1461;
     y = min 3 (r' div 365)
   in \<lparr>md_era = era, md_century = c, md_cycle = q, md_year = y, md_doy = r' - 365 * y\<rparr>)"

definition civil_of_days :: "int \<Rightarrow> civil" where
  "civil_of_days z = (let
     md = march_of_days z;
     mp = (5 * md_doy md + 2) div 153;
     d = md_doy md - (153 * mp + 2) div 5 + 1;
     m = (if mp < 10 then mp + 3 else mp - 9)
   in \<lparr>cv_year = 400 * md_era md + 100 * md_century md + 4 * md_cycle md + md_year md +
          (if m \<le> 2 then 1 else 0), cv_month = m, cv_day = d\<rparr>)"

definition days_of_civil :: "int \<Rightarrow> int \<Rightarrow> int \<Rightarrow> int" where
  "days_of_civil y m d = (let
     y' = (if m \<le> 2 then y - 1 else y);
     yoe = y' mod 400;
     mp = (if m > 2 then m - 3 else m + 9);
     doy = (153 * mp + 2) div 5 + d - 1
   in 146097 * (y' div 400) + 365 * yoe + yoe div 4 - yoe div 100 + doy - 719468)"

definition ms_minute :: int where "ms_minute = 60000"
definition ms_day :: int where "ms_day = 86400000"

text \<open>\<open>getMonth() + 1\<close>, \<open>getDate()\<close>, \<open>getHours()\<close>, \<open>getMinutes()\<close>, \<open>getDay()\<close>.\<close>

definition js_month :: "time \<Rightarrow> int" where
  "js_month t = cv_month (civil_of_days (t div ms_day))"

definition js_date :: "time \<Rightarrow> int" where
  "js_date t = cv_day (civil_of_days (t div ms_day))"

definition js_hours :: "time \<Rightarrow> int" where
  "js_hours t = (t mod ms_day) div 3600000"

definition js_minutes :: "time \<Rightarrow> int" where
  "js_minutes t = (t mod 3600000) div ms_minute"

definition js_day :: "time \<Rightarrow> int" where
  "js_day t = (t div ms_day + 4) mod 7"

text \<open>\<open>toISOString()\<close> for the years 0 to 9999.\<close>

definition iso_string :: "time \<Rightarrow> string" where
  "iso_string t = (let c = civil_of_days (t div ms_day) in
     pad4 (cv_year c) @ ''-'' @ pad2 (cv_month c) @ ''-'' @ pad2 (cv_day c) @ ''T'' @
     pad2 (js_hours t) @ '':'' @ pad2 (js_minutes t) @ '':'' @
     pad2 ((t mod ms_minute) div 1000) @ ''.'' @ pad3 (t mod 1000) @ ''Z'')"

text \<open>
  \<open>Date.parse\<close> on the format of \<open>toISOString\<close>; every other string is taken to be no date.
\<close>

definition field :: "string \<Rightarrow> nat \<Rightarrow> nat \<Rightarrow> string" where
  "field s i n = take n (drop i s)"

definition iso_shape :: "string \<Rightarrow> bool" where
  "iso_shape s \<longleftrightarrow> length s = 24 \<and>
     list_all is_digit (field s 0 4 @ field s 5 2 @ field s 8 2 @ field s 11 2 @ field s 14 2 @
       field s 17 2 @ field s 20 3) \<and>
     field s 4 1 = ''-'' \<and> field s 7 1 = ''-'' \<and> field s 10 1 = ''T'' \<and> field s 13 1 = '':'' \<and>
     field s 16 1 = '':'' \<and> field s 19 1 = ''.'' \<and> field s 23 1 = ''Z''"

definition js_date_parse :: "string \<Rightarrow> time option" where
  "js_date_parse s = (if \<not> iso_shape s then None else
     let v = (\<lambda>i n. int (digits_value (field s i n)));
         y = v 0 4; m = v 5 2; d = v 8 2; h = v 11 2; mi = v 14 2; sec = v 17 2; ms = v 20 3
     in if 1 \<le> m \<and> m \<le> 12 \<and> 1 \<le> d \<and> d \<le> 31 \<and> h \<le> 23 \<and> mi \<le> 59 \<and> sec \<le> 59
        then Some (days_of_civil y m d * 86400000 + h * 3600000 + mi * 60000 + sec * 1000 + ms)
        else None)"

section \<open>Lemmas\<close>

lemma march_facts:
  fixes z :: int
  defines "md \<equiv> march_of_days z"
  shows "0 \<le> md_century md \<and> md_century md \<le> 3 \<and> 0 \<le> md_cycle md \<and> md_cycle md \<le> 24 \<and>
    0 \<le> md_year md \<and> md_year md \<le> 3 \<and> 0 \<le> md_doy md \<and> md_doy md \<le> 365 \<and>
    146097 * md_era md + 36524 * md_century md + 1461 * md_cycle md + 365 * md_year md + md_doy md =
      z + 719468"
proof -
  define doe where "doe = (z + 719468) mod 146097"
  have doe: "0 \<le> doe" "doe \<le> 146096"
    using pos_mod_sign [of 146097 "z + 719468"] pos_mod_bound [of 146097 "z + 719468"]
    unfolding doe_def by linarith+
  define c where "c = min 3 (doe div 36524)"
  have c: "0 \<le> c" "c \<le> 3" using doe by (auto simp: c_def)
  define r where "r = doe - 36524 * c"
  have r: "0 \<le> r" "r \<le> 36524" using doe unfolding r_def c_def by linarith+
  define q where "q = r div 1461"
  define r' where "r' = r mod 1461"
  have r': "0 \<le> r'" "r' \<le> 1460"
    using pos_mod_sign [of 1461 r] pos_mod_bound [of 1461 r] unfolding r'_def by linarith+
  have q: "0 \<le> q" "q \<le> 24" using r unfolding q_def by linarith+
  define y where "y = min 3 (r' div 365)"
  have y: "0 \<le> y" "y \<le> 3" "0 \<le> r' - 365 * y" "r' - 365 * y \<le> 365"
    using r' unfolding y_def by linarith+
  define era where "era = (z + 719468) div 146097"
  have md: "md = \<lparr>md_era = era, md_century = c, md_cycle = q, md_year = y, md_doy = r' - 365 * y\<rparr>"
    unfolding md_def march_of_days_def Let_def doe_def c_def r_def q_def r'_def y_def era_def ..
  have "146097 * era + doe = z + 719468"
    unfolding era_def doe_def by (rule mult_div_mod_eq)
  moreover have "1461 * q + r' = doe - 36524 * c"
    unfolding q_def r'_def r_def by (rule mult_div_mod_eq)
  ultimately show ?thesis
    unfolding md march_date.select_convs using c q y by linarith
qed

lemma month_index:
  assumes "0 \<le> doy" and "doy \<le> (365 :: int)"
  shows "0 \<le> (5 * doy + 2) div 153 \<and> (5 * doy + 2) div 153 \<le> 11 \<and>
    0 \<le> doy - (153 * ((5 * doy + 2) div 153) + 2) div 5 \<and>
    doy - (153 * ((5 * doy + 2) div 153) + 2) div 5 \<le> 30"
proof -
  define mp where "mp = (5 * doy + 2) div 153"
  define k where "k = (153 * mp + 2) div 5"
  have "153 * mp + (5 * doy + 2) mod 153 = 5 * doy + 2" "5 * k + (153 * mp + 2) mod 5 = 153 * mp + 2"
    unfolding mp_def k_def by (rule mult_div_mod_eq)+
  moreover have "0 \<le> (5 * doy + 2) mod 153" "(5 * doy + 2) mod 153 \<le> 152"
    "0 \<le> (153 * mp + 2) mod 5" "(153 * mp + 2) mod 5 \<le> 4"
    using pos_mod_bound [of 153 "5 * doy + 2"] pos_mod_bound [of 5 "153 * mp + 2"] by simp_all
  ultimately show ?thesis
    unfolding mp_def [symmetric] k_def [symmetric] using assms by linarith
qed

lemma civil_bounds:
  "1 \<le> cv_month (civil_of_days z) \<and> cv_month (civil_of_days z) \<le> 12 \<and>
   1 \<le> cv_day (civil_of_days z) \<and> cv_day (civil_of_days z) \<le> 31"
  proof -
  define mp where "mp = (5 * md_doy (march_of_days z) + 2) div 153"
  show ?thesis
    using month_index [of "md_doy (march_of_days z)"] march_facts [of z]
    unfolding civil_of_days_def Let_def mp_def [symmetric] by auto
qed

lemma days_of_civil_march:
  assumes "0 \<le> yoe" and "yoe < 400" and "0 \<le> mp" and "mp \<le> 11"
  shows "days_of_civil (400 * era + yoe + (if mp < 10 then 0 else 1))
      (if mp < 10 then mp + 3 else mp - 9) d =
    146097 * era + 365 * yoe + yoe div 4 - yoe div 100 + ((153 * mp + 2) div 5 + d - 1) - 719468"
proof -
  have "(400 * era + yoe) div 400 = era" "(400 * era + yoe) mod 400 = yoe"
    using assms by auto
  with assms(3,4) show ?thesis
    by (cases "mp < 10") (simp_all add: days_of_civil_def)
qed

lemma days_of_civil_of_days:
  "days_of_civil (cv_year (civil_of_days z)) (cv_month (civil_of_days z)) (cv_day (civil_of_days z)) = z"
proof -
  let ?md = "march_of_days z"
  define yoe where "yoe = 100 * md_century ?md + 4 * md_cycle ?md + md_year ?md"
  define mp where "mp = (5 * md_doy ?md + 2) div 153"
  note b = march_facts [of z]
  have yoe: "0 \<le> yoe" "yoe < 400" "yoe div 4 = 25 * md_century ?md + md_cycle ?md"
    "yoe div 100 = md_century ?md"
    using b unfolding yoe_def by linarith+
  have mp: "0 \<le> mp" "mp \<le> 11"
    using month_index [of "md_doy ?md"] b unfolding mp_def by blast+
  have c: "civil_of_days z = \<lparr>cv_year = 400 * md_era ?md + yoe + (if mp < 10 then 0 else 1),
      cv_month = (if mp < 10 then mp + 3 else mp - 9),
      cv_day = md_doy ?md - (153 * mp + 2) div 5 + 1\<rparr>"
    using mp unfolding civil_of_days_def Let_def mp_def [symmetric] yoe_def by auto
  define k where "k = (153 * mp + 2) div 5"
  show ?thesis
    unfolding c civil.select_convs days_of_civil_march [OF yoe(1,2) mp] yoe(3,4) k_def [symmetric]
    using b unfolding yoe_def by (simp add: algebra_simps)
qed

lemma digit_char_0 [simp]: "digit_char 0 = CHR ''0''"
  by code_simp

lemma pad2_digits:
  "0 \<le> i \<Longrightarrow> i < 100 \<Longrightarrow> pad2 i = [digit_char (nat i div 10), digit_char (nat i mod 10)]"
  by (auto simp: pad2_def int_string_def nat_string.simps)

lemma pad3_digits:
  assumes "0 \<le> i" and "i < 1000"
  shows "pad3 i = [digit_char (nat i div 100), digit_char (nat i div 10 mod 10), digit_char (nat i mod 10)]"
proof (cases "i < 100")
  case True
  with assms show ?thesis by (auto simp: pad3_def pad2_digits)
next
  case False
  with assms have "nat i div 10 div 10 < 10" "\<not> nat i div 10 < 10" "\<not> nat i < 10" by auto
  with False assms show ?thesis
    by (simp add: pad3_def int_string_def nat_string.simps div_mult2_eq [symmetric])
qed

lemma pad4_digits:
  assumes "0 \<le> i" and "i < 10000"
  shows "pad4 i = [digit_char (nat i div 1000), digit_char (nat i div 100 mod 10),
    digit_char (nat i div 10 mod 10), digit_char (nat i mod 10)]"
proof (cases "i < 1000")
  case True
  with assms show ?thesis by (auto simp: pad4_def pad3_digits)
next
  case False
  with assms have "nat i div 10 div 10 div 10 < 10" "\<not> nat i div 10 div 10 < 10"
    "\<not> nat i div 10 < 10" "\<not> nat i < 10" by auto
  with False assms show ?thesis
    by (simp add: pad4_def int_string_def nat_string.simps div_mult2_eq [symmetric])
qed

lemma div_bounds:
  assumes "0 \<le> (x::int)" and "x < k * n" and "0 < k"
  shows "0 \<le> x div k \<and> x div k < n"
proof -
  have "k * (x div k) \<le> x"
    using assms(3) by (metis minus_mod_eq_mult_div pos_mod_sign diff_le_eq le_add_same_cancel1)
  with assms(2) have "k * (x div k) < k * n" by linarith
  with assms show ?thesis by (simp add: pos_imp_zdiv_nonneg_iff)
qed

lemma js_hours_bounds: "0 \<le> js_hours t \<and> js_hours t \<le> 23"
  using div_bounds [of "t mod ms_day" 3600000 24] by (simp add: js_hours_def ms_day_def)

lemma js_minutes_bounds: "0 \<le> js_minutes t \<and> js_minutes t \<le> 59"
  using div_bounds [of "t mod 3600000" 60000 60] by (simp add: js_minutes_def ms_minute_def)

lemma js_day_bounds: "0 \<le> js_day t \<and> js_day t \<le> 6"
  using pos_mod_bound [of 7 "t div ms_day + 4"] pos_mod_sign [of 7 "t div ms_day + 4"]
  unfolding js_day_def by linarith

text \<open>The time of day is what is left of the minutes of the day.\<close>

lemma js_time_of_day: "js_hours t * 60 + js_minutes t = (t mod ms_day) div ms_minute"
proof -
  let ?x = "t mod 86400000"
  have "t mod 3600000 = ?x mod 3600000"
    by (simp add: mod_mod_cancel)
  moreover have "?x mod (60000 * 60) = 60000 * (?x div 60000 mod 60) + ?x mod 60000"
    by (rule zmod_zmult2_eq) simp
  ultimately have m: "(t mod 3600000) div 60000 = ?x div 60000 mod 60"
    by (simp add: div_add1_eq)
  have "?x div (60000 * 60) = ?x div 60000 div 60"
    by (rule zdiv_zmult2_eq) simp
  then have h: "?x div 3600000 = ?x div 60000 div 60" by simp
  show ?thesis
    unfolding js_hours_def js_minutes_def ms_day_def ms_minute_def m h
    by (rule div_mult_mod_eq)
qed

text \<open>\<open>Date.parse\<close> reads back what \<open>toISOString\<close> printed, for the four-digit years.\<close>

lemma time_fields:
  "(t div ms_day) * 86400000 + js_hours t * 3600000 + js_minutes t * 60000 +
   (t mod ms_minute) div 1000 * 1000 + t mod 1000 = t"
proof -
  have "60000 * ((t mod ms_day) div 60000) + (t mod ms_day) mod 60000 = t mod ms_day"
    by (rule mult_div_mod_eq)
  moreover have "(t mod ms_day) mod 60000 = t mod 60000"
    by (simp add: ms_day_def mod_mod_cancel)
  moreover have "1000 * ((t mod 60000) div 1000) + (t mod 60000) mod 1000 = t mod 60000"
    by (rule mult_div_mod_eq)
  moreover have "(t mod 60000) mod 1000 = t mod 1000"
    by (simp add: mod_mod_cancel)
  moreover have "86400000 * (t div ms_day) + t mod ms_day = t"
    unfolding ms_day_def by (rule mult_div_mod_eq)
  ultimately show ?thesis
    using js_time_of_day [of t] unfolding ms_minute_def by linarith
qed

lemma digits_two: "0 \<le> i \<Longrightarrow> i < 100 \<Longrightarrow>
  int (digits_value [digit_char (nat i div 10), digit_char (nat i mod 10)]) = i"
  by (simp add: digits_value_def nat_less_iff)

lemma split3: "100 * (n div 100) + 10 * (n div 10 mod 10) + n mod 10 = (n :: nat)"
proof -
  have "n div 100 = n div 10 div 10"
    by (simp add: div_mult2_eq [symmetric])
  moreover have "10 * (n div 10 div 10) + n div 10 mod 10 = n div 10" "10 * (n div 10) + n mod 10 = n"
    by (rule mult_div_mod_eq)+
  ultimately show ?thesis by linarith
qed

lemma split4: "1000 * (n div 1000) + 100 * (n div 100 mod 10) + 10 * (n div 10 mod 10) + n mod 10 = (n :: nat)"
proof -
  have "n div 1000 = n div 100 div 10"
    by (simp add: div_mult2_eq [symmetric])
  moreover have "10 * (n div 100 div 10) + n div 100 mod 10 = n div 100"
    by (rule mult_div_mod_eq)
  ultimately show ?thesis using split3 [of n] by linarith
qed

lemma digits_three:
  assumes "0 \<le> i" and "i < 1000"
  shows "int (digits_value [digit_char (nat i div 100), digit_char (nat i div 10 mod 10),
    digit_char (nat i mod 10)]) = i"
proof -
  have "nat i div 100 < 10" using assms by auto
  then have "digits_value [digit_char (nat i div 100), digit_char (nat i div 10 mod 10),
      digit_char (nat i mod 10)] = 100 * (nat i div 100) + 10 * (nat i div 10 mod 10) + nat i mod 10"
    by (simp add: digits_value_def)
  also have "\<dots> = nat i" by (rule split3)
  finally show ?thesis using assms by simp
qed

lemma digits_four:
  assumes "0 \<le> i" and "i < 10000"
  shows "int (digits_value [digit_char (nat i div 1000), digit_char (nat i div 100 mod 10),
    digit_char (nat i div 10 mod 10), digit_char (nat i mod 10)]) = i"
proof -
  have "nat i div 1000 < 10" using assms by auto
  then have "digits_value [digit_char (nat i div 1000), digit_char (nat i div 100 mod 10),
      digit_char (nat i div 10 mod 10), digit_char (nat i mod 10)] =
      1000 * (nat i div 1000) + 100 * (nat i div 100 mod 10) + 10 * (nat i div 10 mod 10) + nat i mod 10"
    by (simp add: digits_value_def)
  also have "\<dots> = nat i" by (rule split4)
  finally show ?thesis using assms by simp
qed

lemma pad_digits:
  "0 \<le> i \<Longrightarrow> i < 100 \<Longrightarrow> list_all is_digit (pad2 i)"
  "0 \<le> i \<Longrightarrow> i < 1000 \<Longrightarrow> list_all is_digit (pad3 i)"
  "0 \<le> i \<Longrightarrow> i < 10000 \<Longrightarrow> list_all is_digit (pad4 i)"
  by (auto simp: pad2_digits pad3_digits pad4_digits nat_less_iff)

lemma js_date_parse_iso:
  assumes "0 \<le> cv_year (civil_of_days (t div ms_day))" and "cv_year (civil_of_days (t div ms_day)) < 10000"
  shows "js_date_parse (iso_string t) = Some t"
proof -
  let ?c = "civil_of_days (t div ms_day)"
  let ?sec = "(t mod ms_minute) div 1000" and ?ms = "t mod 1000"
  have cb: "1 \<le> cv_month ?c" "cv_month ?c \<le> 12" "1 \<le> cv_day ?c" "cv_day ?c \<le> 31"
    using civil_bounds by blast+
  have sb: "0 \<le> ?sec" "?sec \<le> 59"
    using div_bounds [of "t mod 60000" 1000 60] by (simp_all add: ms_minute_def)
  have mb: "0 \<le> ?ms" "?ms < 1000" by simp_all
  have two: "0 \<le> cv_month ?c" "cv_month ?c < 100" "0 \<le> cv_day ?c" "cv_day ?c < 100"
    "0 \<le> js_hours t" "js_hours t < 100" "0 \<le> js_minutes t" "js_minutes t < 100" "?sec < 100"
    using cb sb js_hours_bounds [of t] js_minutes_bounds [of t] by linarith+
  have len: "length (pad4 (cv_year ?c)) = 4" "length (pad2 (cv_month ?c)) = 2"
    "length (pad2 (cv_day ?c)) = 2" "length (pad2 (js_hours t)) = 2" "length (pad2 (js_minutes t)) = 2"
    "length (pad2 ?sec) = 2" "length (pad3 ?ms) = 3"
    using assms two sb mb by (simp_all only: pad2_digits pad3_digits pad4_digits) simp_all
  have fields: "field (iso_string t) 0 4 = pad4 (cv_year ?c)" "field (iso_string t) 4 1 = ''-''"
    "field (iso_string t) 5 2 = pad2 (cv_month ?c)" "field (iso_string t) 7 1 = ''-''"
    "field (iso_string t) 8 2 = pad2 (cv_day ?c)" "field (iso_string t) 10 1 = ''T''"
    "field (iso_string t) 11 2 = pad2 (js_hours t)" "field (iso_string t) 13 1 = '':''"
    "field (iso_string t) 14 2 = pad2 (js_minutes t)" "field (iso_string t) 16 1 = '':''"
    "field (iso_string t) 17 2 = pad2 ?sec" "field (iso_string t) 19 1 = ''.''"
    "field (iso_string t) 20 3 = pad3 ?ms" "field (iso_string t) 23 1 = ''Z''"
    "length (iso_string t) = 24"
    unfolding field_def iso_string_def Let_def using len by simp_all
  have v: "int (digits_value (pad4 (cv_year ?c))) = cv_year ?c"
    "int (digits_value (pad2 (cv_month ?c))) = cv_month ?c" "int (digits_value (pad2 (cv_day ?c))) = cv_day ?c"
    "int (digits_value (pad2 (js_hours t))) = js_hours t"
    "int (digits_value (pad2 (js_minutes t))) = js_minutes t"
    "int (digits_value (pad2 ?sec)) = ?sec" "int (digits_value (pad3 ?ms)) = ?ms"
    using assms two sb mb
    by (simp_all only: pad2_digits pad3_digits pad4_digits digits_two digits_three digits_four)
  have "list_all is_digit (pad4 (cv_year ?c) @ pad2 (cv_month ?c) @ pad2 (cv_day ?c) @
      pad2 (js_hours t) @ pad2 (js_minutes t) @ pad2 ?sec @ pad3 ?ms)"
    unfolding list_all_append using assms two sb mb by (intro conjI pad_digits) simp_all
  then have "iso_shape (iso_string t)"
    unfolding iso_shape_def fields by simp
  then show ?thesis
    unfolding js_date_parse_def Let_def fields v
    using cb sb js_hours_bounds [of t] js_minutes_bounds [of t] time_fields [of t]
    by (simp add: days_of_civil_of_days)
qed

lemma iso_string_epoch: "iso_string 0 = ''1970-01-01T00:00:00.000Z''"
  by code_simp

end
