(* ===== verification/OneShot.thy ===== *)
theory OneShot
  imports Prelude
begin

text \<open>
  The interface of a single-use credential: an operation that consumes it, and the mark it
  leaves.  A client that only knows the two laws already has that no run of the system
  consumes the credential twice.
\<close>

text \<open>A run of attempts, in order, and the credentials whose attempt went through.\<close>

fun run_attempts :: "('a \<Rightarrow> 's \<Rightarrow> 's option) \<Rightarrow> ('a \<Rightarrow> 'k) \<Rightarrow> 'a list \<Rightarrow> 's \<Rightarrow> 'k list \<times> 's" where
  "run_attempts consume credential [] s = ([], s)"
| "run_attempts consume credential (a # as) s = (case consume a s of
     None \<Rightarrow> run_attempts consume credential as s
   | Some t \<Rightarrow> (let (ks, u) = run_attempts consume credential as t in (credential a # ks, u)))"

locale one_shot =
  fixes consume :: "'a \<Rightarrow> 's \<Rightarrow> 's option"
    and credential :: "'a \<Rightarrow> 'k"
    and spent :: "'k \<Rightarrow> 's \<Rightarrow> bool"
  assumes consume_marks: "consume a s = Some t \<Longrightarrow> spent (credential a) t"
    and spent_blocks: "spent (credential a) s \<Longrightarrow> consume a s = None"
    and spent_stable: "consume a s = Some t \<Longrightarrow> spent k s \<Longrightarrow> spent k t"
begin

lemma run_spent:
  "spent k s \<Longrightarrow> k \<notin> set (fst (run_attempts consume credential as s)) \<and>
   spent k (snd (run_attempts consume credential as s))"
proof (induction as arbitrary: s)
  case Nil
  then show ?case by simp
next
  case (Cons a as)
  show ?case
  proof (cases "consume a s")
    case None
    with Cons show ?thesis by simp
  next
    case (Some t)
    with Cons.prems have "credential a \<noteq> k"
      using spent_blocks by force
    moreover have "spent k t" using spent_stable [OF Some Cons.prems] .
    ultimately show ?thesis
      using Cons.IH [of t] Some by (auto simp: split_beta)
  qed
qed

lemma run_distinct: "distinct (fst (run_attempts consume credential as s))"
proof (induction as arbitrary: s)
  case Nil
  then show ?case by simp
next
  case (Cons a as)
  show ?case
  proof (cases "consume a s")
    case None
    with Cons show ?thesis by simp
  next
    case (Some t)
    with Cons run_spent [OF consume_marks [OF Some]] show ?thesis
      by (simp add: split_beta)
  qed
qed

end

end
