(* ===== verification/Samples.thy ===== *)
theory Samples
  imports Calendar
begin

text \<open>
  Concrete providers for the services the model leaves open (JWT, hashes), used by the
  witnesses: a list of strings is written so that it can be read back, each character
  behind an \<open>x\<close> and each string closed by a full stop.
\<close>

fun enc_string :: "string \<Rightarrow> string" where
  "enc_string [] = ''.''"
| "enc_string (c # cs) = CHR ''x'' # c # enc_string cs"

fun dec_string :: "string \<Rightarrow> string \<Rightarrow> (string \<times> string) option" where
  "dec_string acc (m # rest) =
     (if m = CHR ''.'' then Some (rev acc, rest)
      else (case rest of [] \<Rightarrow> None | c # cs \<Rightarrow> dec_string (c # acc) cs))"
| "dec_string acc [] = None"

definition enc_strings :: "string list \<Rightarrow> string" where
  "enc_strings xs = concat (map enc_string xs)"

fun dec_strings :: "nat \<Rightarrow> string \<Rightarrow> string list option" where
  "dec_strings 0 s = (if s = [] then Some [] else None)"
| "dec_strings (Suc n) s = (case dec_string [] s of
     None \<Rightarrow> None
   | Some (x, rest) \<Rightarrow> map_option (\<lambda>xs. x # xs) (dec_strings n rest))"

lemma dec_enc_string: "dec_string acc (enc_string s @ rest) = Some (rev acc @ s, rest)"
  by (induction s arbitrary: acc) auto

lemma dec_enc_strings: "dec_strings (length xs) (enc_strings xs) = Some xs"
  by (induction xs) (auto simp: enc_strings_def dec_enc_string)

definition enc_int :: "int \<Rightarrow> string list" where
  "enc_int i = [if i < 0 then ''-'' else [], nat_string (nat \<bar>i\<bar>)]"

definition dec_int :: "string \<Rightarrow> string \<Rightarrow> int" where
  "dec_int sg ds = (if sg = [] then int (digits_value ds) else - int (digits_value ds))"

lemma dec_enc_int: "enc_int i = [a, b] \<Longrightarrow> dec_int a b = i"
  by (auto simp: enc_int_def dec_int_def digits_value_nat_string split: if_splits)

end
