(* ===== verification/Pairing.thy ===== *)
theory Pairing
  imports Schema Calendar OneShot Samples
begin

text \<open>
  \<open>control-plane/src/pairing\<close>: pairing tokens, the one-time exchange of a token for an
  agent key, verification and rotation of agent keys.  SHA-256 and the JWT service are
  parameters: \<open>hash\<close> is \<open>createHash('sha256')\<close> with hex digest, \<open>sign\<close> and \<open>verify\<close> are
  the methods of \<open>JwtService\<close> (\<open>verify\<close> is None where the service throws).  Generated
  values (row ids, the random token) and the clock are arguments of the operation that
  draws them.
\<close>

record agent_payload =
  ap_sub :: id
  ap_orgId :: id
  ap_keyVersion :: int
  ap_type :: string

type_synonym sign_fun = "agent_payload \<Rightarrow> string \<Rightarrow> string"
type_synonym verify_fun = "string \<Rightarrow> agent_payload option"

record token_response =
  tr_id :: id
  tr_token :: string
  tr_expiresAt :: time
  tr_expiresInSec :: int

definition default_expires_in_sec :: int where
  "default_expires_in_sec = 900"

definition hash_token :: "(string \<Rightarrow> string) \<Rightarrow> string \<Rightarrow> string" where
  "hash_token hash plain = hash plain"

definition create_token ::
  "(string \<Rightarrow> string) \<Rightarrow> store \<Rightarrow> time \<Rightarrow> id \<Rightarrow> string \<Rightarrow> id \<Rightarrow> id \<Rightarrow> int option \<Rightarrow> store \<times> token_response"
where
  "create_token hash s now new_id plain orgId userId expiresInSec =
    (let secs = (case expiresInSec of None \<Rightarrow> default_expires_in_sec | Some n \<Rightarrow> n);
         expiresAt = now + secs * 1000;
         record = \<lparr>pt_id = new_id, pt_orgId = orgId, pt_tokenHash = hash_token hash plain,
           pt_expiresAt = expiresAt, pt_usedAt = None, pt_createdById = userId,
           pt_usedByHostId = None\<rparr>
     in (s\<lparr>t_pairingTokens := t_pairingTokens s @ [record]\<rparr>,
         \<lparr>tr_id = new_id, tr_token = plain, tr_expiresAt = expiresAt, tr_expiresInSec = secs\<rparr>))"

definition sign_agent_key :: "sign_fun \<Rightarrow> id \<Rightarrow> id \<Rightarrow> int \<Rightarrow> string" where
  "sign_agent_key sign hostId orgId keyVersion =
     sign \<lparr>ap_sub = hostId, ap_orgId = orgId, ap_keyVersion = keyVersion, ap_type = ''agent''\<rparr>
       (int_string keyVersion)"

text \<open>
  \<open>pair\<close> reads the token and checks it, then writes.  The two halves are separate
  definitions because the service runs them without a transaction: another request may run
  between them.
\<close>

record pair_request =
  pq_pairingToken :: string
  pq_hostName :: "string option"
  pq_clientIp :: "string option"

definition pair_check :: "(string \<Rightarrow> string) \<Rightarrow> store \<Rightarrow> time \<Rightarrow> pair_request \<Rightarrow> pairing_token result" where
  "pair_check hash s now dto =
    (let tokenHash = hash_token hash (js_trim (pq_pairingToken dto)) in
     case List.find (\<lambda>t. pt_tokenHash t = tokenHash) (t_pairingTokens s) of
       None \<Rightarrow> Inl (UnauthorizedException ''Invalid pairing token'')
     | Some rec \<Rightarrow>
         if pt_usedAt rec \<noteq> None then Inl (BadRequestException ''Pairing token already used'')
         else if pt_expiresAt rec < now then Inl (BadRequestException ''Pairing token expired'')
         else Inr rec)"

definition pair_host_name :: "time \<Rightarrow> pair_request \<Rightarrow> string" where
  "pair_host_name now dto =
    (case map_option js_trim (pq_hostName dto) of
       Some n \<Rightarrow> if n \<noteq> [] then n else ''Host '' @ take 19 (iso_string now)
     | None \<Rightarrow> ''Host '' @ take 19 (iso_string now))"

definition pair_commit ::
  "sign_fun \<Rightarrow> store \<Rightarrow> time \<Rightarrow> id \<Rightarrow> pair_request \<Rightarrow> pairing_token \<Rightarrow> store \<times> (id \<times> string)" where
  "pair_commit sign s now host_id dto rec =
    (let name = pair_host_name now dto;
         host = \<lparr>h_id = host_id, h_orgId = pt_orgId rec, h_name = name,
           h_lastHeartbeatAt = None, h_agentVersion = None, h_agentKeyVersion = 1,
           h_status = Some ''unknown'', h_lastMetrics = None, h_labels = None,
           h_createdAt = now\<rparr>;
         s1 = s\<lparr>t_hosts := t_hosts s @ [host]\<rparr>;
         s2 = s1\<lparr>t_pairingTokens := update_where (\<lambda>t. pt_id t = pt_id rec)
                (\<lambda>t. t\<lparr>pt_usedAt := Some now, pt_usedByHostId := Some host_id\<rparr>)
                (t_pairingTokens s1)\<rparr>;
         agentKey = sign_agent_key sign host_id (pt_orgId rec) 1;
         s3 = add_audit \<lparr>al_orgId = pt_orgId rec, al_actorId = None, al_action = ''agent_pair'',
                al_resourceType = ''host'', al_resourceId = host_id,
                al_details = [(''pairingTokenId'', JStr (pt_id rec)), (''hostName'', JStr name)] @
                  jopt ''clientIp'' (map_option JStr (pq_clientIp dto)),
                al_ip = pq_clientIp dto\<rparr> s2
     in (s3, (host_id, agentKey)))"

definition pair ::
  "(string \<Rightarrow> string) \<Rightarrow> sign_fun \<Rightarrow> store \<Rightarrow> time \<Rightarrow> id \<Rightarrow> pair_request \<Rightarrow> (store \<times> (id \<times> string)) result"
where
  "pair hash sign s now host_id dto = (case pair_check hash s now dto of
     Inl e \<Rightarrow> Inl e
   | Inr rec \<Rightarrow> Inr (pair_commit sign s now host_id dto rec))"

definition verify_agent_key :: "verify_fun \<Rightarrow> store \<Rightarrow> string \<Rightarrow> agent_payload result" where
  "verify_agent_key verify s token = (case verify token of
     None \<Rightarrow> Inl (UnauthorizedException ''Invalid or expired agent token'')
   | Some payload \<Rightarrow>
       if ap_type payload \<noteq> ''agent'' \<or> ap_sub payload = [] \<or> ap_orgId payload = []
       then Inl (UnauthorizedException ''Invalid agent token'')
       else (case find_host s (ap_sub payload) of
         None \<Rightarrow> Inl (UnauthorizedException ''Host not found or org mismatch'')
       | Some host \<Rightarrow>
           if h_orgId host \<noteq> ap_orgId payload
           then Inl (UnauthorizedException ''Host not found or org mismatch'')
           else if h_agentKeyVersion host \<noteq> ap_keyVersion payload
           then Inl (UnauthorizedException ''Agent key was rotated; re-pair or use new key'')
           else Inr payload))"

definition rotate_agent_key :: "sign_fun \<Rightarrow> store \<Rightarrow> id \<Rightarrow> id \<Rightarrow> (store \<times> string) result" where
  "rotate_agent_key sign s orgId hostId = (case find_host_in_org s hostId orgId of
     None \<Rightarrow> Inl (ForbiddenException ''Host not found or access denied'')
   | Some host \<Rightarrow>
       (let newVersion = h_agentKeyVersion host + 1 in
        Inr (s\<lparr>t_hosts := update_where (\<lambda>h. h_id h = hostId)
                 (\<lambda>h. h\<lparr>h_agentKeyVersion := newVersion\<rparr>) (t_hosts s)\<rparr>,
             sign_agent_key sign hostId orgId newVersion)))"

section \<open>Lemmas\<close>

lemma pair_check_SomeD:
  "pair_check hash s now dto = Inr rec \<Longrightarrow>
   List.find (\<lambda>t. pt_tokenHash t = hash_token hash (js_trim (pq_pairingToken dto)))
     (t_pairingTokens s) = Some rec \<and> pt_usedAt rec = None \<and> now \<le> pt_expiresAt rec"
  by (auto simp: pair_check_def Let_def split: option.splits if_splits)

lemma pair_commit_tables [simp]:
  "t_pairingTokens (fst (pair_commit sign s now hid dto rec)) =
     update_where (\<lambda>t. pt_id t = pt_id rec)
       (\<lambda>t. t\<lparr>pt_usedAt := Some now, pt_usedByHostId := Some hid\<rparr>) (t_pairingTokens s)"
  "map h_id (t_hosts (fst (pair_commit sign s now hid dto rec))) = map h_id (t_hosts s) @ [hid]"
  "fst (snd (pair_commit sign s now hid dto rec)) = hid"
  "snd (snd (pair_commit sign s now hid dto rec)) = sign_agent_key sign hid (pt_orgId rec) 1"
  by (simp_all add: pair_commit_def Let_def add_audit_def)

text \<open>A token hash is spent when the row the lookup finds for it is marked used.\<close>

definition token_spent :: "string \<Rightarrow> store \<Rightarrow> bool" where
  "token_spent h s = (case List.find (\<lambda>t. pt_tokenHash t = h) (t_pairingTokens s) of
     None \<Rightarrow> False | Some rec \<Rightarrow> pt_usedAt rec \<noteq> None)"

text \<open>One attempt as the interface of single-use credentials sees it.\<close>

definition pair_attempt ::
  "(string \<Rightarrow> string) \<Rightarrow> sign_fun \<Rightarrow> (time \<times> id \<times> pair_request) \<Rightarrow> store \<Rightarrow> store option" where
  "pair_attempt hash sign a s =
     (case pair hash sign s (fst a) (fst (snd a)) (snd (snd a)) of
        Inl e \<Rightarrow> None | Inr r \<Rightarrow> Some (fst r))"

definition attempt_hash :: "(string \<Rightarrow> string) \<Rightarrow> (time \<times> id \<times> pair_request) \<Rightarrow> string" where
  "attempt_hash hash a = hash_token hash (js_trim (pq_pairingToken (snd (snd a))))"

lemma token_spent_commit:
  "token_spent h (fst (pair_commit sign s now hid dto rec)) \<longleftrightarrow>
   (case List.find (\<lambda>t. pt_tokenHash t = h) (t_pairingTokens s) of
      None \<Rightarrow> False | Some t \<Rightarrow> pt_id t = pt_id rec \<or> pt_usedAt t \<noteq> None)"
  by (simp add: token_spent_def find_update_where split: option.splits)

interpretation pairing: one_shot "pair_attempt hash sign" "attempt_hash hash" token_spent
  for hash :: "string \<Rightarrow> string" and sign :: sign_fun
proof unfold_locales
  fix a s t
  assume "pair_attempt hash sign a s = Some t"
  then obtain rec where rec: "pair_check hash s (fst a) (snd (snd a)) = Inr rec"
    and t: "t = fst (pair_commit sign s (fst a) (fst (snd a)) (snd (snd a)) rec)"
    by (auto simp: pair_attempt_def pair_def split: sum.splits)
  from pair_check_SomeD [OF rec] show "token_spent (attempt_hash hash a) t"
    by (simp add: t token_spent_commit attempt_hash_def)
  fix k
  assume "token_spent k s"
  then show "token_spent k t"
    unfolding t token_spent_commit by (auto simp: token_spent_def split: option.splits)
next
  fix a s
  assume "token_spent (attempt_hash hash a) s"
  then show "pair_attempt hash sign a s = None"
    by (auto simp: pair_attempt_def pair_def pair_check_def token_spent_def attempt_hash_def
        Let_def split: option.splits)
qed

section \<open>A concrete JWT service for the witnesses\<close>

definition sample_sign :: sign_fun where
  "sample_sign p jwtid =
     enc_strings ([ap_sub p, ap_orgId p, ap_type p] @ enc_int (ap_keyVersion p))"

definition sample_verify :: verify_fun where
  "sample_verify tok = (case dec_strings 5 tok of
     Some [sub, oid, ty, sg, ds] \<Rightarrow>
       Some \<lparr>ap_sub = sub, ap_orgId = oid, ap_keyVersion = dec_int sg ds, ap_type = ty\<rparr>
   | _ \<Rightarrow> None)"

lemma sample_verify_sign: "sample_verify (sample_sign p j) = Some p"
proof -
  obtain a b where ab: "enc_int (ap_keyVersion p) = [a, b]"
    by (simp add: enc_int_def)
  have "dec_strings 5 (sample_sign p j) = Some [ap_sub p, ap_orgId p, ap_type p, a, b]"
    using dec_enc_strings [of "[ap_sub p, ap_orgId p, ap_type p, a, b]"]
    by (simp add: sample_sign_def ab eval_nat_numeral del: dec_strings.simps)
  then show ?thesis
    by (simp add: sample_verify_def dec_enc_int [OF ab])
qed

definition sample_token :: pairing_token where
  "sample_token = \<lparr>pt_id = ''t'', pt_orgId = ''o'', pt_tokenHash = ''secret'', pt_expiresAt = 900000,
     pt_usedAt = None, pt_createdById = ''u'', pt_usedByHostId = None\<rparr>"

definition sample_request :: pair_request where
  "sample_request = \<lparr>pq_pairingToken = '' secret '', pq_hostName = Some ''box'', pq_clientIp = None\<rparr>"

definition sample_host :: host where
  "sample_host = \<lparr>h_id = ''h'', h_orgId = ''o'', h_name = ''box'', h_lastHeartbeatAt = None,
     h_agentVersion = None, h_agentKeyVersion = 1, h_status = Some ''unknown'',
     h_lastMetrics = None, h_labels = None, h_createdAt = 0\<rparr>"

lemma sample_pair_check:
  "pair_check (\<lambda>x. x) (empty_store\<lparr>t_pairingTokens := [sample_token]\<rparr>) 5 sample_request = Inr sample_token"
  by (simp add: pair_check_def hash_token_def sample_token_def sample_request_def empty_store_def
      js_trim_def js_space_def)

section \<open>Properties\<close>

definition agent_identity :: "id \<Rightarrow> id \<Rightarrow> int \<Rightarrow> agent_payload" where
  "agent_identity hostId orgId v =
     \<lparr>ap_sub = hostId, ap_orgId = orgId, ap_keyVersion = v, ap_type = ''agent''\<rparr>"

lemma sign_agent_key_eq:
  "sign_agent_key sign hid oid v = sign (agent_identity hid oid v) (int_string v)"
  by (simp add: sign_agent_key_def agent_identity_def)

lemma verify_signed:
  assumes "\<And>p j. verify (sign p j) = Some p" and "hid \<noteq> []" and "oid \<noteq> []"
    and "find_host s hid = Some h" and "h_orgId h = oid" and "h_agentKeyVersion h = v"
  shows "verify_agent_key verify s (sign_agent_key sign hid oid v) = Inr (agent_identity hid oid v)"
  using assms by (simp add: verify_agent_key_def sign_agent_key_eq agent_identity_def)

lemma find_host_commit:
  assumes "hid \<notin> h_id ` set (t_hosts s)"
  shows "\<exists>h. find_host (fst (pair_commit sign s now hid dto rec)) hid = Some h \<and>
      h_orgId h = pt_orgId rec \<and> h_agentKeyVersion h = 1"
proof -
  have "List.find (\<lambda>h. h_id h = hid) (t_hosts s) = None"
    using assms unfolding find_None_iff' by (metis image_eqI)
  then show ?thesis
    by (simp add: pair_commit_def Let_def add_audit_def find_host_def find_append)
qed

lemma find_host_commit_other:
  "find_host s hid' = Some h \<Longrightarrow> find_host (fst (pair_commit sign s now hid dto rec)) hid' = Some h"
  by (simp add: pair_commit_def Let_def add_audit_def find_host_def find_append)

text \<open>
  C3. A pairing token is consumed at most once: in any sequence of pairing requests, with
  any tokens, names and times, the token hashes of the requests that succeed are pairwise
  different.
\<close>

theorem pair_token_single_use:
  "distinct (fst (run_attempts (pair_attempt hash sign) (attempt_hash hash) as s))"
  by (rule pairing.run_distinct)

text \<open>
  C14. When pairing succeeds, the key handed to the agent verifies against the new state and
  identifies exactly the host that was created, in the organisation of the token.
\<close>

theorem pair_issues_valid_key:
  assumes jwt: "\<And>p j. verify (sign p j) = Some p"
    and ok: "pair hash sign s now hid dto = Inr (s', (hid', key))"
    and fresh: "hid \<notin> h_id ` set (t_hosts s)" and ids: "hid \<noteq> []"
    and orgs: "\<And>t. t \<in> set (t_pairingTokens s) \<Longrightarrow> pt_orgId t \<noteq> []"
  shows "hid' = hid \<and> (\<exists>rec \<in> set (t_pairingTokens s).
      pt_tokenHash rec = hash (js_trim (pq_pairingToken dto)) \<and>
      verify_agent_key verify s' key = Inr (agent_identity hid (pt_orgId rec) 1))"
proof -
  from ok obtain rec where rec: "pair_check hash s now dto = Inr rec"
    and s': "s' = fst (pair_commit sign s now hid dto rec)" and hid': "hid' = hid"
    and key: "key = sign_agent_key sign hid (pt_orgId rec) 1"
    by (auto simp: pair_def split: sum.splits) (metis fst_conv pair_commit_tables(3,4) snd_conv)+
  from pair_check_SomeD [OF rec] have mem: "rec \<in> set (t_pairingTokens s)"
      "pt_tokenHash rec = hash (js_trim (pq_pairingToken dto))"
    by (auto simp: hash_token_def dest: find_SomeD)
  from find_host_commit [OF fresh, of sign now dto rec] obtain h where
    "find_host s' hid = Some h" "h_orgId h = pt_orgId rec" "h_agentKeyVersion h = 1"
    unfolding s' by auto
  then have "verify_agent_key verify s' key = Inr (agent_identity hid (pt_orgId rec) 1)"
    unfolding key using mem orgs by (intro verify_signed [OF jwt ids]) auto
  with mem hid' show ?thesis by blast
qed

theorem pair_issues_valid_key_witness:
  "\<exists>s' key. pair (\<lambda>x. x) sample_sign (empty_store\<lparr>t_pairingTokens := [sample_token]\<rparr>) 5 ''h''
      sample_request = Inr (s', (''h'', key)) \<and>
    verify_agent_key sample_verify s' key = Inr (agent_identity ''h'' ''o'' 1)"
proof -
  let ?s = "empty_store\<lparr>t_pairingTokens := [sample_token]\<rparr>"
  obtain s' key where ok: "pair (\<lambda>x. x) sample_sign ?s 5 ''h'' sample_request = Inr (s', (''h'', key))"
    by (simp add: pair_def sample_pair_check) (metis pair_commit_tables(3) prod.collapse)
  have "''h'' \<notin> h_id ` set (t_hosts ?s)" "''h'' \<noteq> []" "\<And>t. t \<in> set (t_pairingTokens ?s) \<Longrightarrow> pt_orgId t \<noteq> []"
    by (simp_all add: empty_store_def sample_token_def)
  from pair_issues_valid_key [OF sample_verify_sign ok this] ok show ?thesis
    by (auto simp: sample_token_def)
qed

text \<open>
  C15. Key rotation is effective and local: the new key verifies, every key of the host that
  was accepted before is rejected, and the keys of the other hosts are judged as before.
\<close>

theorem rotate_invalidates_old_keys:
  assumes jwt: "\<And>p j. verify (sign p j) = Some p"
    and pk: "distinct (map h_id (t_hosts s))" and ids: "hid \<noteq> []" "oid \<noteq> []"
    and ok: "rotate_agent_key sign s oid hid = Inr (s', key)"
  shows "(\<exists>v. verify_agent_key verify s' key = Inr (agent_identity hid oid v)) \<and>
    (\<forall>old p. verify_agent_key verify s old = Inr p \<longrightarrow>
      verify_agent_key verify s' old =
        (if ap_sub p = hid
         then Inl (UnauthorizedException ''Agent key was rotated; re-pair or use new key'')
         else Inr p))"
proof -
  from ok obtain h where h: "find_host_in_org s hid oid = Some h"
    and s': "s' = s\<lparr>t_hosts := update_where (\<lambda>x. h_id x = hid)
        (\<lambda>x. x\<lparr>h_agentKeyVersion := h_agentKeyVersion h + 1\<rparr>) (t_hosts s)\<rparr>"
    and key: "key = sign_agent_key sign hid oid (h_agentKeyVersion h + 1)"
    by (auto simp: rotate_agent_key_def Let_def split: option.splits)
  from find_host_in_org_SomeD [OF h] have mem: "h \<in> set (t_hosts s)" "h_id h = hid" "h_orgId h = oid"
    by auto
  with pk have fh: "find_host s hid = Some h"
    unfolding find_host_def by (intro find_key_distinct) auto
  have fh': "find_host s' i = map_option
      (\<lambda>x. if h_id x = hid then x\<lparr>h_agentKeyVersion := h_agentKeyVersion h + 1\<rparr> else x)
      (find_host s i)" for i
    unfolding s' find_host_def by (simp add: find_update_where)
  have "verify_agent_key verify s' key = Inr (agent_identity hid oid (h_agentKeyVersion h + 1))"
    unfolding key using fh mem
    by (intro verify_signed [OF jwt ids, of s' "h\<lparr>h_agentKeyVersion := h_agentKeyVersion h + 1\<rparr>"])
      (simp_all add: fh')
  moreover have "verify_agent_key verify s' old =
      (if ap_sub p = hid
       then Inl (UnauthorizedException ''Agent key was rotated; re-pair or use new key'')
       else Inr p)" if "verify_agent_key verify s old = Inr p" for old p
    using that fh mem
    by (auto simp: verify_agent_key_def fh' split: option.splits if_splits dest: find_host_SomeD)
  ultimately show ?thesis by blast
qed

theorem rotate_invalidates_old_keys_witness:
  "\<exists>s' key v. rotate_agent_key sample_sign (empty_store\<lparr>t_hosts := [sample_host]\<rparr>) ''o'' ''h'' = Inr (s', key) \<and>
    verify_agent_key sample_verify s' key = Inr (agent_identity ''h'' ''o'' v) \<and>
    verify_agent_key sample_verify s' (sign_agent_key sample_sign ''h'' ''o'' 1) =
      Inl (UnauthorizedException ''Agent key was rotated; re-pair or use new key'')"
proof -
  let ?s = "empty_store\<lparr>t_hosts := [sample_host]\<rparr>"
  obtain s' key where ok: "rotate_agent_key sample_sign ?s ''o'' ''h'' = Inr (s', key)"
    by (simp add: rotate_agent_key_def find_host_in_org_def sample_host_def Let_def)
  have pk: "distinct (map h_id (t_hosts ?s))" by simp
  have old: "verify_agent_key sample_verify ?s (sign_agent_key sample_sign ''h'' ''o'' 1) =
      Inr (agent_identity ''h'' ''o'' 1)"
    by (rule verify_signed [OF sample_verify_sign, of _ _ _ sample_host])
      (simp_all add: find_host_def sample_host_def)
  have ne: "''h'' \<noteq> []" "''o'' \<noteq> []" by simp_all
  from rotate_invalidates_old_keys [OF sample_verify_sign pk ne ok] old ok show ?thesis
    by (auto simp: agent_identity_def)
qed

text \<open>
  A freshly created token works until it expires and not after: if no stored token has
  its hash, pairing with it succeeds at every time up to the reported expiry, also with
  white space around it, and fails with the expiry error after.
\<close>

theorem created_token_window:
  assumes "hash plain \<notin> pt_tokenHash ` set (t_pairingTokens s)" and "js_trim padded = plain"
    and "create_token hash s now tid plain oid uid ttl = (s', resp)"
    and "pq_pairingToken dto = padded"
  shows "(if later \<le> tr_expiresAt resp then \<exists>r. pair hash sign s' later hid dto = Inr r
    else pair hash sign s' later hid dto = Inl (BadRequestException ''Pairing token expired''))"
proof -
  have "List.find (\<lambda>t. pt_tokenHash t = hash plain) (t_pairingTokens s) = None"
    using assms(1) unfolding find_None_iff' by (metis image_eqI)
  with assms have "pair_check hash s' later dto = (if tr_expiresAt resp < later
      then Inl (BadRequestException ''Pairing token expired'')
      else Inr (last (t_pairingTokens s')))"
    by (auto simp: create_token_def pair_check_def Let_def find_append hash_token_def)
  then show ?thesis
    by (simp add: pair_def del: split_paired_Ex)
qed

theorem created_token_window_witness:
  "\<exists>s' resp r. create_token (\<lambda>x. x) empty_store 0 ''t'' ''secret'' ''o'' ''u'' None = (s', resp) \<and>
    tr_expiresAt resp = 900000 \<and>
    pair (\<lambda>x. x) sample_sign s' 900000 ''h'' sample_request = Inr r \<and>
    pair (\<lambda>x. x) sample_sign s' 900001 ''h'' sample_request =
      Inl (BadRequestException ''Pairing token expired'')"
proof -
  obtain s' resp where c: "create_token (\<lambda>x. x) empty_store 0 ''t'' ''secret'' ''o'' ''u'' None = (s', resp)"
    by force
  then have e: "tr_expiresAt resp = 900000"
    by (auto simp: create_token_def default_expires_in_sec_def Let_def)
  have h: "''secret'' \<notin> pt_tokenHash ` set (t_pairingTokens empty_store)" "js_trim '' secret '' = ''secret''"
    "pq_pairingToken sample_request = '' secret ''"
    by (simp_all add: empty_store_def js_trim_def js_space_def sample_request_def)
  have "(if 900000 \<le> tr_expiresAt resp
      then \<exists>r. pair (\<lambda>x. x) sample_sign s' 900000 ''h'' sample_request = Inr r
      else pair (\<lambda>x. x) sample_sign s' 900000 ''h'' sample_request = Inl (BadRequestException ''Pairing token expired''))"
    by (rule created_token_window [OF h(1,2) c h(3)])
  moreover have "(if 900001 \<le> tr_expiresAt resp
      then \<exists>r. pair (\<lambda>x. x) sample_sign s' 900001 ''h'' sample_request = Inr r
      else pair (\<lambda>x. x) sample_sign s' 900001 ''h'' sample_request = Inl (BadRequestException ''Pairing token expired''))"
    by (rule created_token_window [OF h(1,2) c h(3)])
  ultimately show ?thesis using c e by simp
qed

text \<open>
  C39. The exchange is not atomic: when two requests with the same token both run their
  checks before either writes, both succeed, two hosts are created and both keys are valid.
\<close>

theorem pair_race_two_hosts:
  assumes jwt: "\<And>p j. verify (sign p j) = Some p"
    and c1: "pair_check hash s now d1 = Inr rec" and c2: "pair_check hash s now d2 = Inr rec"
    and ids: "h1 \<noteq> h2" "h1 \<noteq> []" "h2 \<noteq> []" "pt_orgId rec \<noteq> []"
      "h1 \<notin> h_id ` set (t_hosts s)" "h2 \<notin> h_id ` set (t_hosts s)"
    and w1: "pair_commit sign s now h1 d1 rec = (s1, (i1, k1))"
    and w2: "pair_commit sign s1 now' h2 d2 rec = (s2, (i2, k2))"
  shows "verify_agent_key verify s2 k1 = Inr (agent_identity h1 (pt_orgId rec) 1) \<and>
         verify_agent_key verify s2 k2 = Inr (agent_identity h2 (pt_orgId rec) 1)"
proof -
  have s1: "s1 = fst (pair_commit sign s now h1 d1 rec)" and s2: "s2 = fst (pair_commit sign s1 now' h2 d2 rec)"
    and k1: "k1 = sign_agent_key sign h1 (pt_orgId rec) 1" and k2: "k2 = sign_agent_key sign h2 (pt_orgId rec) 1"
    using w1 w2 by (metis fst_conv snd_conv pair_commit_tables(4))+
  have "h2 \<notin> h_id ` set (t_hosts s1)"
    using pair_commit_tables(2) [of sign s now h1 d1 rec] ids unfolding s1
    by (metis Un_iff empty_iff insert_iff list.set(1,2) set_append set_map)
  from find_host_commit [OF this, of sign now' d2 rec] obtain x2 where x2:
    "find_host s2 h2 = Some x2" "h_orgId x2 = pt_orgId rec" "h_agentKeyVersion x2 = 1"
    unfolding s2 by auto
  from find_host_commit [OF ids(5), of sign now d1 rec] obtain x1 where x1:
    "find_host s1 h1 = Some x1" "h_orgId x1 = pt_orgId rec" "h_agentKeyVersion x1 = 1"
    unfolding s1 by auto
  from find_host_commit_other [OF x1(1)] have "find_host s2 h1 = Some x1"
    unfolding s2 .
  from verify_signed [OF jwt ids(2,4) this x1(2,3)] verify_signed [OF jwt ids(3,4) x2]
  show ?thesis unfolding k1 k2 ..
qed

theorem pair_race_two_hosts_witness:
  "\<exists>s2 k1 k2. verify_agent_key sample_verify s2 k1 = Inr (agent_identity ''h1'' ''o'' 1) \<and>
     verify_agent_key sample_verify s2 k2 = Inr (agent_identity ''h2'' ''o'' 1)"
proof -
  let ?s = "empty_store\<lparr>t_pairingTokens := [sample_token]\<rparr>"
  obtain s1 k1 where w1: "pair_commit sample_sign ?s 5 ''h1'' sample_request sample_token = (s1, (''h1'', k1))"
    by (metis pair_commit_tables(3) prod.collapse)
  obtain s2 k2 where w2: "pair_commit sample_sign s1 6 ''h2'' sample_request sample_token = (s2, (''h2'', k2))"
    by (metis pair_commit_tables(3) prod.collapse)
  have ids: "''h1'' \<noteq> ''h2''" "''h1'' \<noteq> []" "''h2'' \<noteq> []" "pt_orgId sample_token \<noteq> []"
    "''h1'' \<notin> h_id ` set (t_hosts ?s)" "''h2'' \<notin> h_id ` set (t_hosts ?s)"
    by (simp_all add: sample_token_def empty_store_def)
  from pair_race_two_hosts [OF sample_verify_sign sample_pair_check sample_pair_check ids w1 w2]
  show ?thesis by (auto simp: sample_token_def)
qed

end
