(* ===== verification/Access.thy ===== *)
theory Access
  imports Pairing
begin

text \<open>
  Who may call what: the four guards (\<open>server-instances/guards\<close>,
  \<open>pairing/agent-auth.guard.ts\<close>) as functions on the request, run in the order the
  decorators list them, and for each controller the table of its handlers with their
  guards.  The user JWT check \<open>jwt.verify(token, secret)\<close> is a parameter that returns the
  \<open>sub\<close> claim, or None where it throws.
\<close>

section \<open>The guards\<close>

record request =
  rq_authorization :: "string option"
  rq_orgId :: "id option"
  rq_user :: "id option"
  rq_orgRole :: "string option"
  rq_agentHostId :: "id option"

text \<open>\<open>auth?.startsWith('Bearer ') ? auth.slice(7) : null\<close>, with the test \<open>!token\<close> folded in.\<close>

definition bearer_token :: "request \<Rightarrow> string option" where
  "bearer_token req = (case rq_authorization req of
     None \<Rightarrow> None
   | Some auth \<Rightarrow> if js_starts_with auth ''Bearer '' then or_null (drop 7 auth) else None)"

definition jwt_auth_guard :: "(string \<Rightarrow> id option) \<Rightarrow> request \<Rightarrow> request result" where
  "jwt_auth_guard verify_user req = (case bearer_token req of
     None \<Rightarrow> Inl (UnauthorizedException ''Missing or invalid Authorization header'')
   | Some token \<Rightarrow> (case verify_user token of
       None \<Rightarrow> Inl (UnauthorizedException ''Invalid or expired token'')
     | Some sub \<Rightarrow> Inr (req\<lparr>rq_user := Some sub\<rparr>)))"

definition org_member_guard :: "store \<Rightarrow> request \<Rightarrow> request result" where
  "org_member_guard s req = (case (rq_orgId req, rq_user req) of
     (Some orgId, Some userId) \<Rightarrow>
       if orgId = [] \<or> userId = [] then Inl (ForbiddenException ''Unauthorized'')
       else (case member_role s userId orgId of
         None \<Rightarrow> Inl (ForbiddenException ''Not a member of this org'')
       | Some role \<Rightarrow> Inr (req\<lparr>rq_orgRole := Some role\<rparr>))
   | _ \<Rightarrow> Inl (ForbiddenException ''Unauthorized''))"

text \<open>
  The roles the decorator \<open>RequireOrgRoles\<close> put on the handler, None when there is none:
  the guard then asks for \<open>admin\<close> or \<open>operator\<close>.
\<close>

definition require_org_role_guard :: "string list option \<Rightarrow> request \<Rightarrow> request result" where
  "require_org_role_guard metadata req =
    (let required = (case metadata of None \<Rightarrow> [''admin'', ''operator''] | Some rs \<Rightarrow> rs) in
     case rq_orgRole req of
       None \<Rightarrow> Inl (ForbiddenException ''Insufficient permissions (admin or operator required)'')
     | Some role \<Rightarrow>
         if role = [] \<or> role \<notin> set required
         then Inl (ForbiddenException ''Insufficient permissions (admin or operator required)'')
         else Inr req)"

definition agent_auth_guard :: "verify_fun \<Rightarrow> store \<Rightarrow> request \<Rightarrow> request result" where
  "agent_auth_guard verify s req = (case bearer_token req of
     None \<Rightarrow> Inl (UnauthorizedException ''Missing or invalid Authorization header'')
   | Some token \<Rightarrow> (case verify_agent_key verify s token of
       Inl e \<Rightarrow> Inl e
     | Inr payload \<Rightarrow> Inr (req\<lparr>rq_agentHostId := Some (ap_sub payload)\<rparr>)))"

section \<open>Guarded routes\<close>

datatype guard = JwtAuth | OrgMember | RequireRole "string list option" | AgentAuth

datatype http_method = GET | POST | PATCH | DELETE

record endpoint =
  ep_method :: http_method
  ep_path :: string
  ep_handler :: string
  ep_guards :: "guard list"

record auth_env =
  ae_verify_user :: "string \<Rightarrow> id option"
  ae_verify_agent :: verify_fun

fun run_guard :: "auth_env \<Rightarrow> store \<Rightarrow> guard \<Rightarrow> request \<Rightarrow> request result" where
  "run_guard env s JwtAuth req = jwt_auth_guard (ae_verify_user env) req"
| "run_guard env s OrgMember req = org_member_guard s req"
| "run_guard env s (RequireRole rs) req = require_org_role_guard rs req"
| "run_guard env s AgentAuth req = agent_auth_guard (ae_verify_agent env) s req"

fun run_guards :: "auth_env \<Rightarrow> store \<Rightarrow> guard list \<Rightarrow> request \<Rightarrow> request result" where
  "run_guards env s [] req = Inr req"
| "run_guards env s (g # gs) req = (case run_guard env s g req of
     Inl e \<Rightarrow> Inl e | Inr req' \<Rightarrow> run_guards env s gs req')"

definition ep :: "http_method \<Rightarrow> string \<Rightarrow> string \<Rightarrow> guard list \<Rightarrow> endpoint" where
  "ep m p h gs = \<lparr>ep_method = m, ep_path = p, ep_handler = h, ep_guards = gs\<rparr>"

definition member_guards :: "guard list" where
  "member_guards = [JwtAuth, OrgMember]"

definition role_guards :: "string list \<Rightarrow> guard list" where
  "role_guards rs = [JwtAuth, OrgMember, RequireRole (Some rs)]"

definition alerts_endpoints :: "endpoint list" where
  "alerts_endpoints = [
     ep GET '''' ''list'' member_guards,
     ep POST '''' ''create'' member_guards,
     ep PATCH '':id'' ''update'' member_guards,
     ep POST '':id/test'' ''test'' (role_guards [''admin'', ''operator'']),
     ep DELETE '':id'' ''remove'' member_guards]"

definition schedules_endpoints :: "endpoint list" where
  "schedules_endpoints = [
     ep GET '''' ''list'' member_guards,
     ep POST '''' ''create'' member_guards,
     ep PATCH '':id'' ''update'' member_guards,
     ep DELETE '':id'' ''remove'' member_guards]"

definition batches_endpoints :: "endpoint list" where
  "batches_endpoints = [
     ep POST '''' ''create'' (role_guards [''admin'', ''operator'']),
     ep GET '''' ''list'' member_guards,
     ep GET '':id/jobs'' ''getJobs'' member_guards,
     ep GET '':id'' ''getOne'' member_guards,
     ep POST '':id/cancel'' ''cancel'' (role_guards [''admin'', ''operator''])]"

definition jobs_endpoints :: "endpoint list" where
  "jobs_endpoints = [
     ep POST ''mod-upload'' ''uploadMod'' member_guards,
     ep GET ''runs/:runId'' ''getRun'' member_guards,
     ep POST '''' ''create'' member_guards,
     ep GET '''' ''list'' member_guards]"

definition hosts_endpoints :: "endpoint list" where
  "hosts_endpoints = [
     ep GET '''' ''findAll'' member_guards,
     ep GET '':hostId'' ''findOne'' member_guards,
     ep PATCH '':hostId'' ''rename'' (role_guards [''admin'', ''operator'']),
     ep DELETE '':hostId'' ''remove'' (role_guards [''admin'', ''operator''])]"

definition server_instances_endpoints :: "endpoint list" where
  "server_instances_endpoints = [
     ep GET '''' ''findAll'' member_guards,
     ep GET '':id'' ''findOne'' member_guards,
     ep POST '''' ''create'' (role_guards [''admin'', ''operator'']),
     ep PATCH '':id'' ''update'' (role_guards [''admin'', ''operator'']),
     ep DELETE '':id'' ''remove'' (role_guards [''admin'', ''operator''])]"

definition players_endpoints :: "endpoint list" where
  "players_endpoints = [ep GET '''' ''list'' member_guards]"

definition server_tools_endpoints :: "endpoint list" where
  "server_tools_endpoints = [
     ep GET '':serverId'' ''get'' member_guards,
     ep PATCH '':serverId'' ''update'' (role_guards [''admin'', ''operator''])]"

definition health_endpoints :: "endpoint list" where
  "health_endpoints = [
     ep GET '''' ''dashboard'' member_guards,
     ep POST ''settings'' ''settings'' (role_guards [''admin'', ''operator''])]"

text \<open>The decorator of this controller is on the class, which the guard does not read.\<close>

definition mod_ai_endpoints :: "endpoint list" where
  "mod_ai_endpoints = [ep POST ''edit'' ''edit'' [JwtAuth, OrgMember, RequireRole None]]"

definition logs_endpoints :: "endpoint list" where
  "logs_endpoints = [
     ep GET ''logs'' ''list'' member_guards,
     ep GET ''logs/settings'' ''settings'' member_guards,
     ep POST ''logs/settings'' ''updateSettings'' (role_guards [''admin'', ''operator'']),
     ep GET ''logs/keyword-alerts'' ''keywordRules'' member_guards,
     ep POST ''logs/keyword-alerts'' ''createKeywordRule'' (role_guards [''admin'', ''operator'']),
     ep PATCH ''logs/keyword-alerts/:id'' ''setKeywordRule'' (role_guards [''admin'', ''operator'']),
     ep DELETE ''logs/keyword-alerts/:id'' ''deleteKeywordRule'' (role_guards [''admin'', ''operator'']),
     ep GET ''logs/keyword-matches'' ''keywordMatches'' member_guards,
     ep GET ''chat'' ''chat'' member_guards,
     ep GET ''chat/settings'' ''chatSettings'' member_guards,
     ep POST ''chat/settings'' ''saveChatSettings'' (role_guards [''admin'', ''operator'']),
     ep GET ''chat/moderation'' ''chatModeration'' member_guards,
     ep POST ''chat/moderation'' ''saveChatModeration'' (role_guards [''admin'', ''operator'']),
     ep POST ''chat/mute'' ''mutePlayer'' (role_guards [''admin'', ''operator''])]"

definition orgs_endpoints :: "endpoint list" where
  "orgs_endpoints = [
     ep GET '':orgId'' ''getOrg'' member_guards,
     ep GET '':orgId/accounts'' ''getAccounts'' (role_guards [''admin'']),
     ep GET '':orgId/integrations/profile-editor'' ''getProfileEditorCredit'' member_guards,
     ep POST '':orgId/accounts'' ''createAccount'' (role_guards [''admin'']),
     ep DELETE '':orgId/accounts/:accountId'' ''deleteAccount'' (role_guards [''admin'']),
     ep PATCH '':orgId/accounts/:accountId/password'' ''resetAccountPassword'' (role_guards [''admin'']),
     ep PATCH '':orgId'' ''updateOrg'' member_guards,
     ep POST '':orgId/integrations/openai'' ''saveOpenAi'' (role_guards [''admin'']),
     ep POST '':orgId/integrations/openai/test'' ''testOpenAi'' (role_guards [''admin'']),
     ep DELETE '':orgId/integrations/openai'' ''clearOpenAi'' (role_guards [''admin'']),
     ep PATCH '':orgId/integrations/mod-ai/provider'' ''selectModAiProvider'' (role_guards [''admin'']),
     ep POST '':orgId/integrations/kimi'' ''saveKimi'' (role_guards [''admin'']),
     ep POST '':orgId/integrations/kimi/test'' ''testKimi'' (role_guards [''admin'']),
     ep DELETE '':orgId/integrations/kimi'' ''clearKimi'' (role_guards [''admin'']),
     ep POST '':orgId/detection/frigate/test'' ''testFrigate'' member_guards]"

definition pairing_endpoints :: "endpoint list" where
  "pairing_endpoints = [
     ep POST ''pairing-tokens'' ''createToken'' (role_guards [''admin'']),
     ep POST ''hosts/:hostId/rotate-key'' ''rotateKey'' (role_guards [''admin''])]"

text \<open>Every organisation-scoped user endpoint, with its controller.\<close>

definition org_endpoints :: "(string \<times> endpoint) list" where
  "org_endpoints =
     map (Pair ''alerts'') alerts_endpoints @ map (Pair ''schedules'') schedules_endpoints @
     map (Pair ''batches'') batches_endpoints @ map (Pair ''jobs'') jobs_endpoints @
     map (Pair ''hosts'') hosts_endpoints @
     map (Pair ''server-instances'') server_instances_endpoints @
     map (Pair ''players'') players_endpoints @ map (Pair ''server-tools'') server_tools_endpoints @
     map (Pair ''health'') health_endpoints @ map (Pair ''mod-ai'') mod_ai_endpoints @
     map (Pair ''logs'') logs_endpoints @ map (Pair ''orgs'') orgs_endpoints @
     map (Pair ''pairing'') pairing_endpoints"

text \<open>The agent's endpoints; their host comes from the key, never from the path.\<close>

definition agent_endpoints :: "endpoint list" where
  "agent_endpoints = [
     ep GET '':jobRunId/file'' ''downloadJobFile'' [AgentAuth],
     ep GET ''poll'' ''poll'' [AgentAuth],
     ep POST '':jobRunId/result'' ''reportResult'' [AgentAuth],
     ep POST '':jobRunId/progress'' ''reportProgress'' [AgentAuth]]"

definition agent_hosts_endpoints :: "endpoint list" where
  "agent_hosts_endpoints = [
     ep POST '':hostId/heartbeat'' ''heartbeat'' [AgentAuth],
     ep POST '':hostId/server-instances/discover/7dtd'' ''discover7dtd'' [AgentAuth]]"

text \<open>What a role may reach once the caller is a member: every role guard of the handler admits it.\<close>

fun guard_admits_role :: "string \<Rightarrow> guard \<Rightarrow> bool" where
  "guard_admits_role role (RequireRole None) = (role \<in> set [''admin'', ''operator''])"
| "guard_admits_role role (RequireRole (Some rs)) = (role \<in> set rs)"
| "guard_admits_role role g = True"

definition role_reaches :: "string \<Rightarrow> endpoint \<Rightarrow> bool" where
  "role_reaches role e = list_all (guard_admits_role role) (ep_guards e)"

section \<open>Lemmas\<close>

lemma jwt_auth_guard_cases:
  "jwt_auth_guard v req = Inr req' \<longleftrightarrow>
   (\<exists>tok sub. bearer_token req = Some tok \<and> v tok = Some sub \<and> req' = req\<lparr>rq_user := Some sub\<rparr>)"
  by (auto simp: jwt_auth_guard_def split: option.splits)

lemma org_member_guard_cases:
  "org_member_guard s req = Inr req' \<longleftrightarrow>
   (\<exists>oid uid role. rq_orgId req = Some oid \<and> rq_user req = Some uid \<and> oid \<noteq> [] \<and> uid \<noteq> [] \<and>
      member_role s uid oid = Some role \<and> req' = req\<lparr>rq_orgRole := Some role\<rparr>)"
  by (auto simp: org_member_guard_def split: option.splits if_splits)

lemma require_org_role_guard_cases:
  "require_org_role_guard md req = Inr req' \<longleftrightarrow>
   (\<exists>role. rq_orgRole req = Some role \<and> role \<noteq> [] \<and> guard_admits_role role (RequireRole md) \<and> req' = req)"
  by (cases md) (auto simp: require_org_role_guard_def Let_def split: option.splits if_splits)

lemma run_guards_step:
  "run_guards env s (g # gs) req = Inr req' \<longleftrightarrow>
   (\<exists>mid. run_guard env s g req = Inr mid \<and> run_guards env s gs mid = Inr req')"
  by (simp split: sum.splits)

lemmas guard_cases = jwt_auth_guard_cases org_member_guard_cases require_org_role_guard_cases

text \<open>Every organisation route authenticates the user and checks the membership first.\<close>

lemma org_endpoints_shape:
  "(c, e) \<in> set org_endpoints \<Longrightarrow>
   ep_guards e = [JwtAuth, OrgMember] \<or> (\<exists>rs. ep_guards e = [JwtAuth, OrgMember, RequireRole rs])"
  by (auto simp: org_endpoints_def alerts_endpoints_def schedules_endpoints_def batches_endpoints_def
      jobs_endpoints_def hosts_endpoints_def server_instances_endpoints_def players_endpoints_def
      server_tools_endpoints_def health_endpoints_def mod_ai_endpoints_def logs_endpoints_def
      orgs_endpoints_def pairing_endpoints_def member_guards_def role_guards_def ep_def)

section \<open>Properties\<close>

text \<open>
  C7. Tenant isolation at the door: a request passes the guards of an organisation
  endpoint exactly when its bearer token verifies, the user is a member of the
  organisation named in the path, and the member's role is admitted by the handler; what
  the handler then sees as the user and the role is that member and that role.
\<close>

theorem org_endpoint_access:
  assumes e: "(c, e) \<in> set org_endpoints"
  shows "run_guards env s (ep_guards e) req = Inr req' \<longleftrightarrow>
    (\<exists>tok uid oid role. bearer_token req = Some tok \<and> ae_verify_user env tok = Some uid \<and>
       rq_orgId req = Some oid \<and> oid \<noteq> [] \<and> uid \<noteq> [] \<and> member_role s uid oid = Some role \<and>
       (length (ep_guards e) = 3 \<longrightarrow> role \<noteq> []) \<and> role_reaches role e \<and>
       req' = req\<lparr>rq_user := Some uid, rq_orgRole := Some role\<rparr>)"
  using org_endpoints_shape [OF e]
proof
  assume g: "ep_guards e = [JwtAuth, OrgMember]"
  show ?thesis
    unfolding g run_guards_step by (auto simp: g role_reaches_def guard_cases)
next
  assume "\<exists>rs. ep_guards e = [JwtAuth, OrgMember, RequireRole rs]"
  then obtain rs where g: "ep_guards e = [JwtAuth, OrgMember, RequireRole rs]" by blast
  show ?thesis
    unfolding g run_guards_step by (auto simp: g role_reaches_def guard_cases)
qed

theorem org_endpoint_access_witness:
  "let env = \<lparr>ae_verify_user = (\<lambda>t. Some t), ae_verify_agent = (\<lambda>_. None)\<rparr>;
       s = empty_store\<lparr>t_roles := [\<lparr>role_id = ''r'', role_name = ''operator''\<rparr>],
         t_userOrgs := [\<lparr>uo_userId = ''u'', uo_orgId = ''o'', uo_roleId = ''r'', uo_createdAt = 0\<rparr>]\<rparr>;
       req = \<lparr>rq_authorization = Some ''Bearer u'', rq_orgId = Some ''o'', rq_user = None,
         rq_orgRole = None, rq_agentHostId = None\<rparr>
   in run_guards env s (role_guards [''admin'', ''operator'']) req =
        Inr (req\<lparr>rq_user := Some ''u'', rq_orgRole := Some ''operator''\<rparr>)"
proof -
  let ?e = "ep POST [] ''create'' (role_guards [''admin'', ''operator''])"
  have mem: "(''batches'', ?e) \<in> set org_endpoints"
    by (simp add: org_endpoints_def batches_endpoints_def)
  have g: "ep_guards ?e = role_guards [''admin'', ''operator'']"
    by (simp add: ep_def)
  show ?thesis
    unfolding Let_def org_endpoint_access [OF mem, unfolded g]
    by (simp add: bearer_token_def or_null_def member_role_def find_member_def find_role_def
        role_reaches_def ep_def role_guards_def)
qed

text \<open>
  The state-changing organisation endpoints that a viewer reaches are exactly the
  creation of jobs (mod uploads included), of schedules and of alert rules with their
  update and removal, the update of the organisation's settings and the Frigate connection
  test: the guard chain does not make the viewer role read-only.
\<close>

theorem viewer_write_endpoints:
  "map (\<lambda>(c, e). (c, ep_method e, ep_path e))
     (filter (\<lambda>(c, e). ep_method e \<noteq> GET \<and> role_reaches ''viewer'' e) org_endpoints) =
   [(''alerts'', POST, ''''), (''alerts'', PATCH, '':id''), (''alerts'', DELETE, '':id''),
    (''schedules'', POST, ''''), (''schedules'', PATCH, '':id''), (''schedules'', DELETE, '':id''),
    (''jobs'', POST, ''mod-upload''), (''jobs'', POST, ''''),
    (''orgs'', PATCH, '':orgId''), (''orgs'', POST, '':orgId/detection/frigate/test'')]"
  by (simp add: org_endpoints_def alerts_endpoints_def schedules_endpoints_def batches_endpoints_def
      jobs_endpoints_def hosts_endpoints_def server_instances_endpoints_def players_endpoints_def
      server_tools_endpoints_def health_endpoints_def mod_ai_endpoints_def logs_endpoints_def
      orgs_endpoints_def pairing_endpoints_def member_guards_def role_guards_def ep_def role_reaches_def)

end
