(* ===== verification/Auth.thy ===== *)
theory Auth
  imports Schema Calendar
begin

text \<open>
  \<open>control-plane/src/auth/auth.service.ts\<close>: password hashes, registration, login, password
  change, profile.  \<open>scrypt\<close> is \<open>scryptSync(password, salt, 64)\<close> as a list of bytes and
  \<open>sha256\<close> the digest of \<open>createHash\<close>; \<open>sign_user\<close> is the JWT of \<open>{ sub, orgId }\<close>.
\<close>

unbundle bit_operations_syntax

section \<open>Hexadecimal buffers\<close>

type_synonym bytes = "nat list"

definition hex_digit :: "nat \<Rightarrow> char" where
  "hex_digit d = (if d < 10 then char_of (48 + d) else char_of (87 + d))"

definition hex_value :: "char \<Rightarrow> nat option" where
  "hex_value c = (let n = of_char c :: nat in
     if 48 \<le> n \<and> n \<le> 57 then Some (n - 48)
     else if 97 \<le> n \<and> n \<le> 102 then Some (n - 87)
     else if 65 \<le> n \<and> n \<le> 70 then Some (n - 55)
     else None)"

text \<open>\<open>buffer.toString('hex')\<close>.\<close>

fun to_hex :: "bytes \<Rightarrow> string" where
  "to_hex [] = []"
| "to_hex (b # bs) = hex_digit (b div 16) # hex_digit (b mod 16) # to_hex bs"

text \<open>
  \<open>Buffer.from(s, 'hex')\<close>: pairs of digits up to the first that is not one, an odd last
  digit dropped.
\<close>

fun from_hex :: "string \<Rightarrow> bytes" where
  "from_hex (c # d # rest) = (case (hex_value c, hex_value d) of
     (Some a, Some b) \<Rightarrow> (16 * a + b) # from_hex rest | _ \<Rightarrow> [])"
| "from_hex _ = []"

lemma hex_value_digit: "d < 16 \<Longrightarrow> hex_value (hex_digit d) = Some d"
  by (auto simp: hex_value_def hex_digit_def Let_def)

lemma from_to_hex: "(\<forall>b \<in> set bs. b < 256) \<Longrightarrow> from_hex (to_hex bs) = bs"
proof (induction bs)
  case Nil
  then show ?case by simp
next
  case (Cons b bs)
  then have "b div 16 < 16" "b mod 16 < 16" by auto
  with Cons show ?case by (simp add: hex_value_digit)
qed

lemma hex_digit_chars: "d < 16 \<Longrightarrow> hex_digit d \<noteq> CHR ''$'' \<and> hex_digit d \<noteq> CHR '':''"
proof -
  assume "d < 16"
  then have "(of_char (hex_digit d) :: nat) \<noteq> 36 \<and> (of_char (hex_digit d) :: nat) \<noteq> 58"
    by (auto simp: hex_digit_def)
  then show ?thesis by auto
qed

lemma to_hex_chars: "(\<forall>b \<in> set bs. b < 256) \<Longrightarrow> CHR ''$'' \<notin> set (to_hex bs) \<and> CHR '':'' \<notin> set (to_hex bs)"
proof (induction bs)
  case Nil
  then show ?case by simp
next
  case (Cons b bs)
  then have "b div 16 < 16" "b mod 16 < 16" by auto
  from this [THEN hex_digit_chars] Cons show ?case by (simp add: eq_commute)
qed

lemma to_hex_Nil: "to_hex bs = [] \<longleftrightarrow> bs = []"
  by (cases bs) auto

section \<open>Password hashes\<close>

type_synonym scrypt_fun = "string \<Rightarrow> string \<Rightarrow> bytes"

definition generate_salt :: "bytes \<Rightarrow> string" where
  "generate_salt random16 = to_hex random16"

definition hash_password :: "(string \<Rightarrow> bytes) \<Rightarrow> string \<Rightarrow> string \<Rightarrow> string" where
  "hash_password sha256 password salt = to_hex (sha256 (salt @ password))"

definition make_password_hash :: "scrypt_fun \<Rightarrow> bytes \<Rightarrow> string \<Rightarrow> string" where
  "make_password_hash scrypt random16 password =
    (let salt = generate_salt random16; hash = to_hex (scrypt password salt)
     in ''scrypt$'' @ salt @ ''$'' @ hash)"

text \<open>The constant-time comparison: the differences of all positions are gathered.\<close>

definition bytes_diff :: "bytes \<Rightarrow> bytes \<Rightarrow> nat" where
  "bytes_diff a b = foldl (\<lambda>diff (x, y). diff OR (x XOR y)) 0 (zip a b)"

definition verify_password ::
  "scrypt_fun \<Rightarrow> (string \<Rightarrow> bytes) \<Rightarrow> string \<Rightarrow> string \<Rightarrow> bool" where
  "verify_password scrypt sha256 password storedHash =
    (if js_starts_with storedHash ''scrypt$'' then
       (case js_split (CHR ''$'') storedHash of
          _ # salt # hash # _ \<Rightarrow>
            if salt = [] \<or> hash = [] then False
            else (let candidate = scrypt password salt; expected = from_hex hash
                  in length candidate = length expected \<and> candidate = expected)
        | _ \<Rightarrow> False)
     else
       (case js_split (CHR '':'') storedHash of
          salt # hash # _ \<Rightarrow>
            if salt = [] \<or> hash = [] then False
            else (let a = from_hex (hash_password sha256 password salt); b = from_hex hash
                  in if length a \<noteq> length b then False else bytes_diff a b = 0)
        | _ \<Rightarrow> False))"

lemma or_eq_0_nat: "(a::nat) OR b = 0 \<longleftrightarrow> a = 0 \<and> b = 0"
  by (auto simp: bit_eq_iff bit_or_iff)

lemma xor_eq_0_nat: "(a::nat) XOR b = 0 \<longleftrightarrow> a = b"
  by (auto simp: bit_eq_iff bit_xor_iff)

lemma foldl_or_diff: "foldl (\<lambda>diff (x, y). diff OR (x XOR y)) (d::nat) xys = 0 \<longleftrightarrow>
    d = 0 \<and> (\<forall>(x, y) \<in> set xys. x = y)"
  by (induction xys arbitrary: d) (auto simp: or_eq_0_nat xor_eq_0_nat)

lemma bytes_diff_0: "length a = length b \<Longrightarrow> bytes_diff a b = 0 \<longleftrightarrow> a = b"
proof -
  assume len: "length a = length b"
  have "(\<forall>(x, y) \<in> set (zip a b). x = y) \<longleftrightarrow> a = b"
    using len by (induction a b rule: list_induct2) auto
  then show ?thesis by (simp add: bytes_diff_def foldl_or_diff)
qed

lemma split_scrypt_hash:
  assumes "CHR ''$'' \<notin> set salt" and "CHR ''$'' \<notin> set hash"
  shows "js_split (CHR ''$'') (''scrypt$'' @ salt @ ''$'' @ hash) = [''scrypt'', salt, hash]"
  using js_split_append [of "CHR ''$''" "''scrypt''" "salt @ ''$'' @ hash"]
    js_split_append [OF assms(1), of hash] js_split_none [OF assms(2)] by simp

lemma verify_make_hash:
  assumes "\<And>p z b. b \<in> set (scrypt p z) \<Longrightarrow> b < 256" and "\<And>p z. scrypt p z \<noteq> []"
    and "\<And>b. b \<in> set rnd \<Longrightarrow> b < 256" and "rnd \<noteq> []"
  shows "verify_password scrypt sha256 q (make_password_hash scrypt rnd p) \<longleftrightarrow>
    scrypt q (to_hex rnd) = scrypt p (to_hex rnd)"
proof -
  have r: "(\<forall>b \<in> set rnd. b < 256)" and h: "(\<forall>b \<in> set (scrypt p (to_hex rnd)). b < 256)"
    using assms by auto
  have "js_split (CHR ''$'') (make_password_hash scrypt rnd p) =
      [''scrypt'', to_hex rnd, to_hex (scrypt p (to_hex rnd))]"
    using split_scrypt_hash to_hex_chars [OF r] to_hex_chars [OF h]
    by (simp add: make_password_hash_def generate_salt_def Let_def)
  moreover have "js_starts_with (make_password_hash scrypt rnd p) ''scrypt$''"
    by (simp add: make_password_hash_def Let_def js_starts_with_iff)
  ultimately show ?thesis
    using assms(2,4) by (auto simp: verify_password_def to_hex_Nil from_to_hex [OF h] Let_def)
qed

section \<open>The service\<close>

record auth_api =
  aa_scrypt :: scrypt_fun
  aa_sha256 :: "string \<Rightarrow> bytes"
  aa_sign_user :: "id \<Rightarrow> id \<Rightarrow> string"

record auth_response =
  as_access_token :: string
  as_userId :: id
  as_orgId :: id

definition issue_token :: "auth_api \<Rightarrow> id \<Rightarrow> id \<Rightarrow> string" where
  "issue_token api userId orgId = aa_sign_user api userId orgId"

text \<open>A new organisation with the column defaults of the schema.\<close>

definition new_org :: "id \<Rightarrow> string \<Rightarrow> string \<Rightarrow> time \<Rightarrow> org" where
  "new_org oid name slug now = \<lparr>org_id = oid, org_name = name, org_slug = slug,
     org_discordWebhookUrl = None, org_frigateUrl = None, org_frigateApiKey = None,
     org_frigateWebhookSecret = None, org_logRetentionDays = 7, org_healthIntervalSec = 10,
     org_avoidBloodMoonRestart = False, org_openaiApiKeyEncrypted = None,
     org_openaiModel = ''gpt-5.3-codex'', org_modAiProvider = ''codex'',
     org_kimiApiKeyEncrypted = None, org_kimiModel = ''kimi-for-coding'', org_createdAt = now\<rparr>"

text \<open>\<open>findFirst({ orderBy: { createdAt: 'asc' } })\<close>: the oldest organisation.\<close>

fun oldest_org :: "org list \<Rightarrow> org option" where
  "oldest_org [] = None"
| "oldest_org (x # xs) = (case oldest_org xs of
     None \<Rightarrow> Some x | Some y \<Rightarrow> if org_createdAt y < org_createdAt x then Some y else Some x)"

definition get_or_create_default_org :: "store \<Rightarrow> time \<Rightarrow> id \<Rightarrow> store \<times> org" where
  "get_or_create_default_org s now oid = (case oldest_org (t_orgs s) of
     Some existing \<Rightarrow> (s, existing)
   | None \<Rightarrow> (let o' = new_org oid ''Default'' ''default'' now
              in (s\<lparr>t_orgs := t_orgs s @ [o']\<rparr>, o')))"

definition resolve_role :: "store \<Rightarrow> id \<Rightarrow> string \<Rightarrow> store \<times> role" where
  "resolve_role s new_role_id name = (case List.find (\<lambda>r. role_name r = name) (t_roles s) of
     Some r \<Rightarrow> (s, r)
   | None \<Rightarrow> (let r = \<lparr>role_id = new_role_id, role_name = name\<rparr>
              in (s\<lparr>t_roles := t_roles s @ [r]\<rparr>, r)))"

text \<open>The ids drawn by a registration: user, organisation and role, when one is created.\<close>

record fresh_ids =
  fi_user :: id
  fi_org :: id
  fi_role :: id

definition register ::
  "auth_api \<Rightarrow> store \<Rightarrow> time \<Rightarrow> bytes \<Rightarrow> fresh_ids \<Rightarrow> string \<Rightarrow> string \<Rightarrow> string option \<Rightarrow> id option \<Rightarrow>
   (store \<times> auth_response) result" where
  "register api s now rnd ids email password name orgId =
    (if exists_where (\<lambda>u. user_email u = email) (t_users s)
     then Inl (ConflictException ''A user with this email already exists'')
     else
       let (s1, targetOrgId) = (case orgId of Some i \<Rightarrow> (s, i)
             | None \<Rightarrow> (let (s', o') = get_or_create_default_org s now (fi_org ids) in (s', org_id o')));
           memberCount = count_where (\<lambda>m. uo_orgId m = targetOrgId) (t_userOrgs s1);
           roleName = (if memberCount = 0 then ''admin'' else ''operator'');
           (s2, role) = resolve_role s1 (fi_role ids) roleName;
           user = \<lparr>user_id = fi_user ids, user_email = email,
             user_name = (case name of None \<Rightarrow> None | Some n \<Rightarrow> or_null (js_trim n)),
             user_passwordHash = Some (make_password_hash (aa_scrypt api) rnd password),
             user_createdAt = now\<rparr>;
           member = \<lparr>uo_userId = fi_user ids, uo_orgId = targetOrgId, uo_roleId = role_id role,
             uo_createdAt = now\<rparr>;
           s3 = s2\<lparr>t_users := t_users s2 @ [user], t_userOrgs := t_userOrgs s2 @ [member]\<rparr>
       in Inr (s3, \<lparr>as_access_token = issue_token api (fi_user ids) targetOrgId,
                     as_userId = fi_user ids, as_orgId = targetOrgId\<rparr>))"

definition login ::
  "auth_api \<Rightarrow> store \<Rightarrow> time \<Rightarrow> id \<Rightarrow> string \<Rightarrow> string \<Rightarrow> (store \<times> auth_response) result" where
  "login api s now new_org_id email password =
    (case List.find (\<lambda>u. user_email u = email) (t_users s) of
       None \<Rightarrow> Inl (UnauthorizedException ''Invalid email or password'')
     | Some user \<Rightarrow> (case user_passwordHash user of
         None \<Rightarrow> Inl (UnauthorizedException ''Invalid email or password'')
       | Some h \<Rightarrow>
           if h = [] \<or> \<not> verify_password (aa_scrypt api) (aa_sha256 api) password h
           then Inl (UnauthorizedException ''Invalid email or password'')
           else (let (s1, firstOrgId) =
                   (case List.find (\<lambda>m. uo_userId m = user_id user) (t_userOrgs s) of
                      Some m \<Rightarrow> (s, uo_orgId m)
                    | None \<Rightarrow> (let (s', o') = get_or_create_default_org s now new_org_id
                               in (s', org_id o')))
                 in Inr (s1, \<lparr>as_access_token = issue_token api (user_id user) firstOrgId,
                               as_userId = user_id user, as_orgId = firstOrgId\<rparr>))))"

definition change_password ::
  "auth_api \<Rightarrow> store \<Rightarrow> bytes \<Rightarrow> id \<Rightarrow> string \<Rightarrow> string \<Rightarrow> store result" where
  "change_password api s rnd userId currentPassword newPassword =
    (case find_user s userId of
       None \<Rightarrow> Inl (UnauthorizedException ''Current password is incorrect'')
     | Some user \<Rightarrow> (case user_passwordHash user of
         None \<Rightarrow> Inl (UnauthorizedException ''Current password is incorrect'')
       | Some h \<Rightarrow>
           if h = [] \<or> \<not> verify_password (aa_scrypt api) (aa_sha256 api) currentPassword h
           then Inl (UnauthorizedException ''Current password is incorrect'')
           else if currentPassword = newPassword
           then Inl (ConflictException ''New password must differ from current password'')
           else Inr (s\<lparr>t_users := update_where (\<lambda>u. user_id u = userId)
                   (\<lambda>u. u\<lparr>user_passwordHash := Some (make_password_hash (aa_scrypt api) rnd newPassword)\<rparr>)
                   (t_users s)\<rparr>)))"

record profile_org =
  po_orgId :: id
  po_orgName :: string
  po_orgSlug :: string
  po_role :: string

record profile =
  pf_userId :: id
  pf_email :: string
  pf_name :: "string option"
  pf_orgs :: "profile_org list"

definition get_profile :: "store \<Rightarrow> id \<Rightarrow> profile result" where
  "get_profile s userId = (case find_user s userId of
     None \<Rightarrow> Inl (NotFoundException ''User not found'')
   | Some user \<Rightarrow> Inr \<lparr>pf_userId = user_id user, pf_email = user_email user,
       pf_name = user_name user,
       pf_orgs = concat (map (\<lambda>m. case (find_org s (uo_orgId m), find_role s (uo_roleId m)) of
           (Some o', Some r) \<Rightarrow> [\<lparr>po_orgId = uo_orgId m, po_orgName = org_name o',
              po_orgSlug = org_slug o', po_role = role_name r\<rparr>]
         | _ \<Rightarrow> []) (filter (\<lambda>m. uo_userId m = userId) (t_userOrgs s)))\<rparr>)"

section \<open>Lemmas\<close>

text \<open>What the services assume of \<open>scryptSync\<close> and \<open>randomBytes\<close>: non-empty lists of bytes.\<close>

definition scrypt_ok :: "scrypt_fun \<Rightarrow> bool" where
  "scrypt_ok scrypt \<longleftrightarrow> (\<forall>p z. scrypt p z \<noteq> [] \<and> (\<forall>b \<in> set (scrypt p z). b < 256))"

definition bytes_ok :: "bytes \<Rightarrow> bool" where
  "bytes_ok bs \<longleftrightarrow> bs \<noteq> [] \<and> (\<forall>b \<in> set bs. b < 256)"

lemma verify_make_hash_ok:
  "scrypt_ok scrypt \<Longrightarrow> bytes_ok rnd \<Longrightarrow>
   verify_password scrypt sha256 q (make_password_hash scrypt rnd p) \<longleftrightarrow>
   scrypt q (to_hex rnd) = scrypt p (to_hex rnd)"
  by (rule verify_make_hash) (auto simp: scrypt_ok_def bytes_ok_def)

lemma make_password_hash_nonempty [simp]: "make_password_hash scrypt rnd p \<noteq> []"
  by (simp add: make_password_hash_def Let_def)

lemma default_org_tables [simp]:
  "t_users (fst (get_or_create_default_org s now i)) = t_users s"
  "t_userOrgs (fst (get_or_create_default_org s now i)) = t_userOrgs s"
  "t_roles (fst (get_or_create_default_org s now i)) = t_roles s"
  by (simp_all add: get_or_create_default_org_def Let_def split: option.splits)

lemma resolve_role_tables [simp]:
  "t_users (fst (resolve_role s i n)) = t_users s"
  "t_userOrgs (fst (resolve_role s i n)) = t_userOrgs s"
  by (simp_all add: resolve_role_def Let_def split: option.splits)

lemma resolve_role_found:
  assumes "distinct (map role_id (t_roles s))" and "i \<notin> role_id ` set (t_roles s)"
  shows "find_role (fst (resolve_role s i n)) (role_id (snd (resolve_role s i n))) =
    Some (snd (resolve_role s i n)) \<and> role_name (snd (resolve_role s i n)) = n"
proof (cases "List.find (\<lambda>r. role_name r = n) (t_roles s)")
  case None
  have "List.find (\<lambda>r. role_id r = i) (t_roles s) = None"
    using assms(2) unfolding find_None_iff' by (metis image_eqI)
  with None show ?thesis
    by (simp add: resolve_role_def find_role_def find_append Let_def)
next
  case (Some r)
  from find_SomeD [OF Some] find_key_distinct [OF assms(1)] Some show ?thesis
    by (simp add: resolve_role_def find_role_def)
qed

text \<open>What a registration appends, whatever organisation it resolves.\<close>

lemma register_effect:
  assumes "register api s now rnd ids email password name orgId = Inr (s', resp)"
  shows "\<exists>rid nm. t_users s' = t_users s @ [\<lparr>user_id = fi_user ids, user_email = email, user_name = nm,
        user_passwordHash = Some (make_password_hash (aa_scrypt api) rnd password), user_createdAt = now\<rparr>] \<and>
      t_userOrgs s' = t_userOrgs s @ [\<lparr>uo_userId = fi_user ids, uo_orgId = as_orgId resp,
        uo_roleId = rid, uo_createdAt = now\<rparr>] \<and>
      as_userId resp = fi_user ids \<and>
      as_access_token resp = issue_token api (fi_user ids) (as_orgId resp) \<and>
      \<not> exists_where (\<lambda>u. user_email u = email) (t_users s) \<and>
      (distinct (map role_id (t_roles s)) \<longrightarrow> fi_role ids \<notin> role_id ` set (t_roles s) \<longrightarrow>
        map_option role_name (find_role s' rid) =
          Some (if count_where (\<lambda>m. uo_orgId m = as_orgId resp) (t_userOrgs s) = 0
                then ''admin'' else ''operator''))"
proof -
  define p where "p = (case orgId of Some i \<Rightarrow> (s, i)
     | None \<Rightarrow> (fst (get_or_create_default_org s now (fi_org ids)),
                org_id (snd (get_or_create_default_org s now (fi_org ids)))))"
  have p: "t_users (fst p) = t_users s" "t_userOrgs (fst p) = t_userOrgs s" "t_roles (fst p) = t_roles s"
    by (auto simp: p_def split: option.splits)
  define rn where "rn = (if count_where (\<lambda>m. uo_orgId m = snd p) (t_userOrgs s) = 0
     then ''admin'' else ''operator'')"
  define r where "r = resolve_role (fst p) (fi_role ids) rn"
  have fr: "find_role (s\<lparr>t_users := u, t_userOrgs := m\<rparr>) i = find_role s i" for s u m i
    by (simp add: find_role_def)
  have "distinct (map role_id (t_roles s)) \<Longrightarrow> fi_role ids \<notin> role_id ` set (t_roles s) \<Longrightarrow>
      find_role (fst r) (role_id (snd r)) = Some (snd r) \<and> role_name (snd r) = rn"
    unfolding r_def by (rule resolve_role_found) (simp_all add: p)
  moreover from assms have "\<not> exists_where (\<lambda>u. user_email u = email) (t_users s)"
    by (auto simp: register_def split: if_splits)
  moreover from assms this have "s' = (fst r)\<lparr>t_users := t_users s @ [\<lparr>user_id = fi_user ids, user_email = email,
        user_name = (case name of None \<Rightarrow> None | Some n \<Rightarrow> or_null (js_trim n)),
        user_passwordHash = Some (make_password_hash (aa_scrypt api) rnd password), user_createdAt = now\<rparr>],
      t_userOrgs := t_userOrgs s @ [\<lparr>uo_userId = fi_user ids, uo_orgId = snd p,
        uo_roleId = role_id (snd r), uo_createdAt = now\<rparr>]\<rparr> \<and>
      resp = \<lparr>as_access_token = issue_token api (fi_user ids) (snd p), as_userId = fi_user ids,
        as_orgId = snd p\<rparr>"
    by (auto simp: register_def Let_def p_def r_def rn_def split_beta split: option.splits)
  ultimately show ?thesis
    by (auto simp: fr rn_def)
qed

section \<open>A concrete instance for the witnesses\<close>

definition sample_api :: auth_api where
  "sample_api = \<lparr>aa_scrypt = (\<lambda>p z. 1 # map of_char p), aa_sha256 = (\<lambda>x. 2 # map of_char x),
     aa_sign_user = (\<lambda>u o'. u @ ''@'' @ o')\<rparr>"

definition sample_ids :: fresh_ids where
  "sample_ids = \<lparr>fi_user = ''u1'', fi_org = ''o1'', fi_role = ''r1''\<rparr>"

lemma sample_api_ok: "scrypt_ok (aa_scrypt sample_api)" "bytes_ok [7, 200]"
  by (auto simp: scrypt_ok_def sample_api_def bytes_ok_def)

lemma sample_scrypt: "aa_scrypt sample_api p z = 1 # map of_char p"
  by (simp add: sample_api_def)

definition sample_registered :: "store \<times> auth_response" where
  "sample_registered = (case register sample_api empty_store 0 [7, 200] sample_ids ''a@b.c'' ''pw'' None None of
     Inr r \<Rightarrow> r | Inl _ \<Rightarrow> (empty_store, \<lparr>as_access_token = [], as_userId = [], as_orgId = []\<rparr>))"

lemma sample_register:
  "register sample_api empty_store 0 [7, 200] sample_ids ''a@b.c'' ''pw'' None None =
   Inr (fst sample_registered, snd sample_registered)"
  by (simp add: sample_registered_def register_def Let_def empty_store_def exists_where_def split_beta)

section \<open>Properties\<close>



text \<open>
  Roles at registration: the first member of an organisation becomes its
  administrator, every later one an operator, also when the caller names the organisation.
\<close>

theorem register_role:
  assumes reg: "register api s now rnd ids email password name orgId = Inr (s', resp)"
    and new: "fi_user ids \<notin> uo_userId ` set (t_userOrgs s)"
      "distinct (map role_id (t_roles s))" "fi_role ids \<notin> role_id ` set (t_roles s)"
  shows "member_role s' (fi_user ids) (as_orgId resp) =
    Some (if \<exists>m \<in> set (t_userOrgs s). uo_orgId m = as_orgId resp then ''operator'' else ''admin'')"
proof -
  from register_effect [OF reg] new(2,3) obtain rid where
    m: "t_userOrgs s' = t_userOrgs s @ [\<lparr>uo_userId = fi_user ids, uo_orgId = as_orgId resp,
        uo_roleId = rid, uo_createdAt = now\<rparr>]"
    and rn: "map_option role_name (find_role s' rid) =
        Some (if count_where (\<lambda>m. uo_orgId m = as_orgId resp) (t_userOrgs s) = 0 then ''admin'' else ''operator'')"
    by blast
  have "find_member s' (fi_user ids) (as_orgId resp) =
      Some \<lparr>uo_userId = fi_user ids, uo_orgId = as_orgId resp, uo_roleId = rid, uo_createdAt = now\<rparr>"
  proof -
    have "List.find (\<lambda>m. uo_userId m = fi_user ids \<and> uo_orgId m = as_orgId resp) (t_userOrgs s) = None"
      using new(1) unfolding find_None_iff' by (metis image_eqI)
    then show ?thesis by (simp add: find_member_def m find_append)
  qed
  moreover have "count_where (\<lambda>m. uo_orgId m = as_orgId resp) (t_userOrgs s) = 0 \<longleftrightarrow>
      \<not> (\<exists>m \<in> set (t_userOrgs s). uo_orgId m = as_orgId resp)"
    by (auto simp: count_where_def filter_empty_conv)
  ultimately show ?thesis
    using rn by (auto simp: member_role_def split: if_splits)
qed

theorem register_role_witness:
  "member_role (fst sample_registered) ''u1'' (as_orgId (snd sample_registered)) = Some ''admin''"
proof -
  have new: "fi_user sample_ids \<notin> uo_userId ` set (t_userOrgs empty_store)"
    "distinct (map role_id (t_roles empty_store))" "fi_role sample_ids \<notin> role_id ` set (t_roles empty_store)"
    by (simp_all add: empty_store_def)
  from register_role [OF sample_register new] show ?thesis
    by (simp add: sample_ids_def empty_store_def)
qed



text \<open>
  The comparison written for legacy hashes, which runs over all positions, decides
  equality: a stored \<open>salt:digest\<close> pair with a full-length digest accepts a password
  exactly when the digest is the password's own.
\<close>

theorem legacy_verify_iff:
  assumes sha: "\<And>x b. b \<in> set (sha256 x) \<Longrightarrow> b < 256"
    and salt: "salt \<noteq> []" "CHR '':'' \<notin> set salt" "\<not> js_starts_with (salt @ '':'') ''scrypt$''"
    and digest: "\<And>b. b \<in> set digest \<Longrightarrow> b < 256" "digest \<noteq> []" "7 \<le> length salt"
  shows "verify_password scrypt sha256 password (salt @ '':'' @ to_hex digest) \<longleftrightarrow>
    sha256 (salt @ password) = digest"
proof -
  have d: "\<forall>b \<in> set digest. b < 256" and h: "\<forall>b \<in> set (sha256 (salt @ password)). b < 256"
    using sha digest by auto
  have "js_split (CHR '':'') (salt @ '':'' @ to_hex digest) = [salt, to_hex digest]"
    using js_split_append [OF salt(2), of "to_hex digest"] to_hex_chars [OF d] by (simp add: js_split_none)
  moreover have "\<not> js_starts_with (salt @ '':'' @ to_hex digest) ''scrypt$''"
    using salt(3) digest(3) by (simp add: js_starts_with_iff)
  ultimately show ?thesis
    using salt(1) digest(2) from_to_hex [OF d] from_to_hex [OF h]
    by (auto simp: verify_password_def hash_password_def Let_def to_hex_Nil bytes_diff_0)
qed

theorem legacy_verify_iff_witness:
  "verify_password (\<lambda>_ _. [0]) (\<lambda>x. [2, 3]) ''pw'' (''deadbeef'' @ '':'' @ to_hex [2, 3]) \<and>
   \<not> verify_password (\<lambda>_ _. [0]) (\<lambda>x. [2, 3]) ''pw'' (''deadbeef'' @ '':'' @ to_hex [2, 4])"
proof -
  have salt: "''deadbeef'' \<noteq> []" "CHR '':'' \<notin> set ''deadbeef''"
      "\<not> js_starts_with (''deadbeef'' @ '':'') ''scrypt$''" by simp_all
  have "verify_password (\<lambda>_ _. [0]) (\<lambda>x. [2, 3]) ''pw'' (''deadbeef'' @ '':'' @ to_hex [2, n]) \<longleftrightarrow>
      (\<lambda>x. [2, 3]) (''deadbeef'' @ ''pw'') = [2, n]" if "n < 256" for n
    using that by (intro legacy_verify_iff salt) auto
  from this [of 3] this [of 4] show ?thesis by simp
qed

end
