(* ===== verification/JsValues.thy ===== *)
theory JsValues
  imports Calendar
begin

text \<open>
  The conversions of JSON values the sources rely on: \<open>String(v)\<close>, truthiness,
  \<open>Number(v)\<close> (only whether it is an integer, and which), \<open>o?.[k] ?? d\<close>, and the
  duplicate-free list of a \<open>Set\<close>.
\<close>

fun join_with :: "string \<Rightarrow> string list \<Rightarrow> string" where
  "join_with sep [] = []"
| "join_with sep [x] = x"
| "join_with sep (x # xs) = x @ sep @ join_with sep xs"

text \<open>\<open>String(v)\<close>.\<close>

fun js_string :: "json \<Rightarrow> string" where
  "js_string JNull = ''null''"
| "js_string (JBool b) = (if b then ''true'' else ''false'')"
| "js_string (JNum n) = int_string n"
| "js_string (JStr s) = s"
| "js_string (JArr vs) = join_with '','' (map (\<lambda>v. if v = JNull then [] else js_string v) vs)"
| "js_string (JObj kvs) = ''[object Object]''"

text \<open>\<open>o?.[k] ?? d\<close> and \<open>String(o?.[k] ?? d)\<close>.\<close>

definition nullish_get :: "json \<Rightarrow> string \<Rightarrow> json option" where
  "nullish_get v k = (case jget v k of None \<Rightarrow> None | Some JNull \<Rightarrow> None | Some x \<Rightarrow> Some x)"

definition js_prop_string :: "json \<Rightarrow> string \<Rightarrow> string \<Rightarrow> string" where
  "js_prop_string v k d = (case jget v k of None \<Rightarrow> d | Some JNull \<Rightarrow> d | Some x \<Rightarrow> js_string x)"

definition truthy :: "json option \<Rightarrow> bool" where
  "truthy v = (case v of None \<Rightarrow> False | Some JNull \<Rightarrow> False | Some (JBool b) \<Rightarrow> b
     | Some (JNum n) \<Rightarrow> n \<noteq> 0 | Some (JStr x) \<Rightarrow> x \<noteq> [] | _ \<Rightarrow> True)"

text \<open>
  The integer a numeric string denotes, None when \<open>Number(s)\<close> is \<open>NaN\<close> or no integer:
  blank is zero; a sign, digits with an optional point and an optional exponent; or a
  hexadecimal, octal or binary literal.  Numbers too large for exact doubles are taken at
  their exact value.
\<close>

definition radix_digit :: "char \<Rightarrow> nat" where
  "radix_digit c = (let n = of_char (lower_char c) :: nat in
     if 48 \<le> n \<and> n \<le> 57 then n - 48 else if 97 \<le> n \<and> n \<le> 102 then n - 87 else 99)"

definition radix_int :: "nat \<Rightarrow> string \<Rightarrow> int option" where
  "radix_int r ds = (if ds = [] \<or> list_ex (\<lambda>c. r \<le> radix_digit c) ds then None
     else Some (int (foldl (\<lambda>acc c. r * acc + radix_digit c) 0 ds)))"

definition signed_digits :: "string \<Rightarrow> int option" where
  "signed_digits s = (let ds = (if js_starts_with s ''-'' \<or> js_starts_with s ''+'' then drop 1 s else s)
     in if ds = [] \<or> \<not> list_all is_digit ds then None
        else Some (if js_starts_with s ''-'' then - int (digits_value ds) else int (digits_value ds)))"

definition decimal_int :: "string \<Rightarrow> int option" where
  "decimal_int u =
    (let ip = takeWhile is_digit u; u1 = dropWhile is_digit u;
         fp = (if js_starts_with u1 ''.'' then takeWhile is_digit (drop 1 u1) else []);
         u2 = (if js_starts_with u1 ''.'' then dropWhile is_digit (drop 1 u1) else u1);
         expo = (if u2 = [] then Some 0
                 else if js_starts_with u2 ''e'' \<or> js_starts_with u2 ''E'' then signed_digits (drop 1 u2)
                 else None)
     in if ip = [] \<and> fp = [] then None
        else (case expo of
          None \<Rightarrow> None
        | Some e \<Rightarrow>
            let m = int (digits_value (ip @ fp)); k = e - int (length fp)
            in if 0 \<le> k then Some (m * 10 ^ nat k)
               else if m mod 10 ^ nat (- k) = 0 then Some (m div 10 ^ nat (- k)) else None))"

definition js_string_int :: "string \<Rightarrow> int option" where
  "js_string_int s = (let t = js_trim s in
     if t = [] then Some 0
     else if js_starts_with (js_lower t) ''0x'' then radix_int 16 (drop 2 t)
     else if js_starts_with (js_lower t) ''0o'' then radix_int 8 (drop 2 t)
     else if js_starts_with (js_lower t) ''0b'' then radix_int 2 (drop 2 t)
     else if js_starts_with t ''-'' then map_option uminus (decimal_int (drop 1 t))
     else if js_starts_with t ''+'' then decimal_int (drop 1 t)
     else decimal_int t)"

text \<open>\<open>Number(v)\<close> where it is an integer.\<close>

definition js_int :: "json \<Rightarrow> int option" where
  "js_int v = (case v of JNull \<Rightarrow> Some 0 | JBool b \<Rightarrow> Some (if b then 1 else 0) | JNum n \<Rightarrow> Some n
     | _ \<Rightarrow> js_string_int (js_string v))"

text \<open>
  \<open>Number(s)\<close> of any string, with fractions: \<open>Fin m k\<close> is the exact value \<open>m * 10 ^ k\<close> that the text
  denotes, which the engine rounds to the nearest double; texts beyond the largest double are
  infinite, those below half the smallest one are zero.
\<close>

datatype js_num = NaN | Infinite bool | Fin int int

definition rounded_num :: "int \<Rightarrow> int \<Rightarrow> js_num" where
  "rounded_num m k =
    (let n = \<bar>m\<bar> * 10 ^ nat k; d = 10 ^ nat (- k) in
     if (2 ^ 1024 - 2 ^ 970) * d \<le> n then Infinite (m < 0)
     else if n * 2 ^ 1075 \<le> d then Fin 0 0 else Fin m k)"

definition decimal_num :: "bool \<Rightarrow> string \<Rightarrow> js_num" where
  "decimal_num neg u =
    (let ip = takeWhile is_digit u; u1 = dropWhile is_digit u;
         fp = (if js_starts_with u1 ''.'' then takeWhile is_digit (drop 1 u1) else []);
         u2 = (if js_starts_with u1 ''.'' then dropWhile is_digit (drop 1 u1) else u1);
         expo = (if u2 = [] then Some 0
                 else if js_starts_with u2 ''e'' \<or> js_starts_with u2 ''E'' then signed_digits (drop 1 u2)
                 else None);
         m = int (digits_value (ip @ fp))
     in if u = ''Infinity'' then Infinite neg
        else if ip = [] \<and> fp = [] then NaN
        else (case expo of None \<Rightarrow> NaN | Some e \<Rightarrow> rounded_num (if neg then - m else m) (e - int (length fp))))"

definition js_number :: "string \<Rightarrow> js_num" where
  "js_number s = (let t = js_trim s; radix = (\<lambda>r. case radix_int r (drop 2 t) of None \<Rightarrow> NaN | Some n \<Rightarrow> rounded_num n 0)
     in if t = [] then Fin 0 0
        else if js_starts_with (js_lower t) ''0x'' then radix 16
        else if js_starts_with (js_lower t) ''0o'' then radix 8
        else if js_starts_with (js_lower t) ''0b'' then radix 2
        else if js_starts_with t ''-'' then decimal_num True (drop 1 t)
        else if js_starts_with t ''+'' then decimal_num False (drop 1 t)
        else decimal_num False t)"

text \<open>\<open>[...new Set(xs)]\<close>: first occurrences, in order.\<close>

fun js_unique :: "'a list \<Rightarrow> 'a list" where
  "js_unique [] = []"
| "js_unique (x # xs) = x # filter (\<lambda>y. y \<noteq> x) (js_unique xs)"

lemma set_js_unique [simp]: "set (js_unique xs) = set xs"
  by (induction xs) auto

lemma distinct_js_unique [simp]: "distinct (js_unique xs)"
  by (induction xs) auto

text \<open>\<open>output.split(/\r?\n/)\<close>\<close>

fun split_lines :: "string \<Rightarrow> string list" where
  "split_lines [] = [[]]"
| "split_lines (c # cs) =
     (if c = CHR 0x0A then [] # split_lines cs
      else if c = CHR 0x0D \<and> js_starts_with cs [CHR 0x0A] then [] # split_lines (drop 1 cs)
      else (case split_lines cs of [] \<Rightarrow> [[c]] | l # ls \<Rightarrow> (c # l) # ls))"

text \<open>The order of strings, code unit by code unit.\<close>

fun string_le :: "string \<Rightarrow> string \<Rightarrow> bool" where
  "string_le [] t = True"
| "string_le (a # s) [] = False"
| "string_le (a # s) (b # t) = ((of_char a :: nat) < of_char b \<or> a = b \<and> string_le s t)"

lemma string_le_refl [simp]: "string_le s s"
  by (induction s) auto

lemma string_le_total: "string_le s t \<or> string_le t s"
  by (induction s t rule: string_le.induct) (auto simp: neq_iff)

lemma string_le_trans: "string_le s t \<Longrightarrow> string_le t u \<Longrightarrow> string_le s u"
proof (induction s t arbitrary: u rule: string_le.induct)
  case (3 a s b t)
  then show ?case by (cases u) auto
qed auto

text \<open>The oldest row: \<open>findFirst\<close> with \<open>orderBy: { createdAt: 'asc' }\<close>.\<close>

fun oldest_by :: "('r \<Rightarrow> time) \<Rightarrow> 'r list \<Rightarrow> 'r option" where
  "oldest_by at [] = None"
| "oldest_by at (x # xs) = (case oldest_by at xs of
     None \<Rightarrow> Some x | Some y \<Rightarrow> if at y < at x then Some y else Some x)"

lemma oldest_by_SomeD: "oldest_by at xs = Some x \<Longrightarrow> x \<in> set xs \<and> (\<forall>y \<in> set xs. at x \<le> at y)"
proof (induction xs arbitrary: x)
  case Nil
  then show ?case by simp
next
  case (Cons y ys)
  show ?case
  proof (cases "oldest_by at ys")
    case None
    then have "ys = []" by (cases ys) (auto split: option.splits if_splits)
    with Cons.prems show ?thesis by simp
  next
    case (Some z)
    with Cons.IH [OF Some] Cons.prems show ?thesis
      by (auto split: if_splits intro: order_trans less_imp_le)
  qed
qed

lemma oldest_by_None [simp]: "oldest_by at xs = None \<longleftrightarrow> xs = []"
  by (cases xs) (auto split: option.splits if_splits)

text \<open>A number printed in decimal reads back.\<close>

lemma takeWhile_all: "(\<And>x. x \<in> set xs \<Longrightarrow> P x) \<Longrightarrow> takeWhile P xs = xs"
  by (induction xs) auto

lemma decimal_int_nat: "decimal_int (nat_string n) = Some (int n)"
proof -
  have t: "takeWhile is_digit (nat_string n) = nat_string n"
    by (rule takeWhile_all) (rule nat_string_digits)
  then have d: "dropWhile is_digit (nat_string n) = []"
    by (metis append_self_conv takeWhile_dropWhile_id)
  show ?thesis
    unfolding decimal_int_def t d by (simp add: nat_string_nonempty digits_value_nat_string)
qed

end
