(* ===== verification/OpenAiKeys.thy ===== *)
theory OpenAiKeys
  imports Prelude
begin

text \<open>
  \<open>orgs/openai-crypto.ts\<close>: the envelope in which an organisation's provider keys are stored.
  AES-256-GCM is a parameter: \<open>seal\<close> is \<open>createCipheriv\<close> with \<open>update(value, 'utf8')\<close> and
  \<open>final\<close> (the ciphertext and the authentication tag), \<open>unseal\<close> is \<open>createDecipheriv\<close>, None when it
  throws because the tag does not verify.  The digest of the secret is a parameter too.
\<close>

section \<open>Base64 buffers\<close>

definition b64_char :: "nat \<Rightarrow> char" where
  "b64_char d = (if d < 26 then char_of (65 + d) else if d < 52 then char_of (71 + d)
     else if d < 62 then char_of (d - 4) else if d = 62 then CHR ''+'' else CHR ''/'')"

text \<open>Both alphabets are read: \<open>+\<close> and \<open>-\<close> are 62, \<open>/\<close> and \<open>_\<close> are 63.\<close>

definition b64_value :: "char \<Rightarrow> nat option" where
  "b64_value c = (let n = of_char c :: nat in
     if 65 \<le> n \<and> n \<le> 90 then Some (n - 65)
     else if 97 \<le> n \<and> n \<le> 122 then Some (n - 71)
     else if 48 \<le> n \<and> n \<le> 57 then Some (n + 4)
     else if n = 43 \<or> n = 45 then Some 62
     else if n = 47 \<or> n = 95 then Some 63
     else None)"

text \<open>\<open>buffer.toString('base64')\<close>, with padding.\<close>

fun to_base64 :: "nat list \<Rightarrow> string" where
  "to_base64 (a # b # c # rest) =
     b64_char (a div 4) # b64_char ((a mod 4) * 16 + b div 16) #
     b64_char ((b mod 16) * 4 + c div 64) # b64_char (c mod 64) # to_base64 rest"
| "to_base64 [a, b] =
     [b64_char (a div 4), b64_char ((a mod 4) * 16 + b div 16), b64_char ((b mod 16) * 4), CHR ''='']"
| "to_base64 [a] = [b64_char (a div 4), b64_char ((a mod 4) * 16), CHR ''='', CHR ''='']"
| "to_base64 [] = []"

fun b64_bytes :: "nat list \<Rightarrow> nat list" where
  "b64_bytes (p # q # r # t # rest) =
     (p * 4 + q div 16) # ((q mod 16) * 16 + r div 4) # ((r mod 4) * 64 + t) # b64_bytes rest"
| "b64_bytes [p, q, r] = [p * 4 + q div 16, (q mod 16) * 16 + r div 4]"
| "b64_bytes [p, q] = [p * 4 + q div 16]"
| "b64_bytes _ = []"

text \<open>\<open>Buffer.from(s, 'base64')\<close>: up to the padding; other characters are skipped.\<close>

definition from_base64 :: "string \<Rightarrow> nat list" where
  "from_base64 s = b64_bytes (List.map_filter b64_value (takeWhile (\<lambda>c. c \<noteq> CHR ''='') s))"

lemma b64_value_char: "d < 64 \<Longrightarrow> b64_value (b64_char d) = Some d"
  by (auto simp: b64_value_def b64_char_def Let_def)

lemma b64_char_plain: "d < 64 \<Longrightarrow> b64_char d \<noteq> CHR ''='' \<and> b64_char d \<noteq> CHR '':''"
proof -
  assume "d < 64"
  then have "b64_value (b64_char d) = Some d" by (rule b64_value_char)
  moreover have "b64_value (CHR ''='') = None" "b64_value (CHR '':'') = None"
    by (simp_all add: b64_value_def)
  ultimately show ?thesis by fastforce
qed

lemma from_to_base64: "(\<forall>b \<in> set bs. b < 256) \<Longrightarrow> from_base64 (to_base64 bs) = bs"
proof (induction bs rule: to_base64.induct)
  case (1 a b c rest)
  let ?ds = "[a div 4, (a mod 4) * 16 + b div 16, (b mod 16) * 4 + c div 64, c mod 64]"
  from 1 have ds: "\<And>d. d \<in> set ?ds \<Longrightarrow> d < 64" by auto
  note v = ds [THEN b64_value_char] ds [THEN b64_char_plain]
  have "from_base64 (to_base64 (a # b # c # rest)) = b64_bytes ?ds @ from_base64 (to_base64 rest)"
    using v by (simp add: from_base64_def List.map_filter_simps)
  moreover have "b div 16 < 16" "c div 64 < 4" using 1 by auto
  ultimately show ?case using 1 by simp
next
  case (2 a b)
  let ?ds = "[a div 4, (a mod 4) * 16 + b div 16, (b mod 16) * 4]"
  from 2 have ds: "\<And>d. d \<in> set ?ds \<Longrightarrow> d < 64" by auto
  note v = ds [THEN b64_value_char] ds [THEN b64_char_plain]
  have "b div 16 < 16" using 2 by auto
  with v 2 show ?case by (simp add: from_base64_def List.map_filter_simps)
next
  case (3 a)
  let ?ds = "[a div 4, (a mod 4) * 16]"
  from 3 have ds: "\<And>d. d \<in> set ?ds \<Longrightarrow> d < 64" by auto
  note v = ds [THEN b64_value_char] ds [THEN b64_char_plain]
  show ?case using v 3 by (simp add: from_base64_def List.map_filter_simps)
next
  case 4
  show ?case by (simp add: from_base64_def List.map_filter_simps)
qed

lemma to_base64_no_colon: "(\<forall>b \<in> set bs. b < 256) \<Longrightarrow> CHR '':'' \<notin> set (to_base64 bs)"
proof (induction bs rule: to_base64.induct)
  case (1 a b c rest)
  then have "a div 4 < 64" "(a mod 4) * 16 + b div 16 < 64" "(b mod 16) * 4 + c div 64 < 64" "c mod 64 < 64"
    by auto
  from this [THEN b64_char_plain] 1 show ?case by auto
next
  case (2 a b)
  then have "a div 4 < 64" "(a mod 4) * 16 + b div 16 < 64" "(b mod 16) * 4 < 64" by auto
  from this [THEN b64_char_plain] show ?case by auto
next
  case (3 a)
  then have "a div 4 < 64" "(a mod 4) * 16 < 64" by auto
  from this [THEN b64_char_plain] show ?case by auto
next
  case 4
  show ?case by simp
qed

lemma to_base64_Nil [simp]: "to_base64 bs = [] \<longleftrightarrow> bs = []"
  by (cases bs rule: to_base64.cases) auto

section \<open>The envelope\<close>

record aead =
  ae_digest :: "string \<Rightarrow> nat list"
  ae_seal :: "nat list \<Rightarrow> nat list \<Rightarrow> string \<Rightarrow> nat list \<times> nat list"
  ae_unseal :: "nat list \<Rightarrow> nat list \<Rightarrow> nat list \<Rightarrow> nat list \<Rightarrow> string option"

text \<open>The environment variables; the first non-empty one, else the default.\<close>

record key_env =
  ke_openai_secret :: "string option"
  ke_jwt_secret :: "string option"

definition non_empty :: "string option \<Rightarrow> string option" where
  "non_empty v = (case v of None \<Rightarrow> None | Some x \<Rightarrow> or_null x)"

definition envelope_key :: "aead \<Rightarrow> key_env \<Rightarrow> nat list" where
  "envelope_key api env = ae_digest api (case or_else (non_empty (ke_openai_secret env)) (non_empty (ke_jwt_secret env)) of
     Some x \<Rightarrow> x | None \<Rightarrow> ''change-me-in-production'')"

definition encrypt_openai_key :: "aead \<Rightarrow> key_env \<Rightarrow> nat list \<Rightarrow> string \<Rightarrow> string" where
  "encrypt_openai_key api env iv plain =
    (let (encrypted, tag) = ae_seal api (envelope_key api env) iv plain
     in ''v1'' @ '':'' @ to_base64 iv @ '':'' @ to_base64 tag @ '':'' @ to_base64 encrypted)"

definition decrypt_openai_key :: "aead \<Rightarrow> key_env \<Rightarrow> string \<Rightarrow> string result" where
  "decrypt_openai_key api env stored = (case js_split (CHR '':'') stored of
     version # iv # tag # data # _ \<Rightarrow>
       if version \<noteq> ''v1'' \<or> iv = [] \<or> tag = [] \<or> data = [] then Inl (Error ''Stored OpenAI API key is invalid'')
       else (case ae_unseal api (envelope_key api env) (from_base64 iv) (from_base64 tag) (from_base64 data) of
           None \<Rightarrow> Inl (Error ''Unsupported state or unable to authenticate data'')
         | Some v \<Rightarrow> Inr v)
   | _ \<Rightarrow> Inl (Error ''Stored OpenAI API key is invalid''))"

text \<open>
  What the code relies on of AES-256-GCM: buffers of bytes, a 16-byte tag, a ciphertext as long
  as the UTF-8 text (so empty exactly for the empty text), and unsealing what was sealed.
\<close>

definition aead_ok :: "aead \<Rightarrow> bool" where
  "aead_ok api \<longleftrightarrow> (\<forall>k iv v. (\<forall>b \<in> set (fst (ae_seal api k iv v)) \<union> set (snd (ae_seal api k iv v)). b < 256) \<and>
     length (snd (ae_seal api k iv v)) = 16 \<and> (fst (ae_seal api k iv v) = [] \<longleftrightarrow> v = []) \<and>
     ae_unseal api k iv (snd (ae_seal api k iv v)) (fst (ae_seal api k iv v)) = Some v)"

lemma decrypt_encrypt_key:
  assumes api: "aead_ok api" and iv: "iv \<noteq> []" "\<forall>b \<in> set iv. b < 256"
  shows "decrypt_openai_key api env (encrypt_openai_key api env iv plain) =
    (if plain = [] then Inl (Error ''Stored OpenAI API key is invalid'') else Inr plain)"
proof -
  obtain data tag where seal: "ae_seal api (envelope_key api env) iv plain = (data, tag)" by fastforce
  have d: "\<forall>b \<in> set data. b < 256" and t: "\<forall>b \<in> set tag. b < 256" "tag \<noteq> []"
    and v: "data = [] \<longleftrightarrow> plain = []" "ae_unseal api (envelope_key api env) iv tag data = Some plain"
    using api [unfolded aead_ok_def, rule_format, of "envelope_key api env" iv plain] by (auto simp: seal)
  have "js_split (CHR '':'') (encrypt_openai_key api env iv plain) =
      [''v1'', to_base64 iv, to_base64 tag, to_base64 data]"
    using js_split_append [of "CHR '':''" "''v1''" "to_base64 iv @ '':'' @ to_base64 tag @ '':'' @ to_base64 data"]
      js_split_append [OF to_base64_no_colon [OF iv(2)], of "to_base64 tag @ '':'' @ to_base64 data"]
      js_split_append [OF to_base64_no_colon [OF t(1)], of "to_base64 data"]
      js_split_none [OF to_base64_no_colon [OF d]]
    by (simp add: encrypt_openai_key_def seal)
  then show ?thesis
    using iv t v by (simp add: decrypt_openai_key_def from_to_base64 d)
qed

section \<open>A concrete instance for the witnesses\<close>

text \<open>A toy cipher with the laws: the text itself, each byte as it is, under a constant tag.\<close>

definition sample_aead :: aead where
  "sample_aead = \<lparr>ae_digest = (\<lambda>s. [length s mod 256]), ae_seal = (\<lambda>k iv v. (map of_char v, replicate 16 7)),
     ae_unseal = (\<lambda>k iv tag data. if tag = replicate 16 7 then Some (map char_of data) else None)\<rparr>"

definition sample_key_env :: key_env where
  "sample_key_env = \<lparr>ke_openai_secret = None, ke_jwt_secret = Some ''secret''\<rparr>"

lemma sample_aead_ok: "aead_ok sample_aead"
  by (auto simp: aead_ok_def sample_aead_def o_def)

section \<open>Properties\<close>

text \<open>
  A stored provider key can be read back: decrypting an encrypted key gives the key, for
  every key but the empty one, which is stored like any other and rejected when it is used.
\<close>

theorem provider_key_roundtrip:
  assumes "aead_ok api" and "iv \<noteq> []" and "\<forall>b \<in> set iv. b < 256"
  shows "decrypt_openai_key api env (encrypt_openai_key api env iv plain) =
    (if plain = [] then Inl (Error ''Stored OpenAI API key is invalid'') else Inr plain)"
  by (rule decrypt_encrypt_key [OF assms])

theorem provider_key_roundtrip_witness:
  "decrypt_openai_key sample_aead sample_key_env (encrypt_openai_key sample_aead sample_key_env [1, 2, 250] ''sk-1'') = Inr ''sk-1''"
  using provider_key_roundtrip [OF sample_aead_ok, of "[1, 2, 250]" sample_key_env "''sk-1''"] by simp

end
