(* ===== verification/Orgs.thy ===== *)
theory Orgs
  imports Auth JsValues OpenAiKeys
begin

text \<open>
  \<open>orgs/orgs.service.ts\<close> with the data transfer objects of \<open>orgs/orgs.controller.ts\<close> and
  \<open>auth/auth.controller.ts\<close>: accounts of an organisation, organisations, their integration settings
  and the connection tests.  Each handler stands behind the guards that theory \<open>Access\<close> lists;
  \<open>class-validator\<close>'s e-mail test and the network are parameters.
\<close>

section \<open>Requests\<close>

definition register_dto_ok :: "(string \<Rightarrow> bool) \<Rightarrow> string \<Rightarrow> string \<Rightarrow> bool" where
  "register_dto_ok is_email email password \<longleftrightarrow> is_email email \<and> 1 \<le> length password"

definition login_dto_ok :: "(string \<Rightarrow> bool) \<Rightarrow> string \<Rightarrow> string \<Rightarrow> bool" where
  "login_dto_ok is_email email password \<longleftrightarrow> is_email email \<and> 1 \<le> length password"

definition change_password_dto_ok :: "string \<Rightarrow> string \<Rightarrow> bool" where
  "change_password_dto_ok currentPassword newPassword \<longleftrightarrow> 1 \<le> length currentPassword \<and> 12 \<le> length newPassword"

record account_input =
  ac_email :: string
  ac_password :: string
  ac_name :: "string option"
  ac_role :: string

definition create_account_dto_ok :: "(string \<Rightarrow> bool) \<Rightarrow> account_input \<Rightarrow> bool" where
  "create_account_dto_ok is_email d \<longleftrightarrow> is_email (ac_email d) \<and> 12 \<le> length (ac_password d) \<and>
     (ac_role d = ''operator'' \<or> ac_role d = ''viewer'')"

definition reset_password_dto_ok :: "string \<Rightarrow> bool" where
  "reset_password_dto_ok newPassword \<longleftrightarrow> 12 \<le> length newPassword"

record key_input =
  ki_apiKey :: "string option"
  ki_model :: string

definition openai_dto_ok :: "key_input \<Rightarrow> bool" where
  "openai_dto_ok d \<longleftrightarrow> (case ki_apiKey d of None \<Rightarrow> True | Some k \<Rightarrow> 20 \<le> length k \<and> length k \<le> 256) \<and>
     1 \<le> length (ki_model d) \<and> length (ki_model d) \<le> 100"

definition kimi_dto_ok :: "key_input \<Rightarrow> bool" where
  "kimi_dto_ok d \<longleftrightarrow> (case ki_apiKey d of None \<Rightarrow> True | Some k \<Rightarrow> 10 \<le> length k \<and> length k \<le> 512) \<and>
     1 \<le> length (ki_model d) \<and> length (ki_model d) \<le> 100"

definition provider_dto_ok :: "string \<Rightarrow> bool" where
  "provider_dto_ok provider \<longleftrightarrow> provider = ''codex'' \<or> provider = ''kimi''"

section \<open>Accounts\<close>

record account_view =
  av_id :: id
  av_email :: string
  av_name :: "string option"
  av_role :: string
  av_createdAt :: time

definition account_of :: "store \<Rightarrow> user_org \<Rightarrow> account_view list" where
  "account_of s m = (case (find_user s (uo_userId m), find_role s (uo_roleId m)) of
     (Some u, Some r) \<Rightarrow> [\<lparr>av_id = user_id u, av_email = user_email u, av_name = user_name u,
        av_role = role_name r, av_createdAt = user_createdAt u\<rparr>]
   | _ \<Rightarrow> [])"

text \<open>Rows are appended with the current time, so the table order is the order of \<open>createdAt\<close>.\<close>

definition get_accounts :: "store \<Rightarrow> id \<Rightarrow> account_view list" where
  "get_accounts s orgId = concat (map (account_of s) (filter (\<lambda>m. uo_orgId m = orgId) (t_userOrgs s)))"

definition create_account ::
  "auth_api \<Rightarrow> store \<Rightarrow> time \<Rightarrow> bytes \<Rightarrow> fresh_ids \<Rightarrow> id \<Rightarrow> account_input \<Rightarrow> (store \<times> account_view) result" where
  "create_account api s now rnd ids orgId input =
    (let email = js_lower (js_trim (ac_email input)) in
     if exists_where (\<lambda>u. user_email u = email) (t_users s)
     then Inl (ConflictException ''An account with this email already exists'')
     else
       let (s1, role) = resolve_role s (fi_role ids) (ac_role input);
           user = \<lparr>user_id = fi_user ids, user_email = email, user_name = trim_or_null (ac_name input),
             user_passwordHash = Some (make_password_hash (aa_scrypt api) rnd (ac_password input)),
             user_createdAt = now\<rparr>;
           member = \<lparr>uo_userId = fi_user ids, uo_orgId = orgId, uo_roleId = role_id role, uo_createdAt = now\<rparr>
       in Inr (s1\<lparr>t_users := t_users s1 @ [user], t_userOrgs := t_userOrgs s1 @ [member]\<rparr>,
               \<lparr>av_id = fi_user ids, av_email = email, av_name = user_name user,
                av_role = role_name role, av_createdAt = now\<rparr>))"

text \<open>
  Deleting an account: the checks read the membership, its role and the number of
  administrators; the transaction that follows works with what they read.  \<open>dc_memberships\<close>
  is the number of organisations of the user when it was read.
\<close>

record delete_check =
  dc_email :: string
  dc_memberships :: nat

definition delete_account_check :: "store \<Rightarrow> id \<Rightarrow> id \<Rightarrow> id \<Rightarrow> delete_check result" where
  "delete_account_check s orgId accountId actingUserId =
    (if accountId = actingUserId then Inl (ForbiddenException ''You cannot delete your own account'')
     else (case find_member s accountId orgId of
       None \<Rightarrow> Inl (NotFoundException ''Organization account not found'')
     | Some membership \<Rightarrow> (case (find_user s accountId, find_role s (uo_roleId membership)) of
         (Some user, Some role) \<Rightarrow>
           let adminCount = (case List.find (\<lambda>r. role_name r = ''admin'') (t_roles s) of
                 Some r \<Rightarrow> count_where (\<lambda>m. uo_orgId m = orgId \<and> uo_roleId m = role_id r) (t_userOrgs s)
               | None \<Rightarrow> 0)
           in if role_name role = ''admin'' \<and> adminCount \<le> 1
              then Inl (ConflictException ''The organization must keep at least one administrator'')
              else Inr \<lparr>dc_email = user_email user,
                    dc_memberships = count_where (\<lambda>m. uo_userId m = accountId) (t_userOrgs s)\<rparr>
       | _ \<Rightarrow> Inl (Error ''Inconsistent query result: required relation is null''))))"

definition delete_account_commit :: "store \<Rightarrow> id \<Rightarrow> id \<Rightarrow> delete_check \<Rightarrow> store result" where
  "delete_account_commit s orgId accountId c =
    (if find_member s accountId orgId = None
     then Inl (Error ''An operation failed because it depends on one or more records that were required but not found.'')
     else Inr (s\<lparr>
       t_userServerRoles := delete_where (\<lambda>r. usr_userId r = accountId \<and>
         exists_where (\<lambda>x. si_id x = usr_serverInstanceId r \<and> si_orgId x = orgId) (t_serverInstances s)) (t_userServerRoles s),
       t_userOrgs := delete_where (\<lambda>m. uo_userId m = accountId \<and> uo_orgId m = orgId) (t_userOrgs s),
       t_users := (if dc_memberships c = 1
         then update_where (\<lambda>u. user_id u = accountId) (\<lambda>u. u\<lparr>user_passwordHash := None\<rparr>) (t_users s)
         else t_users s)\<rparr>))"

record delete_answer =
  da_email :: string
  da_signInDisabled :: bool

definition delete_account :: "store \<Rightarrow> id \<Rightarrow> id \<Rightarrow> id \<Rightarrow> (store \<times> delete_answer) result" where
  "delete_account s orgId accountId actingUserId = (case delete_account_check s orgId accountId actingUserId of
     Inl e \<Rightarrow> Inl e
   | Inr c \<Rightarrow> (case delete_account_commit s orgId accountId c of
       Inl e \<Rightarrow> Inl e
     | Inr s' \<Rightarrow> Inr (s', \<lparr>da_email = dc_email c, da_signInDisabled = (dc_memberships c = 1)\<rparr>)))"

definition audit_org :: "id \<Rightarrow> id \<Rightarrow> string \<Rightarrow> string \<Rightarrow> id \<Rightarrow> (string \<times> json) list \<Rightarrow> store \<Rightarrow> store" where
  "audit_org orgId actorId action resourceType resourceId details = add_audit \<lparr>al_orgId = orgId, al_actorId = Some actorId,
     al_action = action, al_resourceType = resourceType, al_resourceId = resourceId, al_details = details, al_ip = None\<rparr>"

definition reset_account_password ::
  "auth_api \<Rightarrow> store \<Rightarrow> bytes \<Rightarrow> id \<Rightarrow> id \<Rightarrow> id \<Rightarrow> string \<Rightarrow> store result" where
  "reset_account_password api s rnd orgId accountId actingUserId newPassword =
    (if accountId = actingUserId
     then Inl (ForbiddenException ''Use your personal password settings to change your own password'')
     else if member_role s actingUserId orgId \<noteq> Some ''admin''
     then Inl (ForbiddenException ''Only organization administrators may reset passwords'')
     else (case member_role s accountId orgId of
       None \<Rightarrow> Inl (NotFoundException ''Organization account not found'')
     | Some role \<Rightarrow>
         if role = ''admin''
         then Inl (ForbiddenException ''Administrators may reset passwords only for lower-tier accounts'')
         else (case find_user s accountId of
             None \<Rightarrow> Inl (Error ''Inconsistent query result: required relation is null'')
           | Some user \<Rightarrow> Inr (audit_org orgId actingUserId ''password_reset'' ''user'' accountId
                 [(''targetEmail'', JStr (user_email user))]
                 (s\<lparr>t_users := update_where (\<lambda>u. user_id u = accountId)
                     (\<lambda>u. u\<lparr>user_passwordHash := Some (make_password_hash (aa_scrypt api) rnd newPassword)\<rparr>)
                     (t_users s)\<rparr>)))))"

section \<open>Organisations\<close>

record org_summary =
  os_id :: id
  os_name :: string
  os_slug :: string
  os_role :: string

text \<open>
  The slug is looked up as it was given and stored trimmed and in lower case; the column is
  unique, so \<open>create\<close> throws on a stored slug.
\<close>

definition create_org :: "store \<Rightarrow> time \<Rightarrow> fresh_ids \<Rightarrow> string \<Rightarrow> string \<Rightarrow> id \<Rightarrow> (store \<times> org_summary) result" where
  "create_org s now ids name slug userId =
    (if exists_where (\<lambda>x. org_slug x = slug) (t_orgs s)
     then Inl (ConflictException (''An org with slug \"'' @ slug @ ''\" already exists''))
     else
       let (s1, adminRole) = resolve_role s (fi_role ids) ''admin'';
           x = new_org (fi_org ids) (js_trim name) (js_lower (js_trim slug)) now;
           member = \<lparr>uo_userId = userId, uo_orgId = fi_org ids, uo_roleId = role_id adminRole, uo_createdAt = now\<rparr>
       in if exists_where (\<lambda>y. org_slug y = org_slug x) (t_orgs s1)
          then Inl (Error ''Unique constraint failed on the fields: (`slug`)'')
          else Inr (s1\<lparr>t_orgs := t_orgs s1 @ [x], t_userOrgs := t_userOrgs s1 @ [member]\<rparr>,
                    \<lparr>os_id = org_id x, os_name = org_name x, os_slug = org_slug x, os_role = ''admin''\<rparr>))"

text \<open>
  The view of an organisation: the columns of the row with the two encrypted keys replaced by
  whether they are set, the counts and the caller's role.  (The retention and the sampling
  interval of the record are not part of the answer.)
\<close>

record org_view =
  ov_org :: org
  ov_openaiConfigured :: bool
  ov_kimiConfigured :: bool
  ov_memberCount :: nat
  ov_hostCount :: nat
  ov_serverInstanceCount :: nat
  ov_role :: string

definition set_string :: "string option \<Rightarrow> bool" where
  "set_string v = (case v of None \<Rightarrow> False | Some x \<Rightarrow> x \<noteq> [])"

definition org_to_view :: "store \<Rightarrow> org \<Rightarrow> string \<Rightarrow> org_view" where
  "org_to_view s x role =
    \<lparr>ov_org = x\<lparr>org_openaiApiKeyEncrypted := None, org_kimiApiKeyEncrypted := None\<rparr>,
     ov_openaiConfigured = set_string (org_openaiApiKeyEncrypted x),
     ov_kimiConfigured = set_string (org_kimiApiKeyEncrypted x),
     ov_memberCount = count_where (\<lambda>m. uo_orgId m = org_id x) (t_userOrgs s),
     ov_hostCount = count_where (\<lambda>h. h_orgId h = org_id x) (t_hosts s),
     ov_serverInstanceCount = count_where (\<lambda>i. si_orgId i = org_id x) (t_serverInstances s),
     ov_role = role\<rparr>"

definition org_of_member :: "store \<Rightarrow> user_org \<Rightarrow> org_view list" where
  "org_of_member s m = (case (find_org s (uo_orgId m), find_role s (uo_roleId m)) of
     (Some x, Some r) \<Rightarrow> [org_to_view s x (role_name r)] | _ \<Rightarrow> [])"

definition get_org :: "store \<Rightarrow> id \<Rightarrow> id \<Rightarrow> org_view result" where
  "get_org s orgId userId = (case find_member s userId orgId of
     None \<Rightarrow> Inl (ForbiddenException ''Not a member of this org'')
   | Some m \<Rightarrow> (case org_of_member s m of
       [] \<Rightarrow> Inl (Error ''Inconsistent query result: required relation is null'') | v # _ \<Rightarrow> Inr v))"

definition get_user_orgs :: "store \<Rightarrow> id \<Rightarrow> org_view list" where
  "get_user_orgs s userId = concat (map (org_of_member s) (filter (\<lambda>m. uo_userId m = userId) (t_userOrgs s)))"

record org_updates =
  ou_discordWebhookUrl :: "string option"
  ou_frigateUrl :: "string option"
  ou_frigateApiKey :: "string option"
  ou_frigateWebhookSecret :: "string option"
  ou_avoidBloodMoonRestart :: "bool option"

definition set_or_null :: "string option \<Rightarrow> string option \<Rightarrow> string option" where
  "set_or_null update old = (case update of None \<Rightarrow> old | Some x \<Rightarrow> or_null x)"

definition apply_org_updates :: "org_updates \<Rightarrow> org \<Rightarrow> org" where
  "apply_org_updates u x = x\<lparr>
     org_discordWebhookUrl := set_or_null (ou_discordWebhookUrl u) (org_discordWebhookUrl x),
     org_frigateUrl := set_or_null (ou_frigateUrl u) (org_frigateUrl x),
     org_frigateApiKey := set_or_null (ou_frigateApiKey u) (org_frigateApiKey x),
     org_frigateWebhookSecret := set_or_null (ou_frigateWebhookSecret u) (org_frigateWebhookSecret x),
     org_avoidBloodMoonRestart := (case ou_avoidBloodMoonRestart u of None \<Rightarrow> org_avoidBloodMoonRestart x | Some b \<Rightarrow> b)\<rparr>"

definition update_org_row :: "id \<Rightarrow> (org \<Rightarrow> org) \<Rightarrow> store \<Rightarrow> store" where
  "update_org_row orgId f s = s\<lparr>t_orgs := update_where (\<lambda>x. org_id x = orgId) f (t_orgs s)\<rparr>"

definition update_org :: "store \<Rightarrow> id \<Rightarrow> id \<Rightarrow> org_updates \<Rightarrow> (store \<times> bool) result" where
  "update_org s orgId userId updates = (case find_member s userId orgId of
     None \<Rightarrow> Inl (ForbiddenException ''Not a member of this org'')
   | Some m \<Rightarrow>
       if ou_avoidBloodMoonRestart updates \<noteq> None \<and> map_option role_name (find_role s (uo_roleId m)) \<noteq> Some ''admin''
       then Inl (ForbiddenException ''Only organization administrators may change restart protection'')
       else (case find_org s orgId of
           None \<Rightarrow> Inl (Error ''An operation failed because it depends on one or more records that were required but not found.'')
         | Some x \<Rightarrow> Inr (update_org_row orgId (apply_org_updates updates) s,
                          org_avoidBloodMoonRestart (apply_org_updates updates x))))"

section \<open>Integrations\<close>

text \<open>
  What a request over the network comes to: a status with the raw body, or an exception with
  its name and message.  \<open>Response.ok\<close> is a status in the two hundreds.  A test takes the time
  before the request and the time after it.
\<close>

datatype 'a fetched = Answered nat 'a | Threw string string

definition status_ok :: "nat \<Rightarrow> bool" where
  "status_ok st \<longleftrightarrow> 200 \<le> st \<and> st \<le> 299"

type_synonym headers = "(string \<times> string) list"

type_synonym 'a fetch = "string \<Rightarrow> headers \<Rightarrow> json option \<Rightarrow> 'a fetched"

text \<open>\<open>data.error?.message || fallback\<close> of a parsed body; reading from \<open>null\<close> throws.\<close>

definition error_message :: "json \<Rightarrow> string \<Rightarrow> json" where
  "error_message data fallback =
    (let m = (case nullish_get data ''error'' of None \<Rightarrow> None | Some e \<Rightarrow> jget e ''message'')
     in case m of Some v \<Rightarrow> if truthy m then v else JStr fallback | None \<Rightarrow> JStr fallback)"

record frigate_answer =
  fg_ok :: bool
  fg_version :: "string option"
  fg_error :: "string option"

definition frigate_failed :: "string \<Rightarrow> frigate_answer" where
  "frigate_failed msg = \<lparr>fg_ok = False, fg_version = None, fg_error = Some msg\<rparr>"

text \<open>A body that is no JSON counts as an empty object.\<close>

definition test_frigate_connection ::
  "json option fetch \<Rightarrow> store \<Rightarrow> id \<Rightarrow> id \<Rightarrow> frigate_answer result" where
  "test_frigate_connection fetch s orgId userId = (case find_member s userId orgId of
     None \<Rightarrow> Inl (ForbiddenException ''Not a member of this org'')
   | Some m \<Rightarrow> (case find_org s orgId of
       None \<Rightarrow> Inl (Error ''Inconsistent query result: required relation is null'')
     | Some x \<Rightarrow> (case trim_or_null (org_frigateUrl x) of
         None \<Rightarrow> Inr (frigate_failed ''No Frigate URL configured for this org'')
       | Some frigateUrl \<Rightarrow>
           let headers = (''Accept'', ''application/json'') #
                 (case non_empty (org_frigateApiKey x) of None \<Rightarrow> [] | Some k \<Rightarrow> [(''Authorization'', ''Bearer '' @ k)])
           in Inr (case fetch (frigateUrl @ ''/api/version'') headers None of
               Threw name msg \<Rightarrow> frigate_failed msg
             | Answered st body \<Rightarrow>
                 if \<not> status_ok st then frigate_failed (''Frigate returned HTTP '' @ nat_string st)
                 else (case body of
                     Some JNull \<Rightarrow> frigate_failed ''Cannot read properties of null (reading 'version')''
                   | _ \<Rightarrow> (let b = (case body of None \<Rightarrow> JObj [] | Some j \<Rightarrow> j) in
                       \<lparr>fg_ok = True, fg_version = Some (case nullish_get b ''version'' of Some v \<Rightarrow> js_string v
                          | None \<Rightarrow> js_prop_string b ''Version'' ''unknown''), fg_error = None\<rparr>))))))"

text \<open>The two model providers differ in the columns, the model names, the texts and the request.\<close>

record provider_kind =
  pk_key :: "org \<Rightarrow> string option"
  pk_model :: "org \<Rightarrow> string"
  pk_set :: "string option \<Rightarrow> string \<Rightarrow> org \<Rightarrow> org"
  pk_model_char :: "char \<Rightarrow> bool"
  pk_key_required :: string
  pk_bad_model :: string
  pk_action :: string
  pk_not_configured :: string
  pk_url :: string
  pk_test_body :: "string \<Rightarrow> json"
  pk_returned :: string
  pk_timeout :: string

definition model_char :: "char \<Rightarrow> bool" where
  "model_char c \<longleftrightarrow> (let n = of_char c :: nat in 48 \<le> n \<and> n \<le> 57 \<or> 65 \<le> n \<and> n \<le> 90 \<or> 97 \<le> n \<and> n \<le> 122 \<or>
     c \<in> set ''._-'')"

definition openai_kind :: provider_kind where
  "openai_kind = \<lparr>pk_key = org_openaiApiKeyEncrypted, pk_model = org_openaiModel,
     pk_set = (\<lambda>k m x. x\<lparr>org_openaiModel := m, org_openaiApiKeyEncrypted := or_else k (org_openaiApiKeyEncrypted x)\<rparr>),
     pk_model_char = model_char,
     pk_key_required = ''OpenAI API key is required'', pk_bad_model = ''Invalid OpenAI model name'',
     pk_action = ''openai_settings_updated'', pk_not_configured = ''OpenAI API key is not configured'',
     pk_url = ''https://api.openai.com/v1/responses'',
     pk_test_body = (\<lambda>m. JObj [(''model'', JStr m), (''input'', JStr ''Reply with OK.''), (''max_output_tokens'', JNum 16)]),
     pk_returned = ''OpenAI returned HTTP '',
     pk_timeout = ''OpenAI did not respond within 30 seconds. Check DNS, firewall, proxy, or try again.''\<rparr>"

definition kimi_kind :: provider_kind where
  "kimi_kind = \<lparr>pk_key = org_kimiApiKeyEncrypted, pk_model = org_kimiModel,
     pk_set = (\<lambda>k m x. x\<lparr>org_kimiModel := m, org_kimiApiKeyEncrypted := or_else k (org_kimiApiKeyEncrypted x)\<rparr>),
     pk_model_char = (\<lambda>c. c = CHR ''/'' \<or> model_char c),
     pk_key_required = ''Moonshot API key is required'', pk_bad_model = ''Invalid Kimi model name'',
     pk_action = ''kimi_settings_updated'', pk_not_configured = ''Moonshot API key is not configured'',
     pk_url = ''https://api.moonshot.ai/v1/chat/completions'',
     pk_test_body = (\<lambda>m. JObj [(''model'', JStr m),
       (''messages'', JArr [JObj [(''role'', JStr ''user''), (''content'', JStr ''Reply with OK.'')]]),
       (''max_tokens'', JNum 16), (''temperature'', JNum 0)]),
     pk_returned = ''Moonshot returned HTTP '',
     pk_timeout = ''Kimi did not respond within 30 seconds. Check the model, key, DNS, firewall, or try again.''\<rparr>"

text \<open>\<open>/^[a-zA-Z0-9._-]+$/\<close>, with the slash for Kimi.\<close>

definition model_name_ok :: "provider_kind \<Rightarrow> string \<Rightarrow> bool" where
  "model_name_ok p model \<longleftrightarrow> model \<noteq> [] \<and> list_all (pk_model_char p) model"

definition save_provider_settings ::
  "provider_kind \<Rightarrow> aead \<Rightarrow> key_env \<Rightarrow> bytes \<Rightarrow> store \<Rightarrow> id \<Rightarrow> id \<Rightarrow> key_input \<Rightarrow> (store \<times> string) result" where
  "save_provider_settings p api env iv s orgId userId input = (case find_org s orgId of
     None \<Rightarrow> Inl (NotFoundException ''Organization not found'')
   | Some existing \<Rightarrow>
       if non_empty (ki_apiKey input) = None \<and> \<not> set_string (pk_key p existing)
       then Inl (ConflictException (pk_key_required p))
       else
         let model = js_trim (ki_model input);
             newKey = map_option (\<lambda>k. encrypt_openai_key api env iv (js_trim k)) (non_empty (ki_apiKey input))
         in if \<not> model_name_ok p model then Inl (ConflictException (pk_bad_model p))
            else Inr (audit_org orgId userId (pk_action p) ''org'' orgId
                        [(''model'', JStr model), (''keyReplaced'', JBool (newKey \<noteq> None))]
                        (update_org_row orgId (pk_set p newKey model) s), model))"

definition save_openai_settings where
  "save_openai_settings = save_provider_settings openai_kind"

definition save_kimi_settings where
  "save_kimi_settings = save_provider_settings kimi_kind"

record provider_test =
  pt_ok :: bool
  pt_model :: "string option"
  pt_error :: "json option"
  pt_latencyMs :: "int option"

definition test_provider ::
  "provider_kind \<Rightarrow> json option fetch \<Rightarrow> aead \<Rightarrow> key_env \<Rightarrow> time \<Rightarrow> time \<Rightarrow> store \<Rightarrow> id \<Rightarrow> provider_test" where
  "test_provider p fetch api env started now s orgId =
    (let failed = (\<lambda>msg. \<lparr>pt_ok = False, pt_model = None, pt_error = Some msg, pt_latencyMs = Some (now - started)\<rparr>) in
     case find_org s orgId of
       None \<Rightarrow> \<lparr>pt_ok = False, pt_model = None, pt_error = Some (JStr (pk_not_configured p)), pt_latencyMs = None\<rparr>
     | Some x \<Rightarrow> (case non_empty (pk_key p x) of
         None \<Rightarrow> \<lparr>pt_ok = False, pt_model = None, pt_error = Some (JStr (pk_not_configured p)), pt_latencyMs = None\<rparr>
       | Some encrypted \<Rightarrow> (case decrypt_openai_key api env encrypted of
           Inl (Error msg) \<Rightarrow> failed (JStr msg)
         | Inl e \<Rightarrow> failed (JStr [])
         | Inr key \<Rightarrow> (case fetch (pk_url p) [(''Authorization'', ''Bearer '' @ key), (''Content-Type'', ''application/json''),
               (''User-Agent'', ''Mastermind-7DTD/0.0.11'')] (Some (pk_test_body p (pk_model p x))) of
             Threw name msg \<Rightarrow> failed (JStr (if name = ''TimeoutError'' \<or> name = ''AbortError'' then pk_timeout p else msg))
           | Answered st body \<Rightarrow>
               if status_ok st
               then \<lparr>pt_ok = True, pt_model = Some (pk_model p x), pt_error = None, pt_latencyMs = Some (now - started)\<rparr>
               else (case body of
                   Some JNull \<Rightarrow> failed (JStr ''Cannot read properties of null (reading 'error')'')
                 | _ \<Rightarrow> failed (error_message (case body of None \<Rightarrow> JObj [] | Some j \<Rightarrow> j)
                          (pk_returned p @ nat_string st)))))))"

definition test_openai where
  "test_openai = test_provider openai_kind"

definition test_kimi where
  "test_kimi = test_provider kimi_kind"

definition clear_openai_settings :: "store \<Rightarrow> id \<Rightarrow> store result" where
  "clear_openai_settings s orgId = (if find_org s orgId = None
     then Inl (Error ''An operation failed because it depends on one or more records that were required but not found.'')
     else Inr (update_org_row orgId (\<lambda>x. x\<lparr>org_openaiApiKeyEncrypted := None\<rparr>) s))"

definition clear_kimi_settings :: "store \<Rightarrow> id \<Rightarrow> store result" where
  "clear_kimi_settings s orgId = (if find_org s orgId = None
     then Inl (Error ''An operation failed because it depends on one or more records that were required but not found.'')
     else Inr (update_org_row orgId (\<lambda>x. x\<lparr>org_kimiApiKeyEncrypted := None, org_modAiProvider := ''codex''\<rparr>) s))"

definition select_mod_ai_provider :: "store \<Rightarrow> id \<Rightarrow> id \<Rightarrow> string \<Rightarrow> store result" where
  "select_mod_ai_provider s orgId userId provider = (case find_org s orgId of
     None \<Rightarrow> Inl (NotFoundException ''Organization not found'')
   | Some x \<Rightarrow>
       if provider = ''codex'' \<and> \<not> set_string (org_openaiApiKeyEncrypted x)
       then Inl (ConflictException ''Configure an OpenAI API key before selecting Codex'')
       else if provider = ''kimi'' \<and> \<not> set_string (org_kimiApiKeyEncrypted x)
       then Inl (ConflictException ''Configure a Moonshot API key before selecting Kimi Code'')
       else Inr (audit_org orgId userId ''mod_ai_provider_selected'' ''org'' orgId [(''provider'', JStr provider)]
                   (update_org_row orgId (\<lambda>x. x\<lparr>org_modAiProvider := provider\<rparr>) s)))"

end
