(* ===== verification/Accounts.thy ===== *)
theory Accounts
  imports Orgs
begin

text \<open>
  The accounts of all organisations together: which operations change users, roles and
  memberships, the invariant that an organisation with members has an administrator, what
  two concurrent deletions do to it, and how far a password reset reaches.
\<close>

section \<open>The invariant\<close>

definition is_admin :: "store \<Rightarrow> user_org \<Rightarrow> bool" where
  "is_admin s m \<longleftrightarrow> map_option role_name (find_role s (uo_roleId m)) = Some ''admin''"

definition org_has_admin :: "store \<Rightarrow> id \<Rightarrow> bool" where
  "org_has_admin s oid \<longleftrightarrow> (\<exists>m \<in> set (t_userOrgs s). uo_orgId m = oid \<and> is_admin s m)"

text \<open>The unique columns, the foreign key of the role, and an administrator for every organisation with members.\<close>

definition accounts_inv :: "store \<Rightarrow> bool" where
  "accounts_inv s \<longleftrightarrow> distinct (map role_id (t_roles s)) \<and> distinct (map role_name (t_roles s)) \<and>
     distinct (map user_id (t_users s)) \<and> distinct (map user_email (t_users s)) \<and>
     distinct (map (\<lambda>m. (uo_userId m, uo_orgId m)) (t_userOrgs s)) \<and>
     (\<forall>m \<in> set (t_userOrgs s). uo_userId m \<in> user_id ` set (t_users s)) \<and>
     (\<forall>m \<in> set (t_userOrgs s). org_has_admin s (uo_orgId m))"

definition fresh_account :: "store \<Rightarrow> fresh_ids \<Rightarrow> bool" where
  "fresh_account s ids \<longleftrightarrow> fi_user ids \<notin> user_id ` set (t_users s) \<and> fi_role ids \<notin> role_id ` set (t_roles s) \<and>
     fi_org ids \<notin> uo_orgId ` set (t_userOrgs s)"

lemma accounts_inv_cong:
  "t_roles s' = t_roles s \<Longrightarrow> map user_id (t_users s') = map user_id (t_users s) \<Longrightarrow>
   map user_email (t_users s') = map user_email (t_users s) \<Longrightarrow> t_userOrgs s' = t_userOrgs s \<Longrightarrow>
   accounts_inv s' \<longleftrightarrow> accounts_inv s"
proof -
  assume a: "t_roles s' = t_roles s" "map user_id (t_users s') = map user_id (t_users s)"
    "map user_email (t_users s') = map user_email (t_users s)" "t_userOrgs s' = t_userOrgs s"
  have "user_id ` set (t_users s') = user_id ` set (t_users s)"
    using a(2) by (metis list.set_map)
  with a show ?thesis
    by (simp add: accounts_inv_def org_has_admin_def is_admin_def find_role_def)
qed

text \<open>The role rows only grow, so a membership's role stays what it was.\<close>

lemma resolve_role_keeps:
  "find_role s i = Some r \<Longrightarrow> find_role (fst (resolve_role s new name)) i = Some r"
  by (auto simp: resolve_role_def find_role_def find_append Let_def split: option.splits)

lemma resolve_role_distinct:
  assumes "distinct (map role_id (t_roles s))" and "distinct (map role_name (t_roles s))"
    and "new \<notin> role_id ` set (t_roles s)"
  shows "distinct (map role_id (t_roles (fst (resolve_role s new name))))"
    and "distinct (map role_name (t_roles (fst (resolve_role s new name))))"
  using assms by (auto simp: resolve_role_def Let_def find_None_iff' split: option.splits)

text \<open>
  One membership more, of a new user or in a new organisation: the invariant is kept when it is an
  administrator's or the organisation has one.
\<close>

lemma accounts_inv_join:
  assumes inv: "accounts_inv s"
    and roles: "\<And>i r. find_role s i = Some r \<Longrightarrow> find_role s' i = Some r"
      "distinct (map role_id (t_roles s'))" "distinct (map role_name (t_roles s'))"
    and users: "distinct (map user_id (t_users s'))" "distinct (map user_email (t_users s'))"
      "user_id ` set (t_users s) \<subseteq> user_id ` set (t_users s')"
    and member: "t_userOrgs s' = t_userOrgs s @ [m]" "uo_userId m \<in> user_id ` set (t_users s')"
      "\<And>x. x \<in> set (t_userOrgs s) \<Longrightarrow> uo_userId x = uo_userId m \<Longrightarrow> uo_orgId x \<noteq> uo_orgId m"
    and admin: "is_admin s' m \<or> org_has_admin s (uo_orgId m)"
  shows "accounts_inv s'"
proof -
  have keep: "org_has_admin s' oid" if has: "org_has_admin s oid" for oid
  proof -
    from has obtain x where "x \<in> set (t_userOrgs s)" "uo_orgId x = oid" "is_admin s x"
      by (auto simp: org_has_admin_def)
    moreover from this roles(1) have "is_admin s' x" by (auto simp: is_admin_def)
    ultimately show ?thesis by (auto simp: org_has_admin_def member(1))
  qed
  have "org_has_admin s' (uo_orgId m)"
    using admin keep by (auto simp: org_has_admin_def member(1))
  moreover have "(uo_userId m, uo_orgId m) \<notin> (\<lambda>m. (uo_userId m, uo_orgId m)) ` set (t_userOrgs s)"
  proof
    assume "(uo_userId m, uo_orgId m) \<in> (\<lambda>m. (uo_userId m, uo_orgId m)) ` set (t_userOrgs s)"
    then obtain x where "x \<in> set (t_userOrgs s)" "uo_userId x = uo_userId m" "uo_orgId x = uo_orgId m" by auto
    with member(3) show False by blast
  qed
  moreover have "\<forall>x \<in> set (t_userOrgs s). uo_userId x \<in> user_id ` set (t_users s')"
    using inv users(3) by (auto simp: accounts_inv_def)
  moreover have "\<forall>x \<in> set (t_userOrgs s). org_has_admin s' (uo_orgId x)"
    using inv keep by (auto simp: accounts_inv_def)
  ultimately show ?thesis
    using inv roles(2,3) users(1,2) member(1,2) by (simp add: accounts_inv_def)
qed

section \<open>The operations\<close>

inductive account_step :: "auth_api \<Rightarrow> store \<Rightarrow> store \<Rightarrow> bool" for api where
  registers: "register api s now rnd ids email pw name orgId = Inr (s', r) \<Longrightarrow> fresh_account s ids \<Longrightarrow> account_step api s s'"
| logs_in: "login api s now oid email pw = Inr (s', r) \<Longrightarrow> account_step api s s'"
| changes_password: "change_password api s rnd uid old new = Inr s' \<Longrightarrow> account_step api s s'"
| creates_account: "member_role s actor oid = Some ''admin'' \<Longrightarrow> create_account api s now rnd ids oid d = Inr (s', v) \<Longrightarrow>
    fresh_account s ids \<Longrightarrow> account_step api s s'"
| deletes_account: "delete_account s oid aid actor = Inr (s', a) \<Longrightarrow> account_step api s s'"
| resets_password: "reset_account_password api s rnd oid aid actor new = Inr s' \<Longrightarrow> account_step api s s'"
| creates_org: "create_org s now ids name slug uid = Inr (s', v) \<Longrightarrow> find_user s uid \<noteq> None \<Longrightarrow>
    fresh_account s ids \<Longrightarrow> account_step api s s'"
| updates_org: "update_org s oid uid u = Inr (s', b) \<Longrightarrow> account_step api s s'"
| saves_key: "save_provider_settings p ae env iv s oid uid inp = Inr (s', m) \<Longrightarrow> account_step api s s'"
| selects_provider: "select_mod_ai_provider s oid uid p = Inr s' \<Longrightarrow> account_step api s s'"

inductive account_reach :: "auth_api \<Rightarrow> store \<Rightarrow> store \<Rightarrow> bool" for api s0 where
  start: "account_reach api s0 s0"
| step: "account_reach api s0 s \<Longrightarrow> account_step api s s' \<Longrightarrow> account_reach api s0 s'"

lemma create_org_inv:
  assumes "create_org s now ids name slug uid = Inr (s', v)" and inv: "accounts_inv s" "fresh_account s ids"
    and uid: "find_user s uid \<noteq> None"
  shows "accounts_inv s'"
proof -
  define r where "r = resolve_role s (fi_role ids) ''admin''"
  have tables: "t_users (fst r) = t_users s" "t_userOrgs (fst r) = t_userOrgs s" by (simp_all add: r_def)
  have found: "find_role (fst r) (role_id (snd r)) = Some (snd r) \<and> role_name (snd r) = ''admin''"
    unfolding r_def using inv by (intro resolve_role_found) (auto simp: accounts_inv_def fresh_account_def)
  have fr: "find_role (x\<lparr>t_orgs := u, t_userOrgs := m\<rparr>) i = find_role x i" for x :: store and u m i
    by (simp add: find_role_def)
  from assms(1) obtain x where s': "s' = (fst r)\<lparr>t_orgs := t_orgs (fst r) @ [x], t_userOrgs := t_userOrgs s @
      [\<lparr>uo_userId = uid, uo_orgId = fi_org ids, uo_roleId = role_id (snd r), uo_createdAt = now\<rparr>]\<rparr>"
    by (auto simp: create_org_def r_def [symmetric] tables split_beta Let_def split: if_splits)
  have "uid \<in> user_id ` set (t_users s)"
    using uid by (auto simp: find_user_def dest: find_SomeD)
  moreover have "uo_orgId x \<noteq> fi_org ids" if "x \<in> set (t_userOrgs s)" for x
    using inv(2) that unfolding fresh_account_def by (metis image_eqI)
  ultimately show ?thesis
    using inv found
    by (intro accounts_inv_join [OF inv(1), where m = "\<lparr>uo_userId = uid, uo_orgId = fi_org ids, uo_roleId = role_id (snd r), uo_createdAt = now\<rparr>"])
      (auto simp: s' tables fr is_admin_def r_def resolve_role_keeps resolve_role_distinct accounts_inv_def fresh_account_def)
qed

lemma create_account_inv:
  assumes "create_account api s now rnd ids oid d = Inr (s', v)" and inv: "accounts_inv s" "fresh_account s ids"
    and admin: "member_role s actor oid = Some ''admin''"
  shows "accounts_inv s'"
proof -
  define r where "r = resolve_role s (fi_role ids) (ac_role d)"
  have tables: "t_users (fst r) = t_users s" "t_userOrgs (fst r) = t_userOrgs s" by (simp_all add: r_def)
  have fr: "find_role (x\<lparr>t_users := u, t_userOrgs := m\<rparr>) i = find_role x i" for x :: store and u m i
    by (simp add: find_role_def)
  let ?m = "\<lparr>uo_userId = fi_user ids, uo_orgId = oid, uo_roleId = role_id (snd r), uo_createdAt = now\<rparr>"
  define u where "u = \<lparr>user_id = fi_user ids, user_email = js_lower (js_trim (ac_email d)), user_name = trim_or_null (ac_name d),
    user_passwordHash = Some (make_password_hash (aa_scrypt api) rnd (ac_password d)), user_createdAt = now\<rparr>"
  from assms(1) have s': "s' = (fst r)\<lparr>t_users := t_users s @ [u], t_userOrgs := t_userOrgs s @ [?m]\<rparr>"
      and u: "user_id u = fi_user ids" "user_email u \<notin> user_email ` set (t_users s)"
    by (auto simp: create_account_def r_def [symmetric] u_def tables split_beta Let_def exists_where_iff split: if_splits)
  have new: "uo_userId x \<noteq> fi_user ids" if "x \<in> set (t_userOrgs s)" for x
    using inv that unfolding fresh_account_def accounts_inv_def by metis
  from admin have "org_has_admin s oid"
    by (auto simp: member_role_def org_has_admin_def is_admin_def split: option.splits dest!: find_member_SomeD)
  then show ?thesis
    using inv u new
    by (intro accounts_inv_join [OF inv(1), where m = ?m])
      (auto simp: s' tables fr r_def resolve_role_keeps resolve_role_distinct accounts_inv_def fresh_account_def)
qed

lemma accounts_inv_admin:
  "accounts_inv s \<Longrightarrow> x \<in> set (t_userOrgs s) \<Longrightarrow> \<exists>y \<in> set (t_userOrgs s). uo_orgId y = uo_orgId x \<and> is_admin s y"
  by (simp add: accounts_inv_def org_has_admin_def)

lemma resolve_role_cong:
  "t_roles s' = t_roles s \<Longrightarrow> t_roles (fst (resolve_role s' new name)) = t_roles (fst (resolve_role s new name))"
  by (simp add: resolve_role_def Let_def split: option.splits)

lemma register_roles:
  assumes "register api s now rnd ids email pw name orgId = Inr (s', resp)"
  shows "\<exists>rn. t_roles s' = t_roles (fst (resolve_role s (fi_role ids) rn))"
proof -
  define p where "p = (case orgId of Some i \<Rightarrow> (s, i)
     | None \<Rightarrow> (fst (get_or_create_default_org s now (fi_org ids)),
                org_id (snd (get_or_create_default_org s now (fi_org ids)))))"
  have "t_roles (fst p) = t_roles s" by (auto simp: p_def split: option.splits)
  note resolve_role_cong [OF this]
  moreover from assms have "\<exists>rn. t_roles s' = t_roles (fst (resolve_role (fst p) (fi_role ids) rn))"
    by (auto simp: register_def Let_def p_def split_beta split: option.splits if_splits)
  ultimately show ?thesis by auto
qed

lemma register_inv:
  assumes reg: "register api s now rnd ids email pw name orgId = Inr (s', resp)"
    and inv: "accounts_inv s" "fresh_account s ids"
  shows "accounts_inv s'"
proof -
  from register_roles [OF reg] obtain rn where rn: "t_roles s' = t_roles (fst (resolve_role s (fi_role ids) rn))" by blast
  have roles: "find_role s' i = Some r" if "find_role s i = Some r" for i r
    using resolve_role_keeps [OF that, of "fi_role ids" rn] by (simp add: find_role_def rn)
  from register_effect [OF reg] obtain rid nm where
    users: "t_users s' = t_users s @ [\<lparr>user_id = fi_user ids, user_email = email, user_name = nm,
        user_passwordHash = Some (make_password_hash (aa_scrypt api) rnd pw), user_createdAt = now\<rparr>]"
    and member: "t_userOrgs s' = t_userOrgs s @ [\<lparr>uo_userId = fi_user ids, uo_orgId = as_orgId resp,
        uo_roleId = rid, uo_createdAt = now\<rparr>]"
    and email: "\<not> exists_where (\<lambda>u. user_email u = email) (t_users s)"
    and role: "distinct (map role_id (t_roles s)) \<longrightarrow> fi_role ids \<notin> role_id ` set (t_roles s) \<longrightarrow>
        map_option role_name (find_role s' rid) =
          Some (if count_where (\<lambda>m. uo_orgId m = as_orgId resp) (t_userOrgs s) = 0 then ''admin'' else ''operator'')"
    by blast
  have new: "uo_userId x \<noteq> fi_user ids" if "x \<in> set (t_userOrgs s)" for x
    using inv that unfolding fresh_account_def accounts_inv_def by metis
  have "is_admin s' \<lparr>uo_userId = fi_user ids, uo_orgId = as_orgId resp, uo_roleId = rid, uo_createdAt = now\<rparr> \<or>
      org_has_admin s (as_orgId resp)"
  proof (cases "count_where (\<lambda>m. uo_orgId m = as_orgId resp) (t_userOrgs s) = 0")
    case True
    with role inv show ?thesis by (simp add: is_admin_def accounts_inv_def fresh_account_def)
  next
    case False
    then obtain x where "x \<in> set (t_userOrgs s)" "uo_orgId x = as_orgId resp"
      by (auto simp: count_where_def filter_empty_conv)
    with inv(1) show ?thesis by (auto simp: accounts_inv_def)
  qed
  then show ?thesis
    using inv email new roles
    by (intro accounts_inv_join [OF inv(1) _ _ _ _ _ _ member])
      (auto simp: users rn resolve_role_distinct accounts_inv_def fresh_account_def exists_where_iff)
qed

text \<open>What a deletion that goes through has read, and what it leaves.\<close>

lemma delete_account_InrD:
  assumes "delete_account s oid aid actor = Inr (s', a)"
  shows "\<exists>m r. aid \<noteq> actor \<and> find_member s aid oid = Some m \<and> find_role s (uo_roleId m) = Some r \<and>
    (role_name r = ''admin'' \<longrightarrow> (\<exists>ar. List.find (\<lambda>r. role_name r = ''admin'') (t_roles s) = Some ar \<and>
       1 < count_where (\<lambda>m. uo_orgId m = oid \<and> uo_roleId m = role_id ar) (t_userOrgs s))) \<and>
    t_roles s' = t_roles s \<and> map user_id (t_users s') = map user_id (t_users s) \<and>
    map user_email (t_users s') = map user_email (t_users s) \<and>
    t_userOrgs s' = delete_where (\<lambda>m. uo_userId m = aid \<and> uo_orgId m = oid) (t_userOrgs s)"
proof -
  from assms obtain c where c: "delete_account_check s oid aid actor = Inr c"
    and s': "delete_account_commit s oid aid c = Inr s'"
    by (auto simp: delete_account_def split: sum.splits)
  from c obtain m r where m: "aid \<noteq> actor" "find_member s aid oid = Some m" "find_role s (uo_roleId m) = Some r"
    "role_name r = ''admin'' \<longrightarrow> (\<exists>ar. List.find (\<lambda>r. role_name r = ''admin'') (t_roles s) = Some ar \<and>
       1 < count_where (\<lambda>m. uo_orgId m = oid \<and> uo_roleId m = role_id ar) (t_userOrgs s))"
    by (fastforce simp: delete_account_check_def Let_def split: if_splits option.splits)
  moreover from s' have "t_roles s' = t_roles s \<and> map user_id (t_users s') = map user_id (t_users s) \<and>
    map user_email (t_users s') = map user_email (t_users s) \<and>
    t_userOrgs s' = delete_where (\<lambda>m. uo_userId m = aid \<and> uo_orgId m = oid) (t_userOrgs s)"
    by (auto simp: delete_account_commit_def map_update_where split: if_splits)
  ultimately show ?thesis by blast
qed

lemma delete_account_inv:
  assumes del: "delete_account s oid aid actor = Inr (s', a)" and inv: "accounts_inv s"
  shows "accounts_inv s'"
proof -
  from delete_account_InrD [OF del] obtain m r where
    m: "find_member s aid oid = Some m" "find_role s (uo_roleId m) = Some r"
    and count: "role_name r = ''admin'' \<longrightarrow> (\<exists>ar. List.find (\<lambda>r. role_name r = ''admin'') (t_roles s) = Some ar \<and>
       1 < count_where (\<lambda>m. uo_orgId m = oid \<and> uo_roleId m = role_id ar) (t_userOrgs s))"
    and same: "t_roles s' = t_roles s" "map user_id (t_users s') = map user_id (t_users s)"
      "map user_email (t_users s') = map user_email (t_users s)"
    and members: "t_userOrgs s' = delete_where (\<lambda>m. uo_userId m = aid \<and> uo_orgId m = oid) (t_userOrgs s)"
    by blast
  let ?key = "\<lambda>m. (uo_userId m, uo_orgId m)"
  have keys: "distinct (map ?key (t_userOrgs s))" using inv by (simp add: accounts_inv_def)
  have admin: "is_admin s' x \<longleftrightarrow> is_admin s x" for x
    by (simp add: is_admin_def find_role_def same)
  have left: "\<exists>y \<in> set (t_userOrgs s). uo_orgId y = oid \<and> is_admin s y \<and> uo_userId y \<noteq> aid"
    if x: "x \<in> set (t_userOrgs s)" "uo_orgId x = oid" for x
  proof (cases "role_name r = ''admin''")
    case True
    with count obtain ar where ar: "List.find (\<lambda>r. role_name r = ''admin'') (t_roles s) = Some ar"
      and two: "1 < count_where (\<lambda>m. uo_orgId m = oid \<and> uo_roleId m = role_id ar) (t_userOrgs s)" by blast
    from count_where_two [OF keys two, of "(aid, oid)"] obtain y where
      y: "y \<in> set (t_userOrgs s)" "uo_orgId y = oid" "uo_roleId y = role_id ar" "uo_userId y \<noteq> aid" by auto
    have "find_role s (role_id ar) = Some ar"
      using inv find_SomeD [OF ar] unfolding find_role_def accounts_inv_def by (intro find_key_distinct) auto
    with y find_SomeD [OF ar] show ?thesis by (auto simp: is_admin_def)
  next
    case False
    from accounts_inv_admin [OF inv x(1)] x(2) obtain y where
      y: "y \<in> set (t_userOrgs s)" "uo_orgId y = oid" "is_admin s y" by auto
    have "uo_userId y \<noteq> aid"
    proof
      assume "uo_userId y = aid"
      with y find_member_SomeD [OF m(1)] have "?key y = ?key m" "m \<in> set (t_userOrgs s)" by auto
      with keys y(1) have "y = m" unfolding distinct_map inj_on_def by blast
      with y(3) m(2) False show False by (simp add: is_admin_def)
    qed
    with y show ?thesis by blast
  qed
  have users: "user_id ` set (t_users s') = user_id ` set (t_users s)"
    using same(2) by (metis list.set_map)
  have "org_has_admin s' (uo_orgId x)" if x: "x \<in> set (t_userOrgs s')" for x
  proof (cases "uo_orgId x = oid")
    case True
    with x left [of x] show ?thesis by (auto simp: org_has_admin_def members set_delete_where admin)
  next
    case False
    from x have "x \<in> set (t_userOrgs s)" by (simp add: members set_delete_where)
    from accounts_inv_admin [OF inv this] obtain y where
      "y \<in> set (t_userOrgs s)" "uo_orgId y = uo_orgId x" "is_admin s y" by blast
    with False show ?thesis by (auto simp: org_has_admin_def members set_delete_where admin)
  qed
  then show ?thesis
    using inv same users by (auto simp: accounts_inv_def members set_delete_where distinct_delete_where)
qed

lemma account_step_inv:
  assumes "account_step api s s'" and "accounts_inv s"
  shows "accounts_inv s'"
  using assms
proof (cases rule: account_step.cases)
  case (logs_in now oid email pw r)
  then show ?thesis
    using assms(2) by (subst accounts_inv_cong [of s' s]) (auto simp: login_def Let_def split_beta split: option.splits if_splits)
next
  case (changes_password rnd uid old new)
  then show ?thesis
    using assms(2) by (subst accounts_inv_cong [of s' s])
      (auto simp: change_password_def map_update_where split: option.splits if_splits)
next
  case (resets_password rnd oid aid actor new)
  then show ?thesis
    using assms(2) by (subst accounts_inv_cong [of s' s])
      (auto simp: reset_account_password_def audit_org_def add_audit_def map_update_where split: option.splits if_splits)
next
  case (updates_org oid uid u b)
  then show ?thesis
    using assms(2) by (subst accounts_inv_cong [of s' s])
      (auto simp: update_org_def update_org_row_def split: option.splits if_splits)
next
  case (saves_key p ae env iv oid uid inp m)
  then show ?thesis
    using assms(2) by (subst accounts_inv_cong [of s' s])
      (auto simp: save_provider_settings_def update_org_row_def audit_org_def add_audit_def Let_def split: option.splits if_splits)
next
  case (selects_provider oid uid p)
  then show ?thesis
    using assms(2) by (subst accounts_inv_cong [of s' s])
      (auto simp: select_mod_ai_provider_def update_org_row_def audit_org_def add_audit_def split: option.splits if_splits)
qed (auto intro: register_inv create_account_inv delete_account_inv create_org_inv)

lemma account_reach_inv: "account_reach api s0 s \<Longrightarrow> accounts_inv s0 \<Longrightarrow> accounts_inv s"
  by (induction rule: account_reach.induct) (auto intro: account_step_inv)

section \<open>Deletions that overlap, and password resets\<close>

lemma find_member_key:
  assumes "accounts_inv s" and "m \<in> set (t_userOrgs s)"
  shows "find_member s (uo_userId m) (uo_orgId m) = Some m"
proof -
  have "List.find (\<lambda>x. (uo_userId x, uo_orgId x) = (uo_userId m, uo_orgId m)) (t_userOrgs s) = Some m"
    using assms by (intro find_key_distinct) (simp_all add: accounts_inv_def)
  then show ?thesis by (simp add: find_member_def)
qed

text \<open>The check lets an administrator's deletion through when there is another administrator.\<close>

lemma delete_account_check_admin:
  assumes inv: "accounts_inv s" and m: "m \<in> set (t_userOrgs s)" "n \<in> set (t_userOrgs s)" "m \<noteq> n"
    and org: "uo_orgId m = oid" "uo_orgId n = oid" and admin: "is_admin s m" "is_admin s n"
    and actor: "uo_userId m \<noteq> actor"
  shows "\<exists>c. delete_account_check s oid (uo_userId m) actor = Inr c"
proof -
  from inv m(1) have "uo_userId m \<in> user_id ` set (t_users s)" and ids: "distinct (map user_id (t_users s))"
    by (simp_all add: accounts_inv_def)
  then obtain w where "w \<in> set (t_users s)" "user_id w = uo_userId m" by auto
  from find_key_distinct [OF ids this] obtain u where u: "find_user s (uo_userId m) = Some u"
    by (simp add: find_user_def)
  from admin obtain r q where r: "find_role s (uo_roleId m) = Some r" "role_name r = ''admin''"
    and q: "find_role s (uo_roleId n) = Some q" "role_name q = ''admin''" by (auto simp: is_admin_def)
  have rq: "r \<in> set (t_roles s)" "q \<in> set (t_roles s)" "role_id r = uo_roleId m" "role_id q = uo_roleId n"
    using r(1) q(1) by (auto simp: find_role_def dest: find_SomeD)
  have names: "distinct (map role_name (t_roles s))" using inv by (simp add: accounts_inv_def)
  have f: "List.find (\<lambda>r. role_name r = ''admin'') (t_roles s) = Some r"
    using names rq(1) r(2) by (rule find_key_distinct)
  have "q = r" using names rq(1,2) r(2) q(2) unfolding distinct_map inj_on_def by metis
  then have ids: "uo_roleId m = role_id r" "uo_roleId n = role_id r" using rq by auto
  have "1 < count_where (\<lambda>x. uo_orgId x = oid \<and> uo_roleId x = role_id r) (t_userOrgs s)"
  proof -
    have "{m, n} \<subseteq> set (filter (\<lambda>x. uo_orgId x = oid \<and> uo_roleId x = role_id r) (t_userOrgs s))"
      using m org ids by auto
    from card_mono [OF _ this] m(3) have "2 \<le> card (set (filter (\<lambda>x. uo_orgId x = oid \<and> uo_roleId x = role_id r) (t_userOrgs s)))"
      by simp
    also have "\<dots> \<le> count_where (\<lambda>x. uo_orgId x = oid \<and> uo_roleId x = role_id r) (t_userOrgs s)"
      unfolding count_where_def by (rule card_length)
    finally show ?thesis by simp
  qed
  then show ?thesis
    using find_member_key [OF inv m(1)] u r(1) f org(1) actor by (simp add: delete_account_check_def Let_def)
qed

lemma delete_account_commit_Inr:
  "find_member s aid oid \<noteq> None \<Longrightarrow> \<exists>s'. delete_account_commit s oid aid c = Inr s' \<and> t_roles s' = t_roles s \<and>
     t_userOrgs s' = delete_where (\<lambda>m. uo_userId m = aid \<and> uo_orgId m = oid) (t_userOrgs s)"
  by (simp add: delete_account_commit_def)

definition sample_admins :: store where
  "sample_admins = empty_store\<lparr>t_orgs := [new_org ''o'' ''Org'' ''org'' 0, new_org ''p'' ''Other'' ''other'' 0],
     t_users := [\<lparr>user_id = ''a'', user_email = ''a@x'', user_name = None, user_passwordHash = Some ''h'', user_createdAt = 0\<rparr>,
       \<lparr>user_id = ''b'', user_email = ''b@x'', user_name = None, user_passwordHash = Some ''h'', user_createdAt = 0\<rparr>],
     t_roles := [\<lparr>role_id = ''ra'', role_name = ''admin''\<rparr>, \<lparr>role_id = ''rv'', role_name = ''viewer''\<rparr>],
     t_userOrgs := [\<lparr>uo_userId = ''a'', uo_orgId = ''o'', uo_roleId = ''ra'', uo_createdAt = 0\<rparr>,
       \<lparr>uo_userId = ''b'', uo_orgId = ''o'', uo_roleId = ''ra'', uo_createdAt = 1\<rparr>]\<rparr>"

definition sample_cross :: store where
  "sample_cross = sample_admins\<lparr>
     t_userOrgs := [\<lparr>uo_userId = ''b'', uo_orgId = ''p'', uo_roleId = ''ra'', uo_createdAt = 0\<rparr>,
       \<lparr>uo_userId = ''a'', uo_orgId = ''o'', uo_roleId = ''ra'', uo_createdAt = 0\<rparr>,
       \<lparr>uo_userId = ''b'', uo_orgId = ''o'', uo_roleId = ''rv'', uo_createdAt = 1\<rparr>]\<rparr>"

lemmas accounts_eval = accounts_inv_def org_has_admin_def is_admin_def find_role_def sample_admins_def empty_store_def

lemma sample_admins_inv: "accounts_inv sample_admins"
  by (simp add: accounts_eval)

lemma sample_cross_inv: "accounts_inv sample_cross"
  by (simp add: accounts_eval sample_cross_def)

section \<open>Properties\<close>

text \<open>
  C4. No organisation is left without an administrator: whatever sequence of registrations,
  sign-ins, account creations (by an administrator) and deletions, password changes and
  resets, new organisations and settings changes runs, one operation after the other, every
  organisation that has members has a member whose role is admin.
\<close>

theorem orgs_keep_admins:
  assumes "account_reach api s0 s" and "accounts_inv s0" and "m \<in> set (t_userOrgs s)"
  shows "\<exists>n \<in> set (t_userOrgs s). uo_orgId n = uo_orgId m \<and> member_role s (uo_userId n) (uo_orgId n) = Some ''admin''"
proof -
  from account_reach_inv [OF assms(1,2)] have inv: "accounts_inv s" .
  from accounts_inv_admin [OF inv assms(3)] obtain n where
    n: "n \<in> set (t_userOrgs s)" "uo_orgId n = uo_orgId m" "is_admin s n" by blast
  from find_member_key [OF inv n(1)] n(3) have "member_role s (uo_userId n) (uo_orgId n) = Some ''admin''"
    by (auto simp: member_role_def is_admin_def)
  with n show ?thesis by blast
qed

theorem orgs_keep_admins_witness:
  "\<exists>s'. account_reach sample_api sample_admins s' \<and>
     map uo_userId (t_userOrgs s') = [''b''] \<and> member_role s' ''b'' ''o'' = Some ''admin''"
proof -
  have "case delete_account sample_admins ''o'' ''a'' ''b'' of
      Inl e \<Rightarrow> False | Inr (s', a) \<Rightarrow> map (\<lambda>m. (uo_userId m, uo_orgId m)) (t_userOrgs s') = [(''b'', ''o'')]" by code_simp
  then obtain s' a where d: "delete_account sample_admins ''o'' ''a'' ''b'' = Inr (s', a)"
    and m: "map (\<lambda>m. (uo_userId m, uo_orgId m)) (t_userOrgs s') = [(''b'', ''o'')]" by (auto split: sum.splits)
  have r: "account_reach sample_api sample_admins s'"
    by (rule account_reach.step [OF account_reach.start]) (rule account_step.deletes_account [OF d])
  from m obtain x where x: "t_userOrgs s' = [x]" "uo_userId x = ''b''" "uo_orgId x = ''o''" by auto
  from orgs_keep_admins [OF r sample_admins_inv, of x] x have "member_role s' ''b'' ''o'' = Some ''admin''" by auto
  with r x show ?thesis by auto
qed

text \<open>
  The last-administrator check and the deletion are not one transaction: two
  administrators who are the only ones and delete each other at the same time both pass the
  check, both deletions go through, and the organisation has no administrator.
\<close>

theorem last_admin_race:
  assumes inv: "accounts_inv s" and m: "m \<in> set (t_userOrgs s)" "n \<in> set (t_userOrgs s)" "m \<noteq> n"
    and org: "uo_orgId m = oid" "uo_orgId n = oid" and admin: "is_admin s m" "is_admin s n"
    and only: "\<And>x. x \<in> set (t_userOrgs s) \<Longrightarrow> uo_orgId x = oid \<Longrightarrow> is_admin s x \<Longrightarrow> x = m \<or> x = n"
  shows "\<exists>c d s1 s2. delete_account_check s oid (uo_userId m) (uo_userId n) = Inr c \<and>
    delete_account_check s oid (uo_userId n) (uo_userId m) = Inr d \<and>
    delete_account_commit s oid (uo_userId m) c = Inr s1 \<and>
    delete_account_commit s1 oid (uo_userId n) d = Inr s2 \<and> \<not> org_has_admin s2 oid"
proof -
  have ne: "uo_userId m \<noteq> uo_userId n"
  proof
    assume "uo_userId m = uo_userId n"
    with find_member_key [OF inv m(1)] find_member_key [OF inv m(2)] org m(3) show False by simp
  qed
  from delete_account_check_admin [OF inv m org admin] ne obtain c where
    c: "delete_account_check s oid (uo_userId m) (uo_userId n) = Inr c" by blast
  from delete_account_check_admin [OF inv m(2,1) m(3)[symmetric] org(2,1) admin(2,1)] ne obtain d where
    d: "delete_account_check s oid (uo_userId n) (uo_userId m) = Inr d" by metis
  from find_member_key [OF inv m(1)] org delete_account_commit_Inr [of s "uo_userId m" oid c] obtain s1 where
    s1: "delete_account_commit s oid (uo_userId m) c = Inr s1" "t_roles s1 = t_roles s"
      "t_userOrgs s1 = delete_where (\<lambda>x. uo_userId x = uo_userId m \<and> uo_orgId x = oid) (t_userOrgs s)" by auto
  have "find_member s1 (uo_userId n) oid \<noteq> None"
    using m(2) org ne by (auto simp: find_member_def find_None_iff' s1(3) set_delete_where)
  from delete_account_commit_Inr [OF this, of d] obtain s2 where
    s2: "delete_account_commit s1 oid (uo_userId n) d = Inr s2" "t_roles s2 = t_roles s1"
      "t_userOrgs s2 = delete_where (\<lambda>x. uo_userId x = uo_userId n \<and> uo_orgId x = oid) (t_userOrgs s1)" by auto
  have "\<not> org_has_admin s2 oid"
  proof
    assume "org_has_admin s2 oid"
    then obtain x where x: "x \<in> set (t_userOrgs s2)" "uo_orgId x = oid" "is_admin s x"
      by (auto simp: org_has_admin_def is_admin_def find_role_def s1(2) s2(2))
    then have "x \<in> set (t_userOrgs s)" "uo_userId x \<noteq> uo_userId m" "uo_userId x \<noteq> uo_userId n"
      by (auto simp: s1(3) s2(3) set_delete_where)
    with only [of x] x show False by auto
  qed
  with c d s1(1) s2(1) show ?thesis by blast
qed

theorem last_admin_race_witness:
  "\<exists>c d s1 s2. delete_account_check sample_admins ''o'' ''a'' ''b'' = Inr c \<and>
    delete_account_check sample_admins ''o'' ''b'' ''a'' = Inr d \<and>
    delete_account_commit sample_admins ''o'' ''a'' c = Inr s1 \<and>
    delete_account_commit s1 ''o'' ''b'' d = Inr s2 \<and> \<not> org_has_admin s2 ''o''"
  using last_admin_race [OF sample_admins_inv, of "\<lparr>uo_userId = ''a'', uo_orgId = ''o'', uo_roleId = ''ra'', uo_createdAt = 0\<rparr>"
      "\<lparr>uo_userId = ''b'', uo_orgId = ''o'', uo_roleId = ''ra'', uo_createdAt = 1\<rparr>" "''o''"]
  by (auto simp: accounts_eval)

text \<open>
  A password reset is a reset of the user, not of the membership: after an administrator
  of one organisation has reset the password of a lower member, that member's e-mail and the
  new password sign in to the user's oldest organisation - whichever it is and whatever
  role the user has there.
\<close>

theorem password_reset_reaches_all_orgs:
  assumes api: "scrypt_ok (aa_scrypt api)" "bytes_ok rnd" and inv: "accounts_inv s"
    and ok: "reset_account_password api s rnd oid aid actor new = Inr s'"
    and user: "find_user s aid = Some u" and home: "List.find (\<lambda>m. uo_userId m = aid) (t_userOrgs s) = Some m"
  shows "login api s' now i (user_email u) new = Inr (s', \<lparr>as_access_token = issue_token api aid (uo_orgId m),
      as_userId = aid, as_orgId = uo_orgId m\<rparr>) \<and>
    member_role s' aid (uo_orgId m) = member_role s aid (uo_orgId m)"
proof -
  let ?f = "\<lambda>x. x\<lparr>user_passwordHash := Some (make_password_hash (aa_scrypt api) rnd new)\<rparr>"
  from ok user have s': "t_users s' = update_where (\<lambda>x. user_id x = aid) ?f (t_users s)"
    "t_userOrgs s' = t_userOrgs s" "t_roles s' = t_roles s"
    by (auto simp: reset_account_password_def audit_org_def add_audit_def split: option.splits if_splits)
  have u: "u \<in> set (t_users s)" "user_id u = aid"
    using user by (auto simp: find_user_def dest: find_SomeD)
  have "List.find (\<lambda>x. user_email x = user_email u) (t_users s) = Some u"
    using inv u(1) by (intro find_key_distinct) (auto simp: accounts_inv_def)
  then have "List.find (\<lambda>x. user_email x = user_email u) (t_users s') = Some (?f u)"
    by (simp add: s'(1) find_update_where u(2))
  then have "login api s' now i (user_email u) new = Inr (s', \<lparr>as_access_token = issue_token api aid (uo_orgId m),
      as_userId = aid, as_orgId = uo_orgId m\<rparr>)"
    using home by (simp add: login_def verify_make_hash_ok [OF api] s'(2) u(2))
  moreover have "member_role s' aid (uo_orgId m) = member_role s aid (uo_orgId m)"
    by (simp add: member_role_def find_member_def find_role_def s'(2,3) split: option.splits)
  ultimately show ?thesis by blast
qed

theorem password_reset_reaches_all_orgs_witness:
  "\<exists>s'. reset_account_password sample_api sample_cross [9] ''o'' ''b'' ''a'' ''long password'' = Inr s' \<and>
     member_role sample_cross ''b'' ''o'' = Some ''viewer'' \<and> member_role sample_cross ''a'' ''p'' = None \<and>
     login sample_api s' 0 ''i'' ''b@x'' ''long password'' = Inr (s', \<lparr>as_access_token = ''b@p'', as_userId = ''b'', as_orgId = ''p''\<rparr>) \<and>
     member_role s' ''b'' ''p'' = Some ''admin''"
proof -
  have "case reset_account_password sample_api sample_cross [9] ''o'' ''b'' ''a'' ''long password'' of
      Inl e \<Rightarrow> False | Inr s' \<Rightarrow> True"
    by (simp add: reset_account_password_def member_role_def find_member_def find_role_def find_user_def
        sample_cross_def sample_admins_def empty_store_def)
  then obtain s' where ok: "reset_account_password sample_api sample_cross [9] ''o'' ''b'' ''a'' ''long password'' = Inr s'"
    by (auto split: sum.splits)
  let ?u = "\<lparr>user_id = ''b'', user_email = ''b@x'', user_name = None, user_passwordHash = Some ''h'', user_createdAt = 0\<rparr>"
  let ?m = "\<lparr>uo_userId = ''b'', uo_orgId = ''p'', uo_roleId = ''ra'', uo_createdAt = 0\<rparr>"
  have "find_user sample_cross ''b'' = Some ?u" "List.find (\<lambda>m. uo_userId m = ''b'') (t_userOrgs sample_cross) = Some ?m"
    by (simp_all add: find_user_def sample_cross_def sample_admins_def)
  from password_reset_reaches_all_orgs [OF sample_api_ok(1) _ sample_cross_inv ok this, of 0 "''i''"] ok show ?thesis
    by (auto simp: bytes_ok_def member_role_def find_member_def find_role_def sample_cross_def sample_admins_def
        issue_token_def sample_api_def)
qed

end
