(* ===== verification/Queue.thy ===== *)
theory Queue
  imports Schema
begin

text \<open>
  \<open>jobs/jobs-queue.service.ts\<close>: the organisation's job queue as the service uses it.
  \<open>org_queues s orgId\<close> holds the waiting and delayed jobs of the BullMQ queue; adding under
  a job id that is present has no effect (the deduplication the comment of \<open>addJob\<close> relies
  on).  What BullMQ decides is a parameter: \<open>ba_get_jobs start end q\<close> is the answer of
  \<open>getJobs(['waiting', 'delayed'], start, end)\<close>, and \<open>ba_claim d\<close> whether
  \<open>changeDelay\<close> and \<open>remove\<close> succeed on the job (they throw when it was taken concurrently).
\<close>

record bull_api =
  ba_get_jobs :: "nat \<Rightarrow> nat \<Rightarrow> queue_job list \<Rightarrow> queue_job list"
  ba_claim :: "queue_job \<Rightarrow> bool"

definition enqueue :: "queue_job \<Rightarrow> queue_job list \<Rightarrow> queue_job list" where
  "enqueue d q = (if exists_where (\<lambda>x. q_jobRunId x = q_jobRunId d) q then q else q @ [d])"

definition add_job :: "store \<Rightarrow> id \<Rightarrow> queue_job \<Rightarrow> store" where
  "add_job s orgId d = s\<lparr>org_queues := (org_queues s)(orgId := enqueue d (org_queues s orgId))\<rparr>"

definition is_read_only :: "string \<Rightarrow> bool" where
  "is_read_only type \<longleftrightarrow> type \<in> set [''MOD_LIST'', ''MOD_QUARANTINE_LIST'', ''MOD_CONFIG_READ'',
     ''PROFILE_LIST'', ''PROFILE_READ'', ''PLAYER_LIST_SYNC'', ''PLAYER_ADMIN_LIST'', ''SAVE_LIST'']"

text \<open>The scan: the first job of the host that the mutation gate admits and that can be claimed.\<close>

fun claim_scan :: "(queue_job \<Rightarrow> bool) \<Rightarrow> id \<Rightarrow> bool \<Rightarrow> queue_job list \<Rightarrow> queue_job option" where
  "claim_scan claimable hostId busy [] = None"
| "claim_scan claimable hostId busy (d # ds) =
     (if q_hostId d = hostId then
        (if busy \<and> \<not> is_read_only (q_type d) then claim_scan claimable hostId busy ds
         else if claimable d then Some d
         else claim_scan claimable hostId busy ds)
      else claim_scan claimable hostId busy ds)"

definition get_next_job_for_host ::
  "bull_api \<Rightarrow> store \<Rightarrow> id \<Rightarrow> id \<Rightarrow> bool \<Rightarrow> store \<times> queue_job option" where
  "get_next_job_for_host api s orgId hostId mutationBusy =
    (let waiting = ba_get_jobs api 0 499 (org_queues s orgId) in
     case claim_scan (ba_claim api) hostId mutationBusy waiting of
       None \<Rightarrow> (s, None)
     | Some d \<Rightarrow> (s\<lparr>org_queues := (org_queues s)(orgId :=
           delete_where (\<lambda>x. q_jobRunId x = q_jobRunId d) (org_queues s orgId))\<rparr>, Some d))"

text \<open>What the documentation of \<open>getJobs\<close> promises: it returns jobs of the queue.\<close>

definition bull_ok :: "bull_api \<Rightarrow> bool" where
  "bull_ok api \<longleftrightarrow> (\<forall>i j q. set (ba_get_jobs api i j q) \<subseteq> set q)"

text \<open>The oldest-first answer of a queue that is not being drained by anyone else.\<close>

definition fifo_api :: bull_api where
  "fifo_api = \<lparr>ba_get_jobs = (\<lambda>i j q. take (Suc j - i) (drop i q)), ba_claim = (\<lambda>_. True)\<rparr>"

lemma fifo_ok: "bull_ok fifo_api"
  by (auto simp: bull_ok_def fifo_api_def dest: in_set_takeD in_set_dropD)

section \<open>Lemmas\<close>

definition eligible :: "(queue_job \<Rightarrow> bool) \<Rightarrow> id \<Rightarrow> bool \<Rightarrow> queue_job \<Rightarrow> bool" where
  "eligible claimable hostId busy d \<longleftrightarrow>
     q_hostId d = hostId \<and> (busy \<longrightarrow> is_read_only (q_type d)) \<and> claimable d"

lemma claim_scan_find: "claim_scan claimable hostId busy ds = List.find (eligible claimable hostId busy) ds"
  by (induction ds) (auto simp: eligible_def)

lemma enqueue_present: "d' \<in> set q \<Longrightarrow> q_jobRunId d' = q_jobRunId d \<Longrightarrow> enqueue d q = q"
  by (auto simp: enqueue_def exists_where_iff)

lemma enqueue_absent: "q_jobRunId d \<notin> q_jobRunId ` set q \<Longrightarrow> enqueue d q = q @ [d]"
  by (auto simp: enqueue_def exists_where_iff image_iff)

lemma enqueue_distinct:
  "distinct (map q_jobRunId q) \<Longrightarrow> distinct (map q_jobRunId (enqueue d q))"
  by (auto simp: enqueue_def exists_where_iff)

lemma add_job_tables [simp]:
  "t_runs (add_job s oid d) = t_runs s" "t_jobs (add_job s oid d) = t_jobs s"
  "t_batches (add_job s oid d) = t_batches s" "t_hosts (add_job s oid d) = t_hosts s"
  "t_userOrgs (add_job s oid d) = t_userOrgs s" "t_roles (add_job s oid d) = t_roles s"
  "t_serverInstances (add_job s oid d) = t_serverInstances s"
  "t_players (add_job s oid d) = t_players s" "t_schedules (add_job s oid d) = t_schedules s"
  "t_events (add_job s oid d) = t_events s" "t_sessions (add_job s oid d) = t_sessions s"
  by (simp_all add: add_job_def)

lemma get_next_job_tables [simp]:
  "t_runs (fst (get_next_job_for_host api s oid hid b)) = t_runs s"
  "t_jobs (fst (get_next_job_for_host api s oid hid b)) = t_jobs s"
  "t_batches (fst (get_next_job_for_host api s oid hid b)) = t_batches s"
  "t_hosts (fst (get_next_job_for_host api s oid hid b)) = t_hosts s"
  by (simp_all add: get_next_job_for_host_def Let_def split: option.splits)

lemma get_next_job_NoneD: "get_next_job_for_host api s oid hid b = (s', None) \<Longrightarrow> s' = s"
  by (auto simp: get_next_job_for_host_def Let_def split: option.splits)

lemma get_next_job_SomeD:
  assumes "get_next_job_for_host api s oid hid b = (s', Some d)"
  shows "d \<in> set (ba_get_jobs api 0 499 (org_queues s oid)) \<and> eligible (ba_claim api) hid b d \<and>
    org_queues s' = (org_queues s)(oid :=
      delete_where (\<lambda>x. q_jobRunId x = q_jobRunId d) (org_queues s oid))"
  using assms
  by (auto simp: get_next_job_for_host_def claim_scan_find Let_def split: option.splits
      dest: find_SomeD)

lemma delete_where_key:
  assumes "distinct (map key q)" and "d \<in> set q"
  shows "\<exists>l r. q = l @ d # r \<and> delete_where (\<lambda>x. key x = key d) q = l @ r"
proof -
  obtain l r where q: "q = l @ d # r" using assms(2) by (auto simp: in_set_conv_decomp)
  have "key x \<noteq> key d" if "x \<in> set l \<union> set r" for x
    using that assms(1) unfolding q by (auto simp: image_iff)
  then have "delete_where (\<lambda>x. key x = key d) q = l @ r"
    unfolding q by (auto simp: delete_where_def intro!: filter_True)
  with q show ?thesis by blast
qed

section \<open>Properties\<close>

text \<open>
  C19. What the poll hands out: a job is returned exactly when one of the jobs the queue
  lists (up to the first 500) is for the polling host, is read-only if the agent is busy
  with a mutation, and can be claimed; it is then the first such job of the listing, it
  leaves the queue, and every other job stays in its place.
\<close>

theorem poll_gate:
  assumes api: "bull_ok api" and pk: "distinct (map q_jobRunId (org_queues s oid))"
  shows "case get_next_job_for_host api s oid hid busy of
      (s', None) \<Rightarrow> s' = s \<and>
        (\<forall>d \<in> set (ba_get_jobs api 0 499 (org_queues s oid)). \<not> eligible (ba_claim api) hid busy d)
    | (s', Some d) \<Rightarrow> eligible (ba_claim api) hid busy d \<and>
        (\<exists>before after. ba_get_jobs api 0 499 (org_queues s oid) = before @ d # after \<and>
           (\<forall>x \<in> set before. \<not> eligible (ba_claim api) hid busy x)) \<and>
        (\<exists>l r. org_queues s oid = l @ d # r \<and> org_queues s' = (org_queues s)(oid := l @ r))"
proof (cases "claim_scan (ba_claim api) hid busy (ba_get_jobs api 0 499 (org_queues s oid))")
  case None
  then have "\<forall>d \<in> set (ba_get_jobs api 0 499 (org_queues s oid)). \<not> eligible (ba_claim api) hid busy d"
    by (simp add: claim_scan_find find_None_iff')
  with None show ?thesis
    by (simp add: get_next_job_for_host_def)
next
  case (Some d)
  let ?w = "ba_get_jobs api 0 499 (org_queues s oid)"
  from Some have f: "List.find (eligible (ba_claim api) hid busy) ?w = Some d"
    by (simp add: claim_scan_find)
  then have e: "eligible (ba_claim api) hid busy d" and mem: "d \<in> set (org_queues s oid)"
    using api find_SomeD [OF f] unfolding bull_ok_def by blast+
  from f have "\<exists>before after. ?w = before @ d # after \<and> (\<forall>x \<in> set before. \<not> eligible (ba_claim api) hid busy x)"
    by (rule find_first)
  moreover from delete_where_key [OF pk mem] obtain l r where
    "org_queues s oid = l @ d # r"
    "delete_where (\<lambda>x. q_jobRunId x = q_jobRunId d) (org_queues s oid) = l @ r" by blast
  moreover have "get_next_job_for_host api s oid hid busy =
      (s\<lparr>org_queues := (org_queues s)(oid :=
         delete_where (\<lambda>x. q_jobRunId x = q_jobRunId d) (org_queues s oid))\<rparr>, Some d)"
    unfolding get_next_job_for_host_def Let_def Some by simp
  ultimately show ?thesis
    using e by auto
qed

theorem poll_gate_witness:
  "let d = \<lparr>q_jobId = ''j'', q_jobRunId = ''r'', q_hostId = ''h'', q_serverInstanceId = None,
         q_type = ''SERVER_STOP'', q_payload = JNull, q_scheduleId = None\<rparr>;
       s = empty_store\<lparr>org_queues := (\<lambda>_. [d])\<rparr>
   in snd (get_next_job_for_host fifo_api s ''o'' ''h'' True) = None \<and>
      snd (get_next_job_for_host fifo_api s ''o'' ''h'' False) = Some d"
proof -
  define d where "d = \<lparr>q_jobId = ''j'', q_jobRunId = ''r'', q_hostId = ''h'',
    q_serverInstanceId = None, q_type = ''SERVER_STOP'', q_payload = JNull, q_scheduleId = None\<rparr>"
  let ?s = "empty_store\<lparr>org_queues := (\<lambda>_. [d])\<rparr>"
  have dist: "distinct (map q_jobRunId (org_queues ?s ''o''))" by simp
  have w: "ba_get_jobs fifo_api 0 499 [d] = [d]" "ba_claim fifo_api = (\<lambda>_. True)"
    by (simp_all add: fifo_api_def)
  have e: "\<not> eligible (\<lambda>_. True) ''h'' True d" "eligible (\<lambda>_. True) ''h'' False d"
    by (simp_all add: eligible_def is_read_only_def d_def)
  have "snd (get_next_job_for_host fifo_api ?s ''o'' ''h'' True) = None"
    using poll_gate [OF fifo_ok dist, of "''h''" True] e(1) w
    by (auto simp: Cons_eq_append_conv split: prod.splits option.splits)
  moreover have "snd (get_next_job_for_host fifo_api ?s ''o'' ''h'' False) = Some d"
    using poll_gate [OF fifo_ok dist, of "''h''" False] e(2) w
    by (auto simp: Cons_eq_append_conv split: prod.splits option.splits)
  ultimately show ?thesis unfolding d_def Let_def by blast
qed

end
