(* ===== verification/Batches.thy ===== *)
theory Batches
  imports Queue Calendar
begin

text \<open>
  \<open>batches/batches.service.ts\<close>: bulk operations.  A batch row counts the runs of its jobs
  by status; \<open>createBatch\<close> creates one job and one run per server, \<open>recordJobRunStarted\<close>
  and \<open>recordJobRunCompleted\<close> move one unit between the counters, \<open>cancelBatch\<close> cancels
  the pending runs.  The progress messages the service emits are returned as values.
\<close>

section \<open>Data\<close>

definition batch_type_to_job_type :: "string \<Rightarrow> string" where
  "batch_type_to_job_type ty =
    (if ty = ''restart_wave'' then ''SERVER_RESTART''
     else if ty = ''update_wave'' then ''SERVER_UPDATE''
     else if ty = ''bulk_mod_install'' then ''BULK_MOD_INSTALL''
     else if ty = ''custom'' then ''custom'' else ty)"

record create_batch_dto =
  cb_type :: string
  cb_serverInstanceIds :: "id list"
  cb_payload :: "json option"

text \<open>What the validation decorators of the DTO admit.\<close>

definition batch_types :: "string list" where
  "batch_types = [''restart_wave'', ''update_wave'', ''bulk_mod_install'', ''custom'']"

definition create_batch_dto_ok :: "create_batch_dto \<Rightarrow> bool" where
  "create_batch_dto_ok dto \<longleftrightarrow> cb_type dto \<in> set batch_types \<and> cb_serverInstanceIds dto \<noteq> []"

text \<open>\<open>toSummary\<close> copies the row; the summary is the row itself.\<close>

type_synonym batch_summary = job_batch

record progress_event =
  pe_orgId :: id
  pe_batchId :: id
  pe_status :: batch_status
  pe_totalCount :: int
  pe_pendingCount :: int
  pe_runningCount :: int
  pe_successCount :: int
  pe_failedCount :: int
  pe_cancelledCount :: int
  pe_completedAt :: "time option"
  pe_updatedRun :: "(id \<times> run_status) option"

definition emit_progress :: "id \<Rightarrow> job_batch \<Rightarrow> (id \<times> run_status) option \<Rightarrow> progress_event" where
  "emit_progress orgId b updatedRun = \<lparr>pe_orgId = orgId, pe_batchId = b_id b, pe_status = b_status b,
     pe_totalCount = b_totalCount b, pe_pendingCount = b_pendingCount b,
     pe_runningCount = b_runningCount b, pe_successCount = b_successCount b,
     pe_failedCount = b_failedCount b, pe_cancelledCount = b_cancelledCount b,
     pe_completedAt = b_completedAt b, pe_updatedRun = updatedRun\<rparr>"

definition audit_batch :: "id \<Rightarrow> id option \<Rightarrow> string \<Rightarrow> id \<Rightarrow> (string \<times> json) list \<Rightarrow> store \<Rightarrow> store" where
  "audit_batch orgId actorId action resourceId details = add_audit \<lparr>al_orgId = orgId,
     al_actorId = actorId, al_action = action, al_resourceType = ''job_batch'',
     al_resourceId = resourceId, al_details = details, al_ip = None\<rparr>"

definition audit_job :: "id \<Rightarrow> id option \<Rightarrow> string \<Rightarrow> id \<Rightarrow> (string \<times> json) list \<Rightarrow> store \<Rightarrow> store" where
  "audit_job orgId actorId action resourceId details = add_audit \<lparr>al_orgId = orgId,
     al_actorId = actorId, al_action = action, al_resourceType = ''job'',
     al_resourceId = resourceId, al_details = details, al_ip = None\<rparr>"

section \<open>Operations\<close>

text \<open>
  The ids drawn by \<open>createBatch\<close>: the batch's, and for the instance \<open>i\<close> those of its job
  and its run.
\<close>

record batch_ids =
  bi_batch :: id
  bi_job :: "id \<Rightarrow> id"
  bi_run :: "id \<Rightarrow> id"

definition create_batch_job ::
  "batch_ids \<Rightarrow> time \<Rightarrow> id \<Rightarrow> id option \<Rightarrow> create_batch_dto \<Rightarrow> server_instance \<Rightarrow> store \<Rightarrow> store" where
  "create_batch_job ids now orgId userId dto si s =
    (let jobType = batch_type_to_job_type (cb_type dto);
         jid = bi_job ids (si_id si); rid = bi_run ids (si_id si);
         j = \<lparr>j_id = jid, j_orgId = orgId, j_batchId = Some (bi_batch ids),
           j_serverInstanceId = Some (si_id si), j_type = jobType, j_payload = cb_payload dto,
           j_createdById = userId, j_createdAt = now\<rparr>;
         r = \<lparr>r_id = rid, r_jobId = jid, r_hostId = si_hostId si, r_status = Pending,
           r_startedAt = None, r_finishedAt = None, r_result = None, r_createdAt = now\<rparr>;
         s1 = s\<lparr>t_jobs := t_jobs s @ [j], t_runs := t_runs s @ [r]\<rparr>;
         s2 = add_job s1 orgId \<lparr>q_jobId = jid, q_jobRunId = rid, q_hostId = si_hostId si,
           q_serverInstanceId = Some (si_id si), q_type = jobType,
           q_payload = (case cb_payload dto of None \<Rightarrow> JObj [] | Some p \<Rightarrow> p),
           q_scheduleId = None\<rparr>
     in audit_job orgId userId ''job_created'' jid
          [(''batchId'', JStr (bi_batch ids)), (''serverInstanceId'', JStr (si_id si))] s2)"

fun create_batch_jobs ::
  "batch_ids \<Rightarrow> time \<Rightarrow> id \<Rightarrow> id option \<Rightarrow> create_batch_dto \<Rightarrow> server_instance list \<Rightarrow> store \<Rightarrow> store" where
  "create_batch_jobs ids now orgId userId dto [] s = s"
| "create_batch_jobs ids now orgId userId dto (si # sis) s =
     create_batch_jobs ids now orgId userId dto sis (create_batch_job ids now orgId userId dto si s)"

fun join_comma :: "string list \<Rightarrow> string" where
  "join_comma [] = []"
| "join_comma [x] = x"
| "join_comma (x # xs) = x @ '', '' @ join_comma xs"

definition batch_instances :: "store \<Rightarrow> id \<Rightarrow> create_batch_dto \<Rightarrow> server_instance list" where
  "batch_instances s orgId dto =
     filter (\<lambda>x. si_id x \<in> set (cb_serverInstanceIds dto) \<and> si_orgId x = orgId) (t_serverInstances s)"

definition new_batch :: "batch_ids \<Rightarrow> time \<Rightarrow> id \<Rightarrow> id option \<Rightarrow> create_batch_dto \<Rightarrow> nat \<Rightarrow> job_batch" where
  "new_batch ids now orgId userId dto n = \<lparr>b_id = bi_batch ids, b_orgId = orgId, b_type = cb_type dto,
     b_status = BRunning, b_totalCount = int n, b_pendingCount = int n, b_runningCount = 0,
     b_successCount = 0, b_failedCount = 0, b_cancelledCount = 0, b_createdById = userId,
     b_createdAt = now, b_completedAt = None\<rparr>"

definition create_batch ::
  "batch_ids \<Rightarrow> store \<Rightarrow> time \<Rightarrow> id \<Rightarrow> id option \<Rightarrow> create_batch_dto \<Rightarrow> (store \<times> batch_summary) result" where
  "create_batch ids s now orgId userId dto =
    (let instances = batch_instances s orgId dto in
     if length instances \<noteq> length (cb_serverInstanceIds dto)
     then Inl (BadRequestException (''Server instance(s) not found or not in org: '' @
            join_comma (filter (\<lambda>i. i \<notin> si_id ` set instances) (cb_serverInstanceIds dto))))
     else
       let batch = new_batch ids now orgId userId dto (length instances);
           s1 = s\<lparr>t_batches := t_batches s @ [batch]\<rparr>;
           s2 = create_batch_jobs ids now orgId userId dto instances s1;
           s3 = audit_batch orgId userId ''batch_created'' (b_id batch)
                  [(''type'', JStr (b_type batch)), (''serverCount'', JNum (b_totalCount batch))] s2
       in Inr (s3, batch))"

text \<open>
  \<open>listBatches\<close>: most recent first.  Rows are appended as they are created, so the newest
  is the last.
\<close>

definition list_batches :: "store \<Rightarrow> id \<Rightarrow> int \<Rightarrow> batch_summary list" where
  "list_batches s orgId limit =
     prisma_take limit (rev (filter (\<lambda>b. b_orgId b = orgId) (t_batches s)))"

text \<open>The list handler of the controller, with the query's \<open>limit\<close>.\<close>

definition list_batches_request :: "store \<Rightarrow> id \<Rightarrow> string option \<Rightarrow> batch_summary list" where
  "list_batches_request s orgId limit = list_batches s orgId (query_limit 100 50 limit)"

definition get_batch :: "store \<Rightarrow> id \<Rightarrow> id \<Rightarrow> batch_summary result" where
  "get_batch s orgId batchId =
    (case List.find (\<lambda>b. b_id b = batchId \<and> b_orgId b = orgId) (t_batches s) of
       None \<Rightarrow> Inl (NotFoundException ''Batch not found'') | Some b \<Rightarrow> Inr b)"

text \<open>\<open>jobRuns: { orderBy: { createdAt: 'desc' }, take: 1 }\<close>: the newest run of a job.\<close>

definition latest_run :: "store \<Rightarrow> id \<Rightarrow> job_run option" where
  "latest_run s jid = foldl (\<lambda>best r. case best of None \<Rightarrow> Some r
     | Some b \<Rightarrow> if r_createdAt b \<le> r_createdAt r then Some r else Some b)
     None (filter (\<lambda>r. r_jobId r = jid) (t_runs s))"

record batch_job =
  bj_jobId :: id
  bj_serverInstanceId :: id
  bj_serverName :: "string option"
  bj_runId :: id
  bj_runStatus :: run_status
  bj_runFinishedAt :: "time option"
  bj_errorMessage :: "json option"

definition to_batch_job :: "store \<Rightarrow> job \<Rightarrow> batch_job" where
  "to_batch_job s j = (let run = latest_run s (j_id j) in
     \<lparr>bj_jobId = j_id j,
      bj_serverInstanceId = (case j_serverInstanceId j of None \<Rightarrow> [] | Some i \<Rightarrow> i),
      bj_serverName = (case j_serverInstanceId j of None \<Rightarrow> None
        | Some i \<Rightarrow> map_option si_name (List.find (\<lambda>x. si_id x = i) (t_serverInstances s))),
      bj_runId = (case run of None \<Rightarrow> [] | Some r \<Rightarrow> r_id r),
      bj_runStatus = (case run of None \<Rightarrow> Pending | Some r \<Rightarrow> r_status r),
      bj_runFinishedAt = (case run of None \<Rightarrow> None | Some r \<Rightarrow> r_finishedAt r),
      bj_errorMessage = (case run of None \<Rightarrow> None | Some r \<Rightarrow>
        (case r_result r of None \<Rightarrow> None | Some o' \<Rightarrow> jget o' ''errorMessage''))\<rparr>)"

definition get_batch_jobs :: "store \<Rightarrow> id \<Rightarrow> id \<Rightarrow> batch_job list result" where
  "get_batch_jobs s orgId batchId = (case get_batch s orgId batchId of
     Inl e \<Rightarrow> Inl e
   | Inr b \<Rightarrow> Inr (map (to_batch_job s) (filter (\<lambda>j. j_batchId j = Some batchId) (t_jobs s))))"

text \<open>The batch of a job, found as the two record functions find it.\<close>

definition job_batch_of :: "store \<Rightarrow> id \<Rightarrow> id \<Rightarrow> job_batch option" where
  "job_batch_of s orgId jobId =
    (case List.find (\<lambda>j. j_id j = jobId \<and> j_orgId j = orgId) (t_jobs s) of
       None \<Rightarrow> None
     | Some j \<Rightarrow> (case j_batchId j of None \<Rightarrow> None | Some bid \<Rightarrow> find_batch s bid))"

definition update_batch :: "id \<Rightarrow> (job_batch \<Rightarrow> job_batch) \<Rightarrow> store \<Rightarrow> store" where
  "update_batch bid f s = s\<lparr>t_batches := update_where (\<lambda>b. b_id b = bid) f (t_batches s)\<rparr>"

definition count_completion :: "run_status \<Rightarrow> run_status \<Rightarrow> job_batch \<Rightarrow> job_batch" where
  "count_completion runStatus prior b =
    (let b1 = (if runStatus = Success then b\<lparr>b_successCount := b_successCount b + 1\<rparr>
               else if runStatus = Failed then b\<lparr>b_failedCount := b_failedCount b + 1\<rparr>
               else b\<lparr>b_cancelledCount := b_cancelledCount b + 1\<rparr>)
     in if prior = Running then b1\<lparr>b_runningCount := b_runningCount b1 - 1\<rparr>
        else b1\<lparr>b_pendingCount := b_pendingCount b1 - 1\<rparr>)"

definition close_batch :: "time \<Rightarrow> job_batch \<Rightarrow> job_batch" where
  "close_batch now b =
    (if b_pendingCount b \<le> 0 \<and> b_runningCount b \<le> 0
     then b\<lparr>b_status := (if b_failedCount b > 0 then BCompletedWithFailures else BCompleted),
            b_completedAt := Some now\<rparr>
     else b)"

definition record_job_run_completed ::
  "store \<Rightarrow> time \<Rightarrow> id \<Rightarrow> id \<Rightarrow> run_status \<Rightarrow> run_status \<Rightarrow> store \<times> progress_event option" where
  "record_job_run_completed s now orgId jobId runStatus prior =
    (case job_batch_of s orgId jobId of
       None \<Rightarrow> (s, None)
     | Some b \<Rightarrow>
         let final = close_batch now (count_completion runStatus prior b)
         in (update_batch (b_id b) (\<lambda>x. close_batch now (count_completion runStatus prior x)) s,
             Some (emit_progress orgId final (Some (jobId, runStatus)))))"

definition count_start :: "job_batch \<Rightarrow> job_batch" where
  "count_start b = b\<lparr>b_pendingCount := b_pendingCount b - 1, b_runningCount := b_runningCount b + 1\<rparr>"

definition record_job_run_started :: "store \<Rightarrow> id \<Rightarrow> id \<Rightarrow> store \<times> progress_event option" where
  "record_job_run_started s orgId jobId =
    (case job_batch_of s orgId jobId of
       None \<Rightarrow> (s, None)
     | Some b \<Rightarrow> (let s1 = update_batch (b_id b) count_start s
         in (s1, map_option (\<lambda>u. emit_progress orgId u (Some (jobId, Running))) (find_batch s1 (b_id b)))))"

text \<open>
  The loop of \<open>cancelBatch\<close> over the newest runs read before it: each pending run is
  cancelled and its queue entry removed, when it is still there and \<open>remove\<close> does not throw.
\<close>

definition cancel_run :: "(id \<Rightarrow> bool) \<Rightarrow> time \<Rightarrow> id \<Rightarrow> job_run \<Rightarrow> store \<Rightarrow> store" where
  "cancel_run removable now orgId run s =
    (let s1 = s\<lparr>t_runs := update_where (\<lambda>r. r_id r = r_id run)
                (\<lambda>r. r\<lparr>r_status := Cancelled, r_finishedAt := Some now\<rparr>) (t_runs s)\<rparr>
     in if removable (r_id run)
        then s1\<lparr>org_queues := (org_queues s1)(orgId :=
               delete_where (\<lambda>d. q_jobRunId d = r_id run) (org_queues s1 orgId))\<rparr>
        else s1)"

fun cancel_runs :: "(id \<Rightarrow> bool) \<Rightarrow> time \<Rightarrow> id \<Rightarrow> job_run option list \<Rightarrow> store \<Rightarrow> store \<times> int" where
  "cancel_runs removable now orgId [] s = (s, 0)"
| "cancel_runs removable now orgId (run # runs) s =
     (case run of
        None \<Rightarrow> cancel_runs removable now orgId runs s
      | Some r \<Rightarrow>
          if r_status r \<noteq> Pending then cancel_runs removable now orgId runs s
          else (let (s', n) = cancel_runs removable now orgId runs (cancel_run removable now orgId r s)
                in (s', n + 1)))"

definition cancel_batch ::
  "(id \<Rightarrow> bool) \<Rightarrow> store \<Rightarrow> time \<Rightarrow> id \<Rightarrow> id \<Rightarrow> (store \<times> batch_summary \<times> progress_event) result" where
  "cancel_batch removable s now orgId batchId =
    (case List.find (\<lambda>b. b_id b = batchId \<and> b_orgId b = orgId) (t_batches s) of
       None \<Rightarrow> Inl (NotFoundException ''Batch not found'')
     | Some batch \<Rightarrow>
         if b_status batch \<noteq> BRunning then Inl (BadRequestException ''Batch is not running'')
         else
           let runs = map (\<lambda>j. latest_run s (j_id j)) (filter (\<lambda>j. j_batchId j = Some batchId) (t_jobs s));
               (s1, cancelled) = cancel_runs removable now orgId runs s;
               f = (\<lambda>b. b\<lparr>b_status := BCancelled, b_pendingCount := b_pendingCount b - cancelled,
                      b_cancelledCount := b_cancelledCount b + cancelled, b_completedAt := Some now\<rparr>);
               s2 = update_batch batchId f s1;
               s3 = audit_batch orgId None ''batch_cancelled'' batchId
                      [(''remainingPending'', JNum (b_pendingCount batch - cancelled)),
                       (''cancelledCount'', JNum cancelled)] s2
           in Inr (s3, f batch, emit_progress orgId (f batch) None))"

section \<open>Lemmas\<close>

text \<open>
  The five counters of a batch as a function of the status they count, and the move of one
  unit between two of them: what the record functions do.
\<close>

definition counter :: "job_batch \<Rightarrow> run_status \<Rightarrow> int" where
  "counter b st = (case st of Pending \<Rightarrow> b_pendingCount b | Running \<Rightarrow> b_runningCount b
     | Success \<Rightarrow> b_successCount b | Failed \<Rightarrow> b_failedCount b | Cancelled \<Rightarrow> b_cancelledCount b)"

definition move :: "run_status \<Rightarrow> run_status \<Rightarrow> (run_status \<Rightarrow> int) \<Rightarrow> run_status \<Rightarrow> int" where
  "move a z f = (let g = f(a := f a - 1) in g(z := g z + 1))"

definition move_many :: "int \<Rightarrow> run_status \<Rightarrow> run_status \<Rightarrow> (run_status \<Rightarrow> int) \<Rightarrow> run_status \<Rightarrow> int" where
  "move_many n a z f = (let g = f(a := f a - n) in g(z := g z + n))"

definition status_sum :: "(run_status \<Rightarrow> int) \<Rightarrow> int" where
  "status_sum f = f Pending + f Running + f Success + f Failed + f Cancelled"

lemma move_many_0 [simp]: "move_many 0 a z f = f"
  by (simp add: move_many_def)

lemma move_many_Suc: "move_many (n + 1) a z f = move_many n a z (move a z f)"
  by (auto simp: move_many_def move_def Let_def fun_eq_iff)

lemma status_sum_move [simp]: "status_sum (move a z f) = status_sum f"
  by (cases a; cases z) (simp_all add: status_sum_def move_def)

lemma status_sum_move_many [simp]: "status_sum (move_many n a z f) = status_sum f"
  by (cases a; cases z) (simp_all add: status_sum_def move_many_def)

lemma move_at: "move a z f st = f st - (if st = a then 1 else 0) + (if st = z then 1 else 0)"
  by (simp add: move_def)

lemma counter_simps [simp]:
  "counter b Pending = b_pendingCount b" "counter b Running = b_runningCount b"
  "counter b Success = b_successCount b" "counter b Failed = b_failedCount b"
  "counter b Cancelled = b_cancelledCount b"
  by (simp_all add: counter_def)

lemma counter_start: "counter (count_start b) = move Pending Running (counter b)"
  by (rule ext, case_tac x) (simp_all add: count_start_def move_def)

lemma counter_completion:
  "st = Success \<or> st = Failed \<or> st = Cancelled \<Longrightarrow> prior = Pending \<or> prior = Running \<Longrightarrow>
   counter (count_completion st prior b) = move prior st (counter b)"
  by (rule ext, case_tac x) (auto simp: count_completion_def move_def Let_def)

lemma counter_close [simp]: "counter (close_batch now b) = counter b"
  by (rule ext, case_tac x) (simp_all add: close_batch_def)

lemma batch_keys [simp]:
  "b_id (count_start b) = b_id b" "b_orgId (count_start b) = b_orgId b"
  "b_totalCount (count_start b) = b_totalCount b" "b_status (count_start b) = b_status b"
  "b_id (count_completion st prior b) = b_id b" "b_orgId (count_completion st prior b) = b_orgId b"
  "b_totalCount (count_completion st prior b) = b_totalCount b"
  "b_status (count_completion st prior b) = b_status b"
  "b_id (close_batch now b) = b_id b" "b_orgId (close_batch now b) = b_orgId b"
  "b_totalCount (close_batch now b) = b_totalCount b"
  by (simp_all add: count_start_def count_completion_def close_batch_def Let_def)

lemma update_batch_tables [simp]:
  "t_runs (update_batch bid f s) = t_runs s" "t_jobs (update_batch bid f s) = t_jobs s"
  "t_batches (update_batch bid f s) = update_where (\<lambda>b. b_id b = bid) f (t_batches s)"
  "org_queues (update_batch bid f s) = org_queues s"
  by (simp_all add: update_batch_def)

lemma audit_tables [simp]:
  "t_runs (audit_batch o' a ac r d s) = t_runs s" "t_jobs (audit_batch o' a ac r d s) = t_jobs s"
  "t_batches (audit_batch o' a ac r d s) = t_batches s"
  "org_queues (audit_batch o' a ac r d s) = org_queues s"
  "t_runs (audit_job o' a ac r d s) = t_runs s" "t_jobs (audit_job o' a ac r d s) = t_jobs s"
  "t_batches (audit_job o' a ac r d s) = t_batches s"
  "t_serverInstances (audit_job o' a ac r d s) = t_serverInstances s"
  "org_queues (audit_job o' a ac r d s) = org_queues s"
  by (simp_all add: audit_batch_def audit_job_def add_audit_def)

text \<open>What the loop of \<open>createBatch\<close> leaves in the tables.\<close>

definition batch_job_row :: "batch_ids \<Rightarrow> time \<Rightarrow> id \<Rightarrow> id option \<Rightarrow> create_batch_dto \<Rightarrow> server_instance \<Rightarrow> job" where
  "batch_job_row ids now orgId userId dto si =
     \<lparr>j_id = bi_job ids (si_id si), j_orgId = orgId, j_batchId = Some (bi_batch ids),
      j_serverInstanceId = Some (si_id si), j_type = batch_type_to_job_type (cb_type dto),
      j_payload = cb_payload dto, j_createdById = userId, j_createdAt = now\<rparr>"

definition batch_run_row :: "batch_ids \<Rightarrow> time \<Rightarrow> server_instance \<Rightarrow> job_run" where
  "batch_run_row ids now si =
     \<lparr>r_id = bi_run ids (si_id si), r_jobId = bi_job ids (si_id si), r_hostId = si_hostId si,
      r_status = Pending, r_startedAt = None, r_finishedAt = None, r_result = None, r_createdAt = now\<rparr>"

lemma create_batch_job_tables [simp]:
  "t_jobs (create_batch_job ids now oid uid dto si s) = t_jobs s @ [batch_job_row ids now oid uid dto si]"
  "t_runs (create_batch_job ids now oid uid dto si s) = t_runs s @ [batch_run_row ids now si]"
  "t_batches (create_batch_job ids now oid uid dto si s) = t_batches s"
  by (simp_all add: create_batch_job_def batch_job_row_def batch_run_row_def Let_def)

lemma create_batch_jobs_tables:
  "t_jobs (create_batch_jobs ids now oid uid dto sis s) = t_jobs s @ map (batch_job_row ids now oid uid dto) sis \<and>
   t_runs (create_batch_jobs ids now oid uid dto sis s) = t_runs s @ map (batch_run_row ids now) sis \<and>
   t_batches (create_batch_jobs ids now oid uid dto sis s) = t_batches s"
  by (induction sis arbitrary: s) simp_all

lemma create_batch_InrD:
  assumes "create_batch ids s now oid uid dto = Inr (s', b)"
  shows "length (batch_instances s oid dto) = length (cb_serverInstanceIds dto) \<and>
    b = new_batch ids now oid uid dto (length (batch_instances s oid dto)) \<and>
    t_batches s' = t_batches s @ [b] \<and>
    t_jobs s' = t_jobs s @ map (batch_job_row ids now oid uid dto) (batch_instances s oid dto) \<and>
    t_runs s' = t_runs s @ map (batch_run_row ids now) (batch_instances s oid dto)"
  using assms create_batch_jobs_tables
  by (auto simp: create_batch_def Let_def split: if_splits)

end
