(* ===== verification/Jobs.thy ===== *)
theory Jobs
  imports Batches Auth
begin

text \<open>
  \<open>jobs/jobs.service.ts\<close>, \<open>jobs/jobs.controller.ts\<close> and \<open>jobs/agent-jobs.controller.ts\<close>:
  the creation of jobs with the checks per job type, the agent's poll, progress and result
  reports, the sweep of stale runs, mod uploads and their download, the views.  Reading the
  clock several times in one operation is one \<open>now\<close>.  What the service does with the
  output of a player listing (\<open>reconcilePlayers\<close>, \<open>enforceConnectionTools\<close>) is the
  argument \<open>sync\<close> of \<open>report_job_result\<close>; it acts on the store and on the service's own
  memory, and it may throw.
\<close>

section \<open>Job types\<close>

definition job_types :: "string list" where
  "job_types = [''SERVER_START'', ''SERVER_STOP'', ''SERVER_KILL'', ''SERVER_RESTART'',
     ''SERVER_SAFE_RESTART'', ''SERVER_WIPE_SAVE'', ''RCON'', ''SEND_COMMAND'',
     ''REGION_HEALER_START'', ''REGION_HEALER_STOP'', ''SAVE_LIST'', ''SAVE_BACKUP'',
     ''SAVE_RESTORE'', ''SAVE_DELETE'', ''SAVE_RETENTION'', ''PLAYER_KICK'', ''PLAYER_KICK_ALL'',
     ''PLAYER_BAN'', ''PLAYER_LIST_SYNC'', ''PLAYER_ADMIN_LIST'', ''PLAYER_ADMIN_PROMOTE'',
     ''PLAYER_ADMIN_DEMOTE'', ''MOD_LIST'', ''MOD_QUARANTINE'', ''MOD_QUARANTINE_LIST'',
     ''MOD_RESTORE'', ''MOD_DELETE'', ''MOD_CONFIG_READ'', ''MOD_CONFIG_WRITE'',
     ''MOD_UPLOAD_QUARANTINE'', ''PROFILE_LIST'', ''PROFILE_READ'', ''PROFILE_STAGE'',
     ''start'', ''stop'', ''restart'', ''rcon'']"

definition normalize_job_type :: "string \<Rightarrow> string" where
  "normalize_job_type jobType = (let l = js_lower jobType in
     if l = ''start'' then ''SERVER_START''
     else if l = ''stop'' then ''SERVER_STOP''
     else if l = ''restart'' then ''SERVER_RESTART''
     else if l = ''rcon'' then ''RCON''
     else js_upper jobType)"

section \<open>Creating a job\<close>

text \<open>The payload of a console command, rewritten with the trimmed command.\<close>

definition console_payload :: "(string \<times> json) list option \<Rightarrow> (string \<times> json) list option result" where
  "console_payload payload =
    (let fields = (case payload of None \<Rightarrow> [] | Some p \<Rightarrow> p);
         command = (case map_of fields ''command'' of Some (JStr c) \<Rightarrow> js_trim c | _ \<Rightarrow> [])
     in if command = [] then Inl (BadRequestException ''Console command is required'')
        else if length command > 512
        then Inl (BadRequestException ''Console command cannot exceed 512 characters'')
        else if exists_where (\<lambda>c. c = CHR 0x0D \<or> c = CHR 0x0A) command
        then Inl (BadRequestException ''Only one console command may be sent at a time'')
        else Inr (Some (jspread fields [(''command'', JStr command)])))"

text \<open>
  The role checks of \<open>createJob\<close>, in the order of the code: the first that fails gives the
  error.
\<close>

definition is_operator :: "store \<Rightarrow> id \<Rightarrow> id \<Rightarrow> bool" where
  "is_operator s userId orgId = (case member_role s userId orgId of
     None \<Rightarrow> False | Some r \<Rightarrow> r = ''admin'' \<or> r = ''operator'')"

definition job_role_error :: "store \<Rightarrow> id \<Rightarrow> id \<Rightarrow> string \<Rightarrow> http_error option" where
  "job_role_error s orgId userId ty =
    (if ty \<in> set [''PLAYER_ADMIN_PROMOTE'', ''PLAYER_ADMIN_DEMOTE''] \<and>
        member_role s userId orgId \<noteq> Some ''admin''
     then Some (ForbiddenException ''Only organization administrators may change game administrators'')
     else if ty \<in> set [''PLAYER_KICK_ALL'', ''SERVER_KILL''] \<and> \<not> is_operator s userId orgId
     then Some (ForbiddenException ''Only organization administrators or operators may perform this action'')
     else if ty \<in> set [''SAVE_BACKUP'', ''SAVE_RESTORE'', ''SAVE_DELETE'', ''SAVE_RETENTION''] \<and>
        \<not> is_operator s userId orgId
     then Some (ForbiddenException ''Only organization administrators or operators may manage saves'')
     else if ty = ''PROFILE_STAGE'' \<and> \<not> is_operator s userId orgId
     then Some (ForbiddenException ''Only organization administrators or operators may stage player profiles'')
     else if ty = ''MOD_UPLOAD_QUARANTINE'' \<and> \<not> is_operator s userId orgId
     then Some (ForbiddenException ''Only organization administrators or operators may upload mods'')
     else None)"

text \<open>
  The object stored and queued: the server's own columns, overridden by the caller's
  payload.  A property whose value is \<open>undefined\<close> is not stored, and the order of the
  properties of a JSON object carries no meaning.
\<close>

definition server_fields :: "store \<Rightarrow> server_instance \<Rightarrow> (string \<times> json) list" where
  "server_fields s si =
     [(''server_instance_id'', JStr (si_id si)), (''game_type'', JStr (game_slug s (si_gameTypeId si)))] @
      jopt ''install_path'' (map_option JStr (si_installPath si)) @
      jopt ''start_command'' (map_option JStr (si_startCommand si)) @
      jopt ''telnet_host'' (map_option JStr (si_telnetHost si)) @
      jopt ''telnet_port'' (map_option JNum (si_telnetPort si)) @
      jopt ''telnet_password'' (map_option JStr (si_telnetPassword si)) @
      jopt ''config'' (si_config si) @
      [(''avoid_blood_moon_restart'', JBool (case find_org s (si_orgId si) of
          None \<Rightarrow> False | Some o' \<Rightarrow> org_avoidBloodMoonRestart o'))]"

definition merged_payload :: "store \<Rightarrow> server_instance \<Rightarrow> (string \<times> json) list option \<Rightarrow> json" where
  "merged_payload s si payload = JObj (jspread (server_fields s si)
     (case payload of None \<Rightarrow> [] | Some p \<Rightarrow> p))"

record job_ids =
  ji_job :: id
  ji_run :: id

definition insert_job ::
  "job_ids \<Rightarrow> store \<Rightarrow> time \<Rightarrow> id \<Rightarrow> id option \<Rightarrow> server_instance \<Rightarrow> string \<Rightarrow> json \<Rightarrow> store" where
  "insert_job ids s now orgId userId si ty payload =
    (let j = \<lparr>j_id = ji_job ids, j_orgId = orgId, j_batchId = None, j_serverInstanceId = Some (si_id si),
           j_type = ty, j_payload = Some payload, j_createdById = userId, j_createdAt = now\<rparr>;
         r = \<lparr>r_id = ji_run ids, r_jobId = ji_job ids, r_hostId = si_hostId si, r_status = Pending,
           r_startedAt = None, r_finishedAt = None, r_result = None, r_createdAt = now\<rparr>
     in add_job (s\<lparr>t_jobs := t_jobs s @ [j], t_runs := t_runs s @ [r]\<rparr>) orgId
          \<lparr>q_jobId = ji_job ids, q_jobRunId = ji_run ids, q_hostId = si_hostId si,
           q_serverInstanceId = Some (si_id si), q_type = ty, q_payload = payload, q_scheduleId = None\<rparr>)"

definition create_job ::
  "job_ids \<Rightarrow> store \<Rightarrow> time \<Rightarrow> id \<Rightarrow> id \<Rightarrow> id \<Rightarrow> string \<Rightarrow> (string \<times> json) list option \<Rightarrow>
   (store \<times> job_ids) result" where
  "create_job ids s now orgId userId serverInstanceId jobType payload =
    (let ty = normalize_job_type jobType in
     case (if ty = ''RCON'' \<or> ty = ''SEND_COMMAND'' then console_payload payload else Inr payload) of
       Inl e \<Rightarrow> Inl e
     | Inr payload' \<Rightarrow> (case job_role_error s orgId userId ty of
         Some e \<Rightarrow> Inl e
       | None \<Rightarrow> (case find_server_in_org s serverInstanceId orgId of
           None \<Rightarrow> Inl (NotFoundException ''Server instance not found'')
         | Some si \<Rightarrow>
             Inr (insert_job ids s now orgId (Some userId) si ty (merged_payload s si payload'), ids))))"

section \<open>The life of a run\<close>

definition run_status_string :: "run_status \<Rightarrow> string" where
  "run_status_string st = (case st of Pending \<Rightarrow> ''pending'' | Running \<Rightarrow> ''running''
     | Success \<Rightarrow> ''success'' | Failed \<Rightarrow> ''failed'' | Cancelled \<Rightarrow> ''cancelled'')"

definition update_run :: "id \<Rightarrow> (job_run \<Rightarrow> job_run) \<Rightarrow> store \<Rightarrow> store" where
  "update_run rid f s = s\<lparr>t_runs := update_where (\<lambda>r. r_id r = rid) f (t_runs s)\<rparr>"

definition run_job :: "store \<Rightarrow> job_run \<Rightarrow> job option" where
  "run_job s r = find_job s (r_jobId r)"

definition mark_job_run_started :: "store \<Rightarrow> time \<Rightarrow> id \<Rightarrow> id \<Rightarrow> store \<times> progress_event option" where
  "mark_job_run_started s now hostId jobRunId = (case find_run s jobRunId of
     None \<Rightarrow> (s, None)
   | Some run \<Rightarrow>
       if r_hostId run \<noteq> hostId then (s, None)
       else if r_status run \<noteq> Pending then (s, None)
       else
         let s1 = update_run jobRunId (\<lambda>r. r\<lparr>r_status := Running, r_startedAt := Some now\<rparr>) s
         in (case run_job s run of
               None \<Rightarrow> (s1, None)
             | Some j \<Rightarrow> if j_batchId j = None then (s1, None)
                 else record_job_run_started s1 (j_orgId j) (r_jobId run)))"

definition report_job_progress ::
  "store \<Rightarrow> time \<Rightarrow> id \<Rightarrow> id \<Rightarrow> string \<Rightarrow> string option \<Rightarrow> store result" where
  "report_job_progress s now hostId jobRunId phase message = (case find_run s jobRunId of
     None \<Rightarrow> Inl (NotFoundException ''Job run not found'')
   | Some run \<Rightarrow>
       if r_hostId run \<noteq> hostId then Inl (BadRequestException ''Job run does not belong to this host'')
       else if r_status run \<noteq> Running
       then Inl (BadRequestException (''Job run is not running (status: '' @ run_status_string (r_status run) @ '')''))
       else Inr (update_run jobRunId (\<lambda>r. r\<lparr>r_result := Some (JObj
              ([(''phase'', JStr phase)] @
               (case message of None \<Rightarrow> [] | Some m \<Rightarrow> if m = [] then [] else [(''message'', JStr m)]) @
               [(''updatedAt'', JStr (iso_string now))]))\<rparr>) s))"

text \<open>
  The sweep of runs whose agent went silent.  The heartbeat is the time of the last progress
  report, else of the start, else 0; \<open>||\<close> also passes over a zero.
\<close>

definition run_fields :: "job_run \<Rightarrow> (string \<times> json) list" where
  "run_fields r = (case r_result r of Some (JObj kvs) \<Rightarrow> kvs | _ \<Rightarrow> [])"

definition run_heartbeat :: "job_run \<Rightarrow> time" where
  "run_heartbeat r =
    (let parsed = (case map_of (run_fields r) ''updatedAt'' of
                     Some (JStr x) \<Rightarrow> js_date_parse x | _ \<Rightarrow> None)
     in case parsed of
          Some t \<Rightarrow> if t \<noteq> 0 then t else (case r_startedAt r of None \<Rightarrow> 0 | Some u \<Rightarrow> u)
        | None \<Rightarrow> (case r_startedAt r of None \<Rightarrow> 0 | Some u \<Rightarrow> u))"

definition stale_message :: string where
  "stale_message = ''Agent stopped reporting progress; job released as stale. Retry if still needed.''"

definition fail_stale_run :: "time \<Rightarrow> job_run \<Rightarrow> store \<Rightarrow> store" where
  "fail_stale_run now run s =
    (if now - 3 * 60000 \<le> run_heartbeat run then s
     else s\<lparr>t_runs := update_where (\<lambda>r. r_id r = r_id run \<and> r_status r = Running)
            (\<lambda>r. r\<lparr>r_status := Failed, r_finishedAt := Some now,
                   r_result := Some (JObj (jspread (run_fields run)
                     [(''errorMessage'', JStr stale_message), (''recoveredAt'', JStr (iso_string now))]))\<rparr>)
            (t_runs s)\<rparr>)"

definition fail_stale_running_jobs :: "store \<Rightarrow> time \<Rightarrow> store" where
  "fail_stale_running_jobs s now =
     fold (fail_stale_run now) (filter (\<lambda>r. r_status r = Running) (t_runs s)) s"

section \<open>Results\<close>

record report_result_dto =
  rr_status :: string
  rr_durationMs :: "int option"
  rr_errorMessage :: "string option"
  rr_output :: "string option"
  rr_result :: "json option"

text \<open>\<open>/^[0-9a-f-]{36}$/i\<close>, and the stricter form the download asks for.\<close>

definition is_hex :: "char \<Rightarrow> bool" where
  "is_hex c \<longleftrightarrow> lower_char c \<in> set ''0123456789abcdef''"

definition is_upload_id :: "string \<Rightarrow> bool" where
  "is_upload_id s \<longleftrightarrow> length s = 36 \<and> list_all (\<lambda>c. is_hex c \<or> c = CHR ''-'') s"

definition is_uuid_v4 :: "string \<Rightarrow> bool" where
  "is_uuid_v4 s \<longleftrightarrow> length s = 36 \<and>
     list_all is_hex (field s 0 8 @ field s 9 4 @ field s 15 3 @ field s 20 3 @ field s 24 12) \<and>
     field s 8 1 = ''-'' \<and> field s 13 1 = ''-'' \<and> field s 14 1 = ''4'' \<and> field s 18 1 = ''-'' \<and>
     list_all (\<lambda>c. lower_char c \<in> set ''89ab'') (field s 19 1) \<and> field s 23 1 = ''-''"

definition payload_string :: "json option \<Rightarrow> string \<Rightarrow> string" where
  "payload_string p k = (case p of None \<Rightarrow> []
     | Some o' \<Rightarrow> (case jget o' k of Some (JStr x) \<Rightarrow> x | _ \<Rightarrow> []))"

text \<open>\<open>join(dir, uploadId + '.zip')\<close> for a file name without separators.\<close>

definition upload_path :: "string \<Rightarrow> string \<Rightarrow> string" where
  "upload_path dir uploadId = dir @ ''/'' @ uploadId @ ''.zip''"

definition result_json :: "report_result_dto \<Rightarrow> json" where
  "result_json dto = JObj (jopt ''durationMs'' (map_option JNum (rr_durationMs dto)) @
     jopt ''errorMessage'' (map_option JStr (rr_errorMessage dto)) @
     jopt ''output'' (map_option JStr (rr_output dto)) @ jopt ''data'' (rr_result dto))"

definition result_status :: "report_result_dto \<Rightarrow> run_status" where
  "result_status dto = (if rr_status dto = ''success'' then Success else Failed)"

text \<open>
  The writes before the player synchronisation: the run is finished, and the payload of a
  staged profile is reduced to its path.
\<close>

definition finish_run :: "time \<Rightarrow> job_run \<Rightarrow> job \<Rightarrow> report_result_dto \<Rightarrow> store \<Rightarrow> store" where
  "finish_run now run j dto s =
    (let st = result_status dto;
         s1 = update_run (r_id run) (\<lambda>r. r\<lparr>r_status := st, r_finishedAt := Some now,
                r_result := Some (result_json dto)\<rparr>) s
     in if j_type j = ''PROFILE_STAGE''
        then s1\<lparr>t_jobs := update_where (\<lambda>x. j_id x = r_jobId run) (\<lambda>x. x\<lparr>j_payload := Some (JObj
               (jopt ''path'' (case j_payload j of None \<Rightarrow> None | Some p \<Rightarrow> jget p ''path'') @
                [(''staged'', JBool (st = Success))]))\<rparr>) (t_jobs s1)\<rparr>
        else s1)"

definition deleted_upload :: "string \<Rightarrow> job \<Rightarrow> string option" where
  "deleted_upload dir j =
    (if j_type j = ''MOD_UPLOAD_QUARANTINE'' \<and> is_upload_id (payload_string (j_payload j) ''uploadId'')
     then Some (upload_path dir (payload_string (j_payload j) ''uploadId'')) else None)"

type_synonym 'm sync_fun = "'m \<Rightarrow> store \<Rightarrow> id \<Rightarrow> id \<Rightarrow> string \<Rightarrow> ('m \<times> store) \<times> http_error option"

definition sync_output ::
  "'m sync_fun \<Rightarrow> 'm \<Rightarrow> store \<Rightarrow> job \<Rightarrow> report_result_dto \<Rightarrow> ('m \<times> store) \<times> http_error option" where
  "sync_output sync mem s j dto =
    (case (j_serverInstanceId j, rr_output dto) of
       (Some sid, Some out) \<Rightarrow>
         if j_type j = ''PLAYER_LIST_SYNC'' \<and> result_status dto = Success \<and> out \<noteq> [] \<and> sid \<noteq> []
         then sync mem s (j_orgId j) sid out else ((mem, s), None)
     | _ \<Rightarrow> ((mem, s), None))"

text \<open>
  The whole handler: an exception of the synchronisation leaves the run finished but skips
  the batch.
\<close>

definition report_job_result ::
  "'m sync_fun \<Rightarrow> 'm \<Rightarrow> store \<Rightarrow> time \<Rightarrow> id \<Rightarrow> id \<Rightarrow> report_result_dto \<Rightarrow>
   ('m \<times> store) \<times> progress_event option result" where
  "report_job_result sync mem s now hostId jobRunId dto =
    (case find_run s jobRunId of
       None \<Rightarrow> ((mem, s), Inl (NotFoundException ''Job run not found''))
     | Some run \<Rightarrow>
         if r_hostId run \<noteq> hostId
         then ((mem, s), Inl (BadRequestException ''Job run does not belong to this host''))
         else if r_status run \<noteq> Running
         then ((mem, s), Inl (BadRequestException
                (''Job run is not running (status: '' @ run_status_string (r_status run) @ '')'')))
         else (case run_job s run of
           None \<Rightarrow> ((mem, s), Inl (NotFoundException ''Job run not found''))
         | Some j \<Rightarrow>
             (case sync_output sync mem (finish_run now run j dto s) j dto of
                ((mem', s'), Some e) \<Rightarrow> ((mem', s'), Inl e)
              | ((mem', s'), None) \<Rightarrow>
                  (case j_batchId j of
                     None \<Rightarrow> ((mem', s'), Inr None)
                   | Some bid \<Rightarrow>
                       let (s2, ev) = record_job_run_completed s' now (j_orgId j) (r_jobId run)
                                        (result_status dto) Running
                       in ((mem', s2), Inr ev)))))"

section \<open>The agent's endpoints\<close>

definition poll :: "bull_api \<Rightarrow> store \<Rightarrow> time \<Rightarrow> id \<Rightarrow> string option \<Rightarrow> store \<times> queue_job option" where
  "poll api s now hostId mutationBusy = (case find_host s hostId of
     None \<Rightarrow> (s, None)
   | Some h \<Rightarrow> (case get_next_job_for_host api s (h_orgId h) hostId (mutationBusy = Some ''true'') of
       (s1, None) \<Rightarrow> (s1, None)
     | (s1, Some d) \<Rightarrow> (fst (mark_job_run_started s1 now hostId (q_jobRunId d)), Some d)))"

definition download_job_file ::
  "string \<Rightarrow> (string \<Rightarrow> bool) \<Rightarrow> store \<Rightarrow> id \<Rightarrow> id \<Rightarrow> string result" where
  "download_job_file dir is_file s agentHostId jobRunId = (case find_run s jobRunId of
     None \<Rightarrow> Inl (NotFoundException ''Job file not found'')
   | Some run \<Rightarrow>
       if r_hostId run \<noteq> agentHostId then Inl (NotFoundException ''Job file not found'')
       else (case run_job s run of
         None \<Rightarrow> Inl (NotFoundException ''Job file not found'')
       | Some j \<Rightarrow>
           if j_type j \<noteq> ''MOD_UPLOAD_QUARANTINE''
           then Inl (BadRequestException ''Job has no downloadable mod archive'')
           else let uploadId = payload_string (j_payload j) ''uploadId''
                in if \<not> is_uuid_v4 uploadId then Inl (BadRequestException ''Invalid mod upload reference'')
                   else if \<not> is_file (upload_path dir uploadId)
                   then Inl (NotFoundException ''Uploaded mod archive expired or is unavailable'')
                   else Inr (upload_path dir uploadId)))"

section \<open>The users' endpoints\<close>

record upload_file =
  uf_originalname :: string
  uf_size :: int
  uf_buffer :: bytes

text \<open>\<open>/\.zip$/i\<close>\<close>

definition has_zip_name :: "string \<Rightarrow> bool" where
  "has_zip_name name \<longleftrightarrow> js_lower (drop (length name - 4) name) = ''.zip'' \<and> 4 \<le> length name"

text \<open>
  The upload directory is the set of paths in it.  \<open>flag: 'wx'\<close> refuses to overwrite; the
  name is a fresh UUID.
\<close>

definition upload_mod ::
  "string \<Rightarrow> id \<Rightarrow> job_ids \<Rightarrow> string set \<Rightarrow> store \<Rightarrow> time \<Rightarrow> id \<Rightarrow> id \<Rightarrow> id \<Rightarrow> upload_file option \<Rightarrow>
   string set \<times> (store \<times> job_ids) result" where
  "upload_mod dir uploadId ids files s now orgId userId serverInstanceId file =
    (if serverInstanceId = [] then (files, Inl (BadRequestException ''Server instance is required''))
     else (case file of
       None \<Rightarrow> (files, Inl (BadRequestException ''Choose a non-empty ZIP archive''))
     | Some f \<Rightarrow>
         if uf_buffer f = [] then (files, Inl (BadRequestException ''Choose a non-empty ZIP archive''))
         else if \<not> has_zip_name (uf_originalname f)
         then (files, Inl (BadRequestException ''Only .zip mod archives are supported''))
         else if to_hex (take 4 (uf_buffer f)) \<notin> set [''504b0304'', ''504b0506'', ''504b0708'']
         then (files, Inl (BadRequestException ''The uploaded file is not a valid ZIP archive''))
         else if upload_path dir uploadId \<in> files then (files, Inl (Error ''EEXIST''))
         else (case create_job ids s now orgId userId serverInstanceId ''MOD_UPLOAD_QUARANTINE''
                 (Some [(''uploadId'', JStr uploadId), (''originalName'', JStr (uf_originalname f)),
                        (''sizeBytes'', JNum (uf_size f))]) of
             Inl e \<Rightarrow> (files, Inl e)
           | Inr r \<Rightarrow> (insert (upload_path dir uploadId) files, Inr r))))"

definition get_run :: "store \<Rightarrow> id \<Rightarrow> id \<Rightarrow> job_run option" where
  "get_run s orgId runId =
     List.find (\<lambda>r. r_id r = runId \<and> (case run_job s r of None \<Rightarrow> False | Some j \<Rightarrow> j_orgId j = orgId)) (t_runs s)"

record run_view =
  rv_id :: id
  rv_status :: string
  rv_startedAt :: "time option"
  rv_finishedAt :: "time option"
  rv_result :: "json option"

record job_view =
  jv_job :: job
  jv_serverName :: "string option"
  jv_startedBy :: "(id \<times> string \<times> string) option"
  jv_latestRun :: "run_view option"

definition view_run :: "job_run \<Rightarrow> run_view" where
  "view_run r = \<lparr>rv_id = r_id r,
     rv_status = (if r_status r = Running \<and>
         (case r_result r of None \<Rightarrow> None | Some x \<Rightarrow> jget x ''phase'') = Some (JStr ''queued'')
       then ''queued'' else run_status_string (r_status r)),
     rv_startedAt = r_startedAt r, rv_finishedAt = r_finishedAt r, rv_result = r_result r\<rparr>"

definition view_job :: "store \<Rightarrow> job \<Rightarrow> job_view" where
  "view_job s j = \<lparr>jv_job = j,
     jv_serverName = (case j_serverInstanceId j of None \<Rightarrow> None
       | Some i \<Rightarrow> map_option si_name (List.find (\<lambda>x. si_id x = i) (t_serverInstances s))),
     jv_startedBy = (case j_createdById j of None \<Rightarrow> None
       | Some u \<Rightarrow> map_option (\<lambda>x. (user_id x,
             (case user_name x of None \<Rightarrow> user_email x | Some n \<Rightarrow> if n = [] then user_email x else n),
             user_email x)) (find_user s u)),
     jv_latestRun = map_option view_run (latest_run s (j_id j))\<rparr>"

definition list_jobs :: "store \<Rightarrow> id \<Rightarrow> string option \<Rightarrow> id option \<Rightarrow> job_view list" where
  "list_jobs s orgId limit serverInstanceId =
     map (view_job s) (prisma_take (query_limit 100 20 limit) (rev (filter (\<lambda>j. j_orgId j = orgId \<and>
       j_type j \<noteq> ''PLAYER_LIST_SYNC'' \<and>
       (case serverInstanceId of None \<Rightarrow> True | Some i \<Rightarrow> i = [] \<or> j_serverInstanceId j = Some i))
       (t_jobs s))))"

section \<open>Lemmas\<close>

lemma insert_job_tables [simp]:
  "t_jobs (insert_job ids s now oid uid si ty p) = t_jobs s @ [\<lparr>j_id = ji_job ids, j_orgId = oid,
     j_batchId = None, j_serverInstanceId = Some (si_id si), j_type = ty, j_payload = Some p,
     j_createdById = uid, j_createdAt = now\<rparr>]"
  "t_runs (insert_job ids s now oid uid si ty p) = t_runs s @ [\<lparr>r_id = ji_run ids, r_jobId = ji_job ids,
     r_hostId = si_hostId si, r_status = Pending, r_startedAt = None, r_finishedAt = None,
     r_result = None, r_createdAt = now\<rparr>]"
  "t_batches (insert_job ids s now oid uid si ty p) = t_batches s"
  "t_userOrgs (insert_job ids s now oid uid si ty p) = t_userOrgs s"
  "t_roles (insert_job ids s now oid uid si ty p) = t_roles s"
  "t_players (insert_job ids s now oid uid si ty p) = t_players s"
  "t_sessions (insert_job ids s now oid uid si ty p) = t_sessions s"
  "t_serverInstances (insert_job ids s now oid uid si ty p) = t_serverInstances s"
  by (simp_all add: insert_job_def Let_def)

lemma create_job_InrD:
  assumes "create_job ids s now oid uid sid ty p = Inr (s', r)"
  shows "r = ids \<and> (\<exists>si p'. find_server_in_org s sid oid = Some si \<and>
    job_role_error s oid uid (normalize_job_type ty) = None \<and>
    (if normalize_job_type ty = ''RCON'' \<or> normalize_job_type ty = ''SEND_COMMAND''
     then console_payload p = Inr p' else p' = p) \<and>
    s' = insert_job ids s now oid (Some uid) si (normalize_job_type ty) (merged_payload s si p'))"
  using assms by (auto simp: create_job_def Let_def split: sum.splits option.splits if_splits)

end
