(* ===== verification/JobSystem.thy ===== *)
theory JobSystem
  imports Jobs
begin

text \<open>
  Jobs and batches together: the abstraction of a batch to the tally of its runs by status,
  the invariant that the counters of every batch are that tally, and its preservation by
  every operation of the two services.  The sweep of stale runs finishes runs without
  telling the batch; the invariant carries that difference per batch (\<open>d\<close>), so that it also
  says what the sweep does to a batch.
\<close>

section \<open>The abstraction\<close>

definition in_batch :: "store \<Rightarrow> id \<Rightarrow> job_run \<Rightarrow> bool" where
  "in_batch s bid r = (case run_job s r of None \<Rightarrow> False | Some j \<Rightarrow> j_batchId j = Some bid)"

definition tally :: "store \<Rightarrow> id \<Rightarrow> run_status \<Rightarrow> int" where
  "tally s bid st = int (count_where (\<lambda>r. in_batch s bid r \<and> r_status r = st) (t_runs s))"

text \<open>\<open>n\<close> runs of the batch are finished as failed that the batch still counts as running.\<close>

definition drifted :: "int \<Rightarrow> (run_status \<Rightarrow> int) \<Rightarrow> run_status \<Rightarrow> int" where
  "drifted n f = f(Running := f Running + n, Failed := f Failed - n)"

definition status_ok :: "job_batch \<Rightarrow> bool" where
  "status_ok b \<longleftrightarrow> (case b_status b of
     BRunning \<Rightarrow> 0 < counter b Pending + counter b Running
   | BCompleted \<Rightarrow> counter b Pending \<le> 0 \<and> counter b Running \<le> 0 \<and> counter b Failed \<le> 0
   | BCompletedWithFailures \<Rightarrow> counter b Pending \<le> 0 \<and> counter b Running \<le> 0 \<and> 0 < counter b Failed
   | BCancelled \<Rightarrow> True)"

definition batch_ok :: "store \<Rightarrow> (id \<Rightarrow> int) \<Rightarrow> job_batch \<Rightarrow> bool" where
  "batch_ok s d b \<longleftrightarrow> counter b = drifted (d (b_id b)) (tally s (b_id b)) \<and>
     b_totalCount b = status_sum (counter b) \<and> status_ok b"

definition jobs_wf :: "store \<Rightarrow> bool" where
  "jobs_wf s \<longleftrightarrow> distinct (map b_id (t_batches s)) \<and> distinct (map j_id (t_jobs s)) \<and>
     distinct (map r_id (t_runs s)) \<and> distinct (map r_jobId (t_runs s)) \<and>
     (\<forall>r \<in> set (t_runs s). r_jobId r \<in> j_id ` set (t_jobs s)) \<and>
     (\<forall>j \<in> set (t_jobs s). \<forall>bid. j_batchId j = Some bid \<longrightarrow>
        (\<exists>b \<in> set (t_batches s). b_id b = bid \<and> b_orgId b = j_orgId j) \<and>
        j_type j \<noteq> ''PLAYER_LIST_SYNC'')"

definition jobs_inv :: "(id \<Rightarrow> int) \<Rightarrow> store \<Rightarrow> bool" where
  "jobs_inv d s \<longleftrightarrow> jobs_wf s \<and> (\<forall>b \<in> set (t_batches s). batch_ok s d b) \<and>
     (\<forall>x. 0 \<le> d x) \<and> (\<forall>x. x \<notin> b_id ` set (t_batches s) \<longrightarrow> d x = 0)"

section \<open>Lemmas on the abstraction\<close>

lemma drifted_at: "drifted n f st = f st + (if st = Running then n else if st = Failed then - n else 0)"
  by (simp add: drifted_def)

lemma drifted_0 [simp]: "drifted 0 f = f"
  by (simp add: drifted_def)

lemma drifted_move: "drifted n (move a z f) = move a z (drifted n f)"
  by (rule ext) (simp add: drifted_at move_at)

lemma move_many_at: "move_many n a z f st = f st - (if st = a then n else 0) + (if st = z then n else 0)"
  by (simp add: move_many_def)

lemma drifted_move_many: "drifted n (move_many k a z f) = move_many k a z (drifted n f)"
  by (rule ext) (simp add: drifted_at move_many_at)

lemma drifted_swept: "drifted (n + 1) (move Running Failed f) = drifted n f"
  by (rule ext) (simp add: drifted_at move_at)

lemma move_self [simp]: "move a a f = f"
  by (simp add: move_def)

lemma update_where_id [simp]: "update_where P (\<lambda>x. x) rows = rows"
  by (induction rows) auto

lemma jobs_wf_find_run: "jobs_wf s \<Longrightarrow> r \<in> set (t_runs s) \<Longrightarrow> find_run s (r_id r) = Some r"
  unfolding jobs_wf_def find_run_def by (intro find_key_distinct) auto

lemma jobs_wf_run_job: "jobs_wf s \<Longrightarrow> r \<in> set (t_runs s) \<Longrightarrow> \<exists>j. run_job s r = Some j"
proof -
  assume wf: "jobs_wf s" and r: "r \<in> set (t_runs s)"
  then obtain j where j: "j \<in> set (t_jobs s)" "j_id j = r_jobId r"
    unfolding jobs_wf_def by force
  from wf have "distinct (map j_id (t_jobs s))" by (simp add: jobs_wf_def)
  from find_key_distinct [OF this j] show ?thesis
    unfolding run_job_def find_job_def by blast
qed

lemma run_job_SomeD: "run_job s r = Some j \<Longrightarrow> j \<in> set (t_jobs s) \<and> j_id j = r_jobId r"
  by (auto simp: run_job_def dest: find_job_SomeD)

lemma in_batch_run_job: "run_job s r = Some j \<Longrightarrow> in_batch s bid r \<longleftrightarrow> j_batchId j = Some bid"
  by (simp add: in_batch_def)

text \<open>The jobs table matters through the keys and the batch of its rows only.\<close>

lemma run_job_update:
  assumes "t_jobs s' = update_where P g (t_jobs s)" and "\<And>j. j_id (g j) = j_id j"
  shows "run_job s' r = map_option (\<lambda>j. if P j then g j else j) (run_job s r)"
  unfolding run_job_def find_job_def assms(1) by (rule find_update_where) (simp add: assms(2))

lemma in_batch_update:
  assumes "t_jobs s' = update_where P g (t_jobs s)"
    and "\<And>j. j_id (g j) = j_id j \<and> j_batchId (g j) = j_batchId j" and "r_jobId r' = r_jobId r"
  shows "in_batch s' bid r' = in_batch s bid r"
proof -
  have "run_job s' r' = map_option (\<lambda>j. if P j then g j else j) (run_job s r)"
    using run_job_update [OF assms(1), of r] assms(2,3) by (simp add: run_job_def)
  with assms(2) show ?thesis by (auto simp: in_batch_def split: option.splits)
qed

lemma tally_nonneg [simp]: "0 \<le> tally s bid st"
  by (simp add: tally_def)

lemma tally_pos: "r \<in> set (t_runs s) \<Longrightarrow> in_batch s bid r \<Longrightarrow> 0 < tally s bid (r_status r)"
  using count_where_pos [of r "t_runs s" "\<lambda>x. in_batch s bid x \<and> r_status x = r_status r"]
  by (simp add: tally_def)

lemma tally_update:
  assumes wf: "jobs_wf s" and r: "find_run s rid = Some r"
    and runs: "t_runs s' = update_where (\<lambda>x. r_id x = rid) f (t_runs s)"
    and jobs: "t_jobs s' = update_where P g (t_jobs s)"
    and g: "\<And>j. j_id (g j) = j_id j \<and> j_batchId (g j) = j_batchId j"
    and f: "\<And>x. r_jobId (f x) = r_jobId x"
  shows "tally s' bid = (if in_batch s bid r then move (r_status r) (r_status (f r)) (tally s bid) else tally s bid)"
proof
  fix st
  from find_run_SomeD [OF r] have mem: "r \<in> set (t_runs s)" "r_id r = rid" by auto
  have ib: "in_batch s' bid x = in_batch s bid x" and ibf: "in_batch s bid (f x) = in_batch s bid x" for x
    using in_batch_update [OF jobs g] by (simp_all add: in_batch_def run_job_def f)
  have "int (count_where (\<lambda>x. in_batch s bid x \<and> r_status x = st) (t_runs s')) =
      int (count_where (\<lambda>x. in_batch s bid x \<and> r_status x = st) (t_runs s))
      - (if in_batch s bid r \<and> r_status r = st then 1 else 0)
      + (if in_batch s bid (f r) \<and> r_status (f r) = st then 1 else 0)"
    unfolding runs using wf mem by (intro count_where_update_one) (auto simp: jobs_wf_def)
  then show "tally s' bid st = (if in_batch s bid r then move (r_status r) (r_status (f r)) (tally s bid) else tally s bid) st"
    by (auto simp: tally_def ib ibf move_at)
qed

lemma jobs_wf_update:
  assumes wf: "jobs_wf s"
    and runs: "t_runs s' = update_where R f (t_runs s)" and f: "\<And>x. r_id (f x) = r_id x \<and> r_jobId (f x) = r_jobId x"
    and jobs: "t_jobs s' = update_where P g (t_jobs s)"
    and g: "\<And>j. j_id (g j) = j_id j \<and> j_batchId (g j) = j_batchId j \<and> j_orgId (g j) = j_orgId j \<and> j_type (g j) = j_type j"
    and batches: "t_batches s' = update_where B h (t_batches s)"
    and h: "\<And>b. b_id (h b) = b_id b \<and> b_orgId (h b) = b_orgId b"
  shows "jobs_wf s'"
proof -
  have maps: "map r_id (t_runs s') = map r_id (t_runs s)" "map r_jobId (t_runs s') = map r_jobId (t_runs s)"
    "map j_id (t_jobs s') = map j_id (t_jobs s)" "map b_id (t_batches s') = map b_id (t_batches s)"
    unfolding runs jobs batches by (intro map_update_where; simp add: f g h)+
  have jids: "j_id ` set (t_jobs s') = j_id ` set (t_jobs s)"
    by (metis list.set_map maps(3))
  have rids: "r_jobId ` set (t_runs s') = r_jobId ` set (t_runs s)"
    by (metis list.set_map maps(2))
  have "(\<exists>b \<in> set (t_batches s'). b_id b = bid \<and> b_orgId b = j_orgId j') \<and> j_type j' \<noteq> ''PLAYER_LIST_SYNC''"
    if j': "j' \<in> set (t_jobs s')" "j_batchId j' = Some bid" for j' bid
  proof -
    from j'(1) obtain j where j: "j \<in> set (t_jobs s)" "j' = (if P j then g j else j)"
      unfolding jobs by (auto simp: table_simps)
    with j' g have "j_batchId j = Some bid" "j_orgId j' = j_orgId j" "j_type j' = j_type j" by (auto split: if_splits)
    with wf j(1) obtain b where b: "b \<in> set (t_batches s)" "b_id b = bid" "b_orgId b = j_orgId j'"
      and ty: "j_type j' \<noteq> ''PLAYER_LIST_SYNC''"
      unfolding jobs_wf_def by metis
    have "(if B b then h b else b) \<in> set (t_batches s')"
      unfolding batches using b(1) by (simp add: table_simps)
    with b h ty show ?thesis by (intro conjI bexI [of _ "if B b then h b else b"]) auto
  qed
  moreover have "r_jobId x \<in> j_id ` set (t_jobs s')" if "x \<in> set (t_runs s')" for x
    using that rids wf unfolding jids jobs_wf_def by (metis (no_types, lifting) image_iff)
  ultimately show ?thesis
    using wf unfolding jobs_wf_def maps by blast
qed

section \<open>One run changes its status\<close>

lemma jobs_invD:
  assumes "jobs_inv d s"
  shows "jobs_wf s" "b \<in> set (t_batches s) \<Longrightarrow> batch_ok s d b" "0 \<le> d x"
    "x \<notin> b_id ` set (t_batches s) \<Longrightarrow> d x = 0"
  using assms by (auto simp: jobs_inv_def)

lemma inv_move:
  assumes inv: "jobs_inv d s" and r: "find_run s rid = Some r" and j: "run_job s r = Some j"
    and runs: "t_runs s' = update_where (\<lambda>x. r_id x = rid) f (t_runs s)"
    and f: "\<And>x. r_id (f x) = r_id x \<and> r_jobId (f x) = r_jobId x"
    and jobs: "t_jobs s' = update_where P g (t_jobs s)"
    and g: "\<And>j. j_id (g j) = j_id j \<and> j_batchId (g j) = j_batchId j \<and> j_orgId (g j) = j_orgId j \<and> j_type (g j) = j_type j"
    and batches: "t_batches s' = update_where (\<lambda>b. j_batchId j = Some (b_id b)) h (t_batches s)"
    and h: "\<And>b. b_id (h b) = b_id b \<and> b_orgId (h b) = b_orgId b \<and> b_totalCount (h b) = b_totalCount b"
    and hc: "\<And>b. j_batchId j = Some (b_id b) \<Longrightarrow> counter (h b) = move (r_status r) (r_status (f r)) (counter b)"
    and hs: "\<And>b. j_batchId j = Some (b_id b) \<Longrightarrow> status_ok b \<Longrightarrow> 0 \<le> counter b Pending \<Longrightarrow>
        0 < counter b (r_status r) \<Longrightarrow> status_ok (h b)"
    and nf: "r_status r \<noteq> Failed"
  shows "jobs_inv d s'"
proof -
  note wf = jobs_invD(1) [OF inv]
  have wf': "jobs_wf s'"
    by (rule jobs_wf_update [OF wf runs f jobs g batches]) (simp add: h)
  have t: "tally s' bid = (if j_batchId j = Some bid then move (r_status r) (r_status (f r)) (tally s bid) else tally s bid)" for bid
    using tally_update [OF wf r runs jobs, of bid] f g in_batch_run_job [OF j, of bid] by simp
  have ids: "b_id ` set (t_batches s') = b_id ` set (t_batches s)"
    unfolding batches by (metis (no_types, lifting) h list.set_map map_update_where)
  have "batch_ok s' d b'" if b': "b' \<in> set (t_batches s')" for b'
  proof -
    from b' obtain b where b: "b \<in> set (t_batches s)" "b' = (if j_batchId j = Some (b_id b) then h b else b)"
      unfolding batches by (auto simp: table_simps)
    from jobs_invD(2) [OF inv b(1)] have ok: "counter b = drifted (d (b_id b)) (tally s (b_id b))"
      "b_totalCount b = status_sum (counter b)" "status_ok b" by (simp_all add: batch_ok_def)
    show ?thesis
    proof (cases "j_batchId j = Some (b_id b)")
      case False
      with b ok t [of "b_id b"] show ?thesis by (simp add: batch_ok_def)
    next
      case True
      from find_run_SomeD [OF r] have "0 < tally s (b_id b) (r_status r)"
        using tally_pos [of r s "b_id b"] True in_batch_run_job [OF j] by simp
      then have pos: "0 < counter b (r_status r)"
        using nf jobs_invD(3) [OF inv, of "b_id b"] unfolding ok(1) drifted_at by auto
      have "0 \<le> counter b Pending"
        unfolding ok(1) drifted_at by simp
      with True ok(3) pos have "status_ok (h b)" by (intro hs)
      with True ok t [of "b_id b"] show ?thesis
        unfolding b(2) by (simp add: batch_ok_def h hc drifted_move)
    qed
  qed
  with inv wf' show ?thesis
    unfolding jobs_inv_def ids by blast
qed

text \<open>The batch of a job of the tables is found, and it is the job's own.\<close>

lemma job_batch_of_run:
  assumes inv: "jobs_wf s" and j: "run_job s r = Some j" and bid: "j_batchId j = Some bid"
  shows "\<exists>b. job_batch_of s (j_orgId j) (r_jobId r) = Some b \<and> b_id b = bid \<and> b \<in> set (t_batches s)"
proof -
  from run_job_SomeD [OF j] have mem: "j \<in> set (t_jobs s)" "j_id j = r_jobId r" by auto
  have d: "distinct (map j_id (t_jobs s))" "distinct (map b_id (t_batches s))"
    using inv by (simp_all add: jobs_wf_def)
  have "List.find (\<lambda>x. j_id x = r_jobId r \<and> j_orgId x = j_orgId j) (t_jobs s) = Some j"
  proof -
    have "\<exists>x. List.find (\<lambda>x. j_id x = r_jobId r \<and> j_orgId x = j_orgId j) (t_jobs s) = Some x"
      using mem find_None_iff' [of "\<lambda>x. j_id x = r_jobId r \<and> j_orgId x = j_orgId j" "t_jobs s"] by auto
    then obtain x where x: "List.find (\<lambda>x. j_id x = r_jobId r \<and> j_orgId x = j_orgId j) (t_jobs s) = Some x" ..
    from find_SomeD [OF x] mem d(1) have "x = j" by (auto simp: distinct_map inj_on_def)
    with x show ?thesis by simp
  qed
  moreover from inv mem(1) bid obtain b where b: "b \<in> set (t_batches s)" "b_id b = bid"
    unfolding jobs_wf_def by metis
  moreover have "find_batch s bid = Some b"
    unfolding find_batch_def using find_key_distinct [OF d(2) b(1,2)] .
  ultimately show ?thesis
    by (simp add: job_batch_of_def bid)
qed

lemma job_batch_of_cong:
  "t_jobs s' = t_jobs s \<Longrightarrow> t_batches s' = t_batches s \<Longrightarrow> job_batch_of s' o' jid = job_batch_of s o' jid"
  by (simp add: job_batch_of_def find_batch_def split: option.splits)

lemma update_run_tables [simp]:
  "t_runs (update_run rid f s) = update_where (\<lambda>r. r_id r = rid) f (t_runs s)"
  "t_jobs (update_run rid f s) = t_jobs s" "t_batches (update_run rid f s) = t_batches s"
  "org_queues (update_run rid f s) = org_queues s"
  by (simp_all add: update_run_def)

lemma status_ok_start:
  "status_ok b \<Longrightarrow> 0 < counter b Pending \<Longrightarrow> status_ok (count_start b)"
  unfolding status_ok_def counter_start by (auto simp: move_at count_start_def split: batch_status.splits)

lemma status_ok_completion:
  assumes "status_ok b" and "0 \<le> counter b Pending" and "0 < counter b Running"
    and "st = Success \<or> st = Failed"
  shows "status_ok (close_batch now (count_completion st Running b))"
proof -
  let ?b = "count_completion st Running b"
  have c: "counter ?b = move Running st (counter b)"
    using assms(4) by (intro counter_completion) auto
  show ?thesis
  proof (cases "b_pendingCount ?b \<le> 0 \<and> b_runningCount ?b \<le> 0")
    case True
    then show ?thesis
      by (auto simp: status_ok_def close_batch_def)
  next
    case False
    have "close_batch now ?b = ?b"
      unfolding close_batch_def if_not_P [OF False] ..
    moreover have "b_pendingCount ?b = b_pendingCount b" "b_runningCount ?b = b_runningCount b - 1"
      using fun_cong [OF c, of Pending] fun_cong [OF c, of Running] assms(4) by (auto simp: move_at)
    ultimately show ?thesis
      using assms False by (auto simp: status_ok_def split: batch_status.splits)
  qed
qed

lemma mark_started_inv:
  assumes inv: "jobs_inv d s"
  shows "jobs_inv d (fst (mark_job_run_started s now hid rid))"
proof (cases "find_run s rid")
  case None
  with inv show ?thesis by (simp add: mark_job_run_started_def)
next
  case (Some r)
  let ?f = "\<lambda>r. r\<lparr>r_status := Running, r_startedAt := Some now\<rparr>"
  let ?s1 = "update_run rid ?f s"
  note wf = jobs_invD(1) [OF inv]
  from find_run_SomeD [OF Some] obtain j where j: "run_job s r = Some j"
    using jobs_wf_run_job [OF wf] by blast
  show ?thesis
  proof (cases "r_hostId r = hid \<and> r_status r = Pending")
    case False
    with inv Some show ?thesis by (auto simp: mark_job_run_started_def)
  next
    case True
    show ?thesis
    proof (cases "j_batchId j")
      case None
      have "jobs_inv d ?s1"
        by (rule inv_move [OF inv Some j, of _ ?f "\<lambda>_. False" "\<lambda>x. x" "\<lambda>x. x"])
          (simp_all add: None True)
      with Some True j None show ?thesis by (simp add: mark_job_run_started_def Let_def)
    next
      case (Some bid)
      from job_batch_of_run [OF wf j Some] obtain b where b:
        "job_batch_of s (j_orgId j) (r_jobId r) = Some b" "b_id b = bid" by blast
      have "jobs_inv d (update_batch bid count_start ?s1)"
        by (rule inv_move [OF inv \<open>find_run s rid = Some r\<close> j, of _ ?f "\<lambda>_. False" "\<lambda>x. x" count_start])
          (simp_all add: Some True counter_start status_ok_start eq_commute [of bid])
      moreover have "job_batch_of ?s1 (j_orgId j) (r_jobId r) = Some b"
        using b(1) by (simp add: job_batch_of_cong [of ?s1 s])
      ultimately show ?thesis
        using \<open>find_run s rid = Some r\<close> True j Some b(2)
        by (simp add: mark_job_run_started_def record_job_run_started_def Let_def)
    qed
  qed
qed

lemma inv_queues:
  "t_runs s' = t_runs s \<Longrightarrow> t_jobs s' = t_jobs s \<Longrightarrow> t_batches s' = t_batches s \<Longrightarrow> jobs_inv d s' = jobs_inv d s"
proof -
  assume e: "t_runs s' = t_runs s" "t_jobs s' = t_jobs s" "t_batches s' = t_batches s"
  have "tally s' = tally s"
    by (intro ext) (simp add: tally_def in_batch_def run_job_def find_job_def e)
  then show ?thesis
    by (simp add: jobs_inv_def jobs_wf_def batch_ok_def e)
qed

lemma poll_inv:
  assumes inv: "jobs_inv d s"
  shows "jobs_inv d (fst (poll api s now hid busy))"
proof -
  have q: "jobs_inv d (fst (get_next_job_for_host api s oid hid b))" for oid b
    using inv by (simp add: inv_queues [of "fst (get_next_job_for_host api s oid hid b)" s])
  show ?thesis
  proof (cases "find_host s hid")
    case None
    with inv show ?thesis by (simp add: poll_def)
  next
    case (Some h)
    obtain s1 res where g: "get_next_job_for_host api s (h_orgId h) hid (busy = Some ''true'') = (s1, res)"
      by fastforce
    with q [of "h_orgId h" "busy = Some ''true''"] have "jobs_inv d s1" by simp
    with Some g mark_started_inv show ?thesis by (auto simp: poll_def split: option.splits)
  qed
qed

lemma progress_inv:
  assumes inv: "jobs_inv d s" and ok: "report_job_progress s now hid rid phase msg = Inr s'"
  shows "jobs_inv d s'"
proof -
  from ok obtain r v where r: "find_run s rid = Some r" and st: "r_status r = Running"
    and s': "s' = update_run rid (\<lambda>x. x\<lparr>r_result := v\<rparr>) s"
    by (auto simp: report_job_progress_def split: option.splits if_splits)
  from find_run_SomeD [OF r] obtain j where j: "run_job s r = Some j"
    using jobs_wf_run_job [OF jobs_invD(1) [OF inv]] by blast
  show ?thesis
    unfolding s'
    by (rule inv_move [OF inv r j, of _ "\<lambda>x. x\<lparr>r_result := v\<rparr>" "\<lambda>_. False" "\<lambda>x. x" "\<lambda>x. x"])
      (simp_all add: st)
qed

section \<open>Results, new jobs\<close>

lemma finish_run_tables:
  "t_runs (finish_run now r j dto s) = update_where (\<lambda>x. r_id x = r_id r)
     (\<lambda>x. x\<lparr>r_status := result_status dto, r_finishedAt := Some now, r_result := Some (result_json dto)\<rparr>) (t_runs s)"
  "t_batches (finish_run now r j dto s) = t_batches s"
  "\<exists>P g. t_jobs (finish_run now r j dto s) = update_where P g (t_jobs s) \<and>
     (\<forall>j. j_id (g j) = j_id j \<and> j_batchId (g j) = j_batchId j \<and> j_orgId (g j) = j_orgId j \<and> j_type (g j) = j_type j)"
proof -
  show "t_runs (finish_run now r j dto s) = update_where (\<lambda>x. r_id x = r_id r)
     (\<lambda>x. x\<lparr>r_status := result_status dto, r_finishedAt := Some now, r_result := Some (result_json dto)\<rparr>) (t_runs s)"
    "t_batches (finish_run now r j dto s) = t_batches s"
    by (simp_all add: finish_run_def Let_def)
  let ?g = "\<lambda>x. x\<lparr>j_payload := Some (JObj (jopt ''path'' (case j_payload j of None \<Rightarrow> None | Some p \<Rightarrow> jget p ''path'') @
                [(''staged'', JBool (result_status dto = Success))]))\<rparr>"
  show "\<exists>P g. t_jobs (finish_run now r j dto s) = update_where P g (t_jobs s) \<and>
     (\<forall>j. j_id (g j) = j_id j \<and> j_batchId (g j) = j_batchId j \<and> j_orgId (g j) = j_orgId j \<and> j_type (g j) = j_type j)"
    by (intro exI [of _ "\<lambda>x. j_type j = ''PROFILE_STAGE'' \<and> j_id x = r_jobId r"] exI [of _ ?g])
      (simp add: finish_run_def Let_def update_where_def)
qed

lemma record_completed_tables:
  assumes "job_batch_of s oid jid = Some b"
  shows "fst (record_job_run_completed s now oid jid st prior) =
    update_batch (b_id b) (\<lambda>x. close_batch now (count_completion st prior x)) s"
  using assms by (simp add: record_job_run_completed_def Let_def)

text \<open>The run of a batch is finished and counted.\<close>

lemma finish_batch_inv:
  assumes inv: "jobs_inv d s" and r: "find_run s rid = Some r" and st: "r_status r = Running"
    and j: "run_job s r = Some j" and bid: "j_batchId j = Some bid"
  shows "jobs_inv d (fst (record_job_run_completed (finish_run now r j dto s) now (j_orgId j) (r_jobId r)
    (result_status dto) Running))"
proof -
  let ?s1 = "finish_run now r j dto s"
  let ?f = "\<lambda>x. x\<lparr>r_status := result_status dto, r_finishedAt := Some now, r_result := Some (result_json dto)\<rparr>"
  let ?h = "\<lambda>x. close_batch now (count_completion (result_status dto) Running x)"
  have res: "result_status dto = Success \<or> result_status dto = Failed" by (simp add: result_status_def)
  have cc: "counter (count_completion (result_status dto) Running x) = move Running (result_status dto) (counter x)" for x
    by (rule counter_completion) (use res in auto)
  note wf = jobs_invD(1) [OF inv]
  from find_run_SomeD [OF r] have rid: "rid = r_id r" by simp
  from finish_run_tables(3) [of now r j dto s] obtain P g where
    jobs: "t_jobs ?s1 = update_where P g (t_jobs s)"
    and g: "\<And>j. j_id (g j) = j_id j \<and> j_batchId (g j) = j_batchId j \<and> j_orgId (g j) = j_orgId j \<and> j_type (g j) = j_type j"
    by blast
  have wf1: "jobs_wf ?s1"
    by (rule jobs_wf_update [OF wf finish_run_tables(1) _ jobs g, of "\<lambda>_. False" "\<lambda>x. x"])
      (simp_all add: finish_run_tables(2))
  have j1: "run_job ?s1 r = Some (if P j then g j else j)"
    using run_job_update [OF jobs] g j by simp
  have keep: "j_batchId (if P j then g j else j) = Some bid" "j_orgId (if P j then g j else j) = j_orgId j"
    using g by (simp_all add: bid)
  from job_batch_of_run [OF wf1 j1 keep(1)] obtain b where b: "job_batch_of ?s1 (j_orgId j) (r_jobId r) = Some b" "b_id b = bid"
    unfolding keep(2) by blast
  show ?thesis
    unfolding record_completed_tables [OF b(1)]
    by (rule inv_move [OF inv r j, of _ ?f P g ?h])
      (use res in \<open>simp_all add: b(2) rid bid st finish_run_tables(1,2) jobs g cc
         status_ok_completion eq_commute [of bid]\<close>)
qed

lemma finish_single_inv:
  assumes inv: "jobs_inv d s" and r: "find_run s rid = Some r" and st: "r_status r = Running"
    and j: "run_job s r = Some j" and bid: "j_batchId j = None"
  shows "jobs_inv d (finish_run now r j dto s)"
proof -
  from find_run_SomeD [OF r] have rid: "rid = r_id r" by simp
  from finish_run_tables(3) [of now r j dto s] obtain P g where
    jobs: "t_jobs (finish_run now r j dto s) = update_where P g (t_jobs s)"
    and g: "\<And>j. j_id (g j) = j_id j \<and> j_batchId (g j) = j_batchId j \<and> j_orgId (g j) = j_orgId j \<and> j_type (g j) = j_type j"
    by blast
  let ?f = "\<lambda>x. x\<lparr>r_status := result_status dto, r_finishedAt := Some now, r_result := Some (result_json dto)\<rparr>"
  show ?thesis
    by (rule inv_move [OF inv r j, of _ ?f P g "\<lambda>x. x"])
      (simp_all add: rid bid st finish_run_tables(1,2) jobs g)
qed

text \<open>Rows appended: jobs with one pending run each, in a new batch or in none.\<close>

lemma inv_append:
  assumes inv: "jobs_inv d s"
    and runs: "t_runs s' = t_runs s @ rs" and jobs: "t_jobs s' = t_jobs s @ js"
    and batches: "t_batches s' = t_batches s @ bs"
    and match: "map r_jobId rs = map j_id js" and pend: "\<And>r. r \<in> set rs \<Longrightarrow> r_status r = Pending"
    and fresh: "distinct (map j_id js)" "distinct (map r_id rs)" "distinct (map b_id bs)"
      "set (map j_id js) \<inter> j_id ` set (t_jobs s) = {}" "set (map r_id rs) \<inter> r_id ` set (t_runs s) = {}"
      "set (map b_id bs) \<inter> b_id ` set (t_batches s) = {}"
    and batch: "\<And>j bid. j \<in> set js \<Longrightarrow> j_batchId j = Some bid \<Longrightarrow>
       (\<exists>b \<in> set bs. b_id b = bid \<and> b_orgId b = j_orgId j) \<and> j_type j \<noteq> ''PLAYER_LIST_SYNC''"
    and new: "\<And>b. b \<in> set bs \<Longrightarrow> counter b = (\<lambda>_. 0)(Pending := int (count_where (\<lambda>j. j_batchId j = Some (b_id b)) js)) \<and>
       b_totalCount b = status_sum (counter b) \<and> status_ok b"
  shows "jobs_inv d s'"
proof -
  note wf = jobs_invD(1) [OF inv]
  have jr: "r_jobId ` set rs = j_id ` set js" by (metis list.set_map match)
  have dist: "distinct (map r_jobId (t_runs s'))"
    using wf fresh(1,4) unfolding runs jobs_wf_def map_append match by auto
  have "r_jobId r \<in> j_id ` set (t_jobs s')" if "r \<in> set (t_runs s')" for r
  proof -
    from that consider "r \<in> set (t_runs s)" | "r_jobId r \<in> r_jobId ` set rs" unfolding runs by auto
    then show ?thesis
      using wf unfolding jr jobs jobs_wf_def by cases auto
  qed
  moreover have "(\<exists>b \<in> set (t_batches s'). b_id b = bid \<and> b_orgId b = j_orgId j) \<and> j_type j \<noteq> ''PLAYER_LIST_SYNC''"
    if "j \<in> set (t_jobs s')" "j_batchId j = Some bid" for j bid
  proof (cases "j \<in> set (t_jobs s)")
    case True
    then show ?thesis using wf that(2) unfolding jobs_wf_def batches by (metis UnI1 set_append)
  next
    case False
    then show ?thesis using batch [OF _ that(2)] that(1) unfolding jobs batches by auto
  qed
  moreover have "distinct (map b_id (t_batches s'))" "distinct (map j_id (t_jobs s'))" "distinct (map r_id (t_runs s'))"
    using wf fresh unfolding jobs_wf_def runs jobs batches by auto
  ultimately have wf': "jobs_wf s'"
    using dist unfolding jobs_wf_def by blast
  have old: "run_job s' r = run_job s r" if "r \<in> set (t_runs s)" for r
    using jobs_wf_run_job [OF wf that] by (auto simp: run_job_def find_job_def jobs find_append)
  have "tally s' bid st = tally s bid st + (if st = Pending then int (count_where (\<lambda>j. j_batchId j = Some bid) js) else 0)" for bid st
  proof -
    have dj: "distinct (map j_id (t_jobs s'))" using wf' by (simp add: jobs_wf_def)
    have new_run: "run_job s' r = Some j" if "j \<in> set js" "r_jobId r = j_id j" for r j
      unfolding run_job_def find_job_def using that by (intro find_key_distinct [OF dj]) (auto simp: jobs)
    have "count_where (\<lambda>r. in_batch s' bid r \<and> r_status r = st) xs =
        (if st = Pending then count_where (\<lambda>j. j_batchId j = Some bid) ys else 0)"
      if "map r_jobId xs = map j_id ys" "set xs \<subseteq> set rs" "set ys \<subseteq> set js" for xs ys
      using that
    proof (induction xs arbitrary: ys)
      case Nil
      then show ?case by simp
    next
      case (Cons x xs)
      then obtain y ys' where ys: "ys = y # ys'" "r_jobId x = j_id y" "map r_jobId xs = map j_id ys'"
        by (cases ys) auto
      with Cons.prems have "run_job s' x = Some y" "r_status x = Pending"
        using new_run pend by auto
      with Cons.IH [OF ys(3)] Cons.prems ys(1) show ?case
        by (auto simp: in_batch_def)
    qed
    from this [OF match] have "count_where (\<lambda>r. in_batch s' bid r \<and> r_status r = st) rs =
        (if st = Pending then count_where (\<lambda>j. j_batchId j = Some bid) js else 0)" by simp
    moreover have "count_where (\<lambda>r. in_batch s' bid r \<and> r_status r = st) (t_runs s) =
        count_where (\<lambda>r. in_batch s bid r \<and> r_status r = st) (t_runs s)"
      by (rule count_where_cong) (simp add: in_batch_def old)
    ultimately show ?thesis by (simp add: tally_def runs)
  qed
  note t = this
  have "batch_ok s' d b" if b: "b \<in> set (t_batches s')" for b
  proof (cases "b \<in> set (t_batches s)")
    case True
    have "count_where (\<lambda>j. j_batchId j = Some (b_id b)) js = 0"
    proof -
      have "j_batchId j \<noteq> Some (b_id b)" if "j \<in> set js" for j
        using batch [OF that] fresh(6) True by fastforce
      then show ?thesis by (simp add: count_where_def)
    qed
    then have "tally s' (b_id b) = tally s (b_id b)" by (intro ext) (simp add: t)
    with jobs_invD(2) [OF inv True] show ?thesis by (simp add: batch_ok_def)
  next
    case False
    with b have bs: "b \<in> set bs" by (simp add: batches)
    with fresh(6) have nb: "b_id b \<notin> b_id ` set (t_batches s)" by auto
    then have "d (b_id b) = 0" using jobs_invD(4) [OF inv] by blast
    moreover have "tally s (b_id b) = (\<lambda>_. 0)"
    proof -
      have "\<not> in_batch s (b_id b) r" if "r \<in> set (t_runs s)" for r
        using jobs_wf_run_job [OF wf that] nb wf run_job_SomeD [of s r]
        unfolding in_batch_def jobs_wf_def by (auto split: option.splits) (metis image_eqI)
      then show ?thesis by (auto simp: tally_def count_where_def)
    qed
    ultimately show ?thesis
      using new [OF bs] by (auto simp: batch_ok_def t)
  qed
  with inv wf' show ?thesis
    unfolding jobs_inv_def batches by auto
qed

definition fresh_job :: "store \<Rightarrow> job_ids \<Rightarrow> bool" where
  "fresh_job s ids \<longleftrightarrow> ji_job ids \<notin> j_id ` set (t_jobs s) \<and> ji_run ids \<notin> r_id ` set (t_runs s)"

definition fresh_batch :: "store \<Rightarrow> id \<Rightarrow> create_batch_dto \<Rightarrow> batch_ids \<Rightarrow> bool" where
  "fresh_batch s oid dto ids \<longleftrightarrow> bi_batch ids \<notin> b_id ` set (t_batches s) \<and>
     (let sids = map si_id (batch_instances s oid dto) in
      distinct (map (bi_job ids) sids) \<and> distinct (map (bi_run ids) sids) \<and>
      bi_job ids ` set sids \<inter> j_id ` set (t_jobs s) = {} \<and>
      bi_run ids ` set sids \<inter> r_id ` set (t_runs s) = {})"

lemma insert_job_inv:
  assumes "jobs_inv d s" and "fresh_job s ids"
  shows "jobs_inv d (insert_job ids s now oid uid si ty p)"
  by (rule inv_append [OF assms(1) insert_job_tables(2,1), where bs = "[]"])
    (use assms(2) in \<open>auto simp: fresh_job_def\<close>)

lemma create_job_inv:
  assumes "jobs_inv d s" and "fresh_job s ids" and "create_job ids s now oid uid sid ty p = Inr (s', r)"
  shows "jobs_inv d s'"
  using create_job_InrD [OF assms(3)] insert_job_inv [OF assms(1,2)] by blast

lemma create_batch_inv:
  assumes inv: "jobs_inv d s" and fresh: "fresh_batch s oid dto ids" and dto: "create_batch_dto_ok dto"
    and ok: "create_batch ids s now oid uid dto = Inr (s', b)"
  shows "jobs_inv d s'"
proof -
  let ?is = "batch_instances s oid dto"
  note c = create_batch_InrD [OF ok]
  have ty: "batch_type_to_job_type (cb_type dto) \<noteq> ''PLAYER_LIST_SYNC''"
    using dto by (auto simp: create_batch_dto_ok_def batch_types_def batch_type_to_job_type_def)
  have n: "0 < length ?is" using c dto by (simp add: create_batch_dto_ok_def)
  have cnt: "count_where (\<lambda>j. j_batchId j = Some (b_id b)) (map (batch_job_row ids now oid uid dto) ?is) = length ?is"
  proof -
    have "count_where (\<lambda>j. j_batchId j = Some (bi_batch ids)) (map (batch_job_row ids now oid uid dto) xs) = length xs" for xs
      by (induction xs) (simp_all add: batch_job_row_def)
    then show ?thesis using c by (simp add: new_batch_def)
  qed
  have nb: "counter b = (\<lambda>_. 0)(Pending := int (length ?is))"
    using c by (intro ext, case_tac x) (simp_all add: new_batch_def)
  show ?thesis
  proof (rule inv_append [OF inv, of s' "map (batch_run_row ids now) ?is"
        "map (batch_job_row ids now oid uid dto) ?is" "[b]"])
    show "map r_jobId (map (batch_run_row ids now) ?is) = map j_id (map (batch_job_row ids now oid uid dto) ?is)"
      by (simp add: batch_run_row_def batch_job_row_def)
    show "counter b' = (\<lambda>_. 0)(Pending := int (count_where (\<lambda>j. j_batchId j = Some (b_id b'))
        (map (batch_job_row ids now oid uid dto) ?is))) \<and> b_totalCount b' = status_sum (counter b') \<and> status_ok b'"
      if "b' \<in> set [b]" for b'
    proof -
      have "b_totalCount b = int (length ?is)" "b_status b = BRunning"
        using c by (simp_all add: new_batch_def)
      moreover have "b' = b" using that by simp
      ultimately show ?thesis
        using n unfolding \<open>b' = b\<close> cnt nb status_ok_def by (simp add: status_sum_def)
    qed
  qed (use c fresh ty in \<open>auto simp: fresh_batch_def Let_def batch_run_row_def batch_job_row_def new_batch_def
         comp_def image_image\<close>)
qed

section \<open>Cancellation\<close>

fun somes :: "'a option list \<Rightarrow> 'a list" where
  "somes [] = []"
| "somes (None # xs) = somes xs"
| "somes (Some x # xs) = x # somes xs"

lemma set_somes: "x \<in> set (somes xs) \<longleftrightarrow> Some x \<in> set xs"
  by (induction xs rule: somes.induct) auto

lemma latest_run_SomeD:
  assumes "latest_run s jid = Some r"
  shows "r \<in> set (t_runs s) \<and> r_jobId r = jid"
proof -
  have "foldl (\<lambda>best r. case best of None \<Rightarrow> Some r
     | Some b \<Rightarrow> if r_createdAt b \<le> r_createdAt r then Some r else Some b) best xs = Some r \<Longrightarrow>
     r \<in> set xs \<or> best = Some r" for best :: "job_run option" and xs r
    by (induction xs arbitrary: best) (fastforce split: option.splits if_splits)+
  from this [of None "filter (\<lambda>r. r_jobId r = jid) (t_runs s)" r] assms show ?thesis
    by (simp add: latest_run_def)
qed

lemma latest_run_unique:
  assumes wf: "jobs_wf s" and r: "r \<in> set (t_runs s)"
  shows "latest_run s (r_jobId r) = Some r"
proof -
  from wf have d: "distinct (map r_jobId (t_runs s))" by (simp add: jobs_wf_def)
  obtain l u where lu: "t_runs s = l @ r # u" using r by (auto simp: in_set_conv_decomp)
  have "r_jobId x \<noteq> r_jobId r" if "x \<in> set l \<union> set u" for x
    using that d unfolding lu by (auto simp: image_iff)
  then have "filter (\<lambda>x. r_jobId x = r_jobId r) l = []" "filter (\<lambda>x. r_jobId x = r_jobId r) u = []"
    by (auto simp: filter_empty_conv)
  then have "filter (\<lambda>x. r_jobId x = r_jobId r) (t_runs s) = [r]" unfolding lu by simp
  then show ?thesis by (simp add: latest_run_def)
qed

lemma cancel_run_tables:
  "t_runs (cancel_run rm now oid r s) = update_where (\<lambda>x. r_id x = r_id r)
     (\<lambda>x. x\<lparr>r_status := Cancelled, r_finishedAt := Some now\<rparr>) (t_runs s)"
  "t_jobs (cancel_run rm now oid r s) = t_jobs s" "t_batches (cancel_run rm now oid r s) = t_batches s"
  by (simp_all add: cancel_run_def Let_def)

lemma cancel_run_wf: "jobs_wf s \<Longrightarrow> jobs_wf (cancel_run rm now oid r s)"
  by (rule jobs_wf_update [OF _ cancel_run_tables(1), where P = "\<lambda>_. False" and g = "\<lambda>x. x"
        and B = "\<lambda>_. False" and h = "\<lambda>x. x"])
    (simp_all add: cancel_run_tables)

lemma cancel_run_other:
  assumes "find_run s (r_id x) = Some x" and "r_id x \<noteq> r_id r"
  shows "find_run (cancel_run rm now oid r s) (r_id x) = Some x"
proof -
  have "List.find (\<lambda>y. r_id y = r_id x) (t_runs (cancel_run rm now oid r s)) =
      map_option (\<lambda>y. if r_id y = r_id r then y\<lparr>r_status := Cancelled, r_finishedAt := Some now\<rparr> else y) (Some x)"
    unfolding cancel_run_tables using assms(1)
    by (subst find_update_where) (simp_all add: find_run_def)
  with assms(2) show ?thesis by (simp add: find_run_def)
qed

lemma in_batch_jobs: "t_jobs s' = t_jobs s \<Longrightarrow> in_batch s' bid r = in_batch s bid r"
  by (simp add: in_batch_def run_job_def find_job_def)

lemma cancel_runs_spec:
  assumes "jobs_wf s" and "distinct (map r_id (somes rs))"
    and "\<And>r. r \<in> set (somes rs) \<Longrightarrow> find_run s (r_id r) = Some r \<and> in_batch s bid r"
    and "cancel_runs rm now oid rs s = (s', n)"
  shows "t_jobs s' = t_jobs s \<and> t_batches s' = t_batches s \<and> jobs_wf s' \<and> 0 \<le> n \<and>
    tally s' bid = move_many n Pending Cancelled (tally s bid) \<and>
    (\<forall>b. b \<noteq> bid \<longrightarrow> tally s' b = tally s b) \<and>
    (\<forall>x \<in> set (t_runs s'). r_status x = Pending \<longrightarrow> x \<in> set (t_runs s) \<and> Some x \<notin> set rs)"
  using assms
proof (induction rs arbitrary: s n)
  case Nil
  then show ?case by simp
next
  case (Cons o' rs)
  have mono: "find_run s (r_id r) = Some r \<and> in_batch s bid r" if "r \<in> set (somes rs)" for r
    using Cons.prems(3) [of r] that by (cases o') auto
  have dist: "distinct (map r_id (somes rs))"
    using Cons.prems(2) by (cases o') auto
  show ?case
  proof (cases "\<exists>r. o' = Some r \<and> r_status r = Pending")
    case False
    then have "cancel_runs rm now oid rs s = (s', n)"
      using Cons.prems(4) by (auto split: option.splits)
    from Cons.IH [OF Cons.prems(1) dist mono this] False show ?thesis by auto
  next
    case True
    then obtain r where r: "o' = Some r" "r_status r = Pending" by blast
    let ?s1 = "cancel_run rm now oid r s"
    from Cons.prems(4) r obtain m where m: "cancel_runs rm now oid rs ?s1 = (s', m)" "n = m + 1"
      by (auto split: prod.splits)
    have fr: "find_run s (r_id r) = Some r" "in_batch s bid r"
      using Cons.prems(3) [of r] r(1) by simp_all
    have "r_id x \<noteq> r_id r" if "x \<in> set (somes rs)" for x
      using Cons.prems(2) that r(1) by (auto simp: image_iff)
    then have keep: "find_run ?s1 (r_id x) = Some x \<and> in_batch ?s1 bid x" if "x \<in> set (somes rs)" for x
      using that mono [OF that] cancel_run_other in_batch_jobs [OF cancel_run_tables(2)] by blast
    have t: "tally ?s1 b = (if in_batch s b r then move Pending Cancelled (tally s b) else tally s b)" for b
      using tally_update [OF Cons.prems(1) fr(1) cancel_run_tables(1), where P = "\<lambda>_. False" and g = "\<lambda>x. x" and bid = b] r(2)
      by (simp add: cancel_run_tables)
    have other: "\<not> in_batch s b r" if "b \<noteq> bid" for b
      using fr(2) that by (auto simp: in_batch_def split: option.splits)
    have one: "x \<in> set (t_runs s) \<and> x \<noteq> r" if "x \<in> set (t_runs ?s1)" "r_status x = Pending" for x
    proof -
      from that(1) obtain y where y: "y \<in> set (t_runs s)"
        "x = (if r_id y = r_id r then y\<lparr>r_status := Cancelled, r_finishedAt := Some now\<rparr> else y)"
        unfolding cancel_run_tables set_update_where by blast
      with that(2) have "r_id y \<noteq> r_id r" by auto
      with y show ?thesis by auto
    qed
    note ih = Cons.IH [OF cancel_run_wf [OF Cons.prems(1)] dist keep m(1)]
    have "tally s' bid = move_many n Pending Cancelled (tally s bid)"
      using ih fr(2) t [of bid] unfolding m(2) move_many_Suc by metis
    moreover have "tally s' b = tally s b" if "b \<noteq> bid" for b
      using ih that other [OF that] t [of b] by metis
    moreover have "x \<in> set (t_runs s) \<and> Some x \<notin> set (o' # rs)" if "x \<in> set (t_runs s')" "r_status x = Pending" for x
      using ih that one [of x] r(1) by auto
    moreover have "t_jobs s' = t_jobs s" "t_batches s' = t_batches s" "jobs_wf s'" "0 \<le> n"
      using ih m(2) by (simp_all add: cancel_run_tables)
    ultimately show ?thesis by blast
  qed
qed

lemma cancel_batch_spec:
  assumes inv: "jobs_inv d s" and ok: "cancel_batch rm s now oid bid = Inr (s', sm, ev)"
  shows "jobs_inv d s' \<and> (\<forall>r \<in> set (t_runs s'). in_batch s' bid r \<longrightarrow> r_status r \<noteq> Pending) \<and>
    (\<exists>b \<in> set (t_batches s'). b_id b = bid \<and> b_status b = BCancelled \<and> sm = b)"
proof -
  note wf = jobs_invD(1) [OF inv]
  let ?rs = "map (\<lambda>j. latest_run s (j_id j)) (filter (\<lambda>j. j_batchId j = Some bid) (t_jobs s))"
  obtain s1 n where c: "cancel_runs rm now oid ?rs s = (s1, n)" by fastforce
  define f where "f = (\<lambda>b :: job_batch. b\<lparr>b_status := BCancelled, b_pendingCount := b_pendingCount b - n,
     b_cancelledCount := b_cancelledCount b + n, b_completedAt := Some now\<rparr>)"
  from ok c obtain b where b: "b \<in> set (t_batches s)" "b_id b = bid"
    and s': "t_runs s' = t_runs s1" "t_jobs s' = t_jobs s1"
      "t_batches s' = update_where (\<lambda>b. b_id b = bid) f (t_batches s1)" and sm: "sm = f b"
    by (auto simp: cancel_batch_def f_def Let_def split: option.splits if_splits dest: find_SomeD)
  have rs: "\<exists>j \<in> set (t_jobs s). j_batchId j = Some bid \<and> latest_run s (j_id j) = Some r"
    if "Some r \<in> set ?rs" for r
    using that by (auto simp: eq_commute [of "Some r"])
  have mem: "find_run s (r_id r) = Some r \<and> in_batch s bid r" if "r \<in> set (somes ?rs)" for r
  proof -
    from that have "Some r \<in> set ?rs" by (simp add: set_somes)
    from rs [OF this] obtain j where j: "j \<in> set (t_jobs s)" "j_batchId j = Some bid" "latest_run s (j_id j) = Some r"
      by blast
    from latest_run_SomeD [OF j(3)] have r: "r \<in> set (t_runs s)" "r_jobId r = j_id j" by auto
    have "run_job s r = Some j"
      using find_key_distinct [of j_id "t_jobs s" j] j(1) r(2) wf
      by (simp add: run_job_def find_job_def jobs_wf_def)
    with j(2) r jobs_wf_find_run [OF wf r(1)] show ?thesis by (simp add: in_batch_run_job)
  qed
  have dist: "distinct (map r_id (somes ?rs))"
  proof -
    have "distinct (map r_id (somes (map (\<lambda>j. latest_run s (j_id j)) js)))"
      if "distinct (map j_id js)" for js :: "job list"
      using that
    proof (induction js)
      case Nil
      then show ?case by simp
    next
      case (Cons j js)
      have "r_id x \<noteq> r_id r" if "latest_run s (j_id j) = Some r"
        "x \<in> set (somes (map (\<lambda>j. latest_run s (j_id j)) js))" for r x
      proof
        assume e: "r_id x = r_id r"
        from that(2) have "Some x \<in> set (map (\<lambda>j. latest_run s (j_id j)) js)" by (simp add: set_somes)
        then obtain j' where j': "j' \<in> set js" "latest_run s (j_id j') = Some x"
          by (auto simp: eq_commute [of "Some x"])
        note l = latest_run_SomeD [OF that(1)] latest_run_SomeD [OF j'(2)]
        have "find_run s (r_id x) = Some x" "find_run s (r_id r) = Some r"
          using jobs_wf_find_run [OF wf] l by blast+
        then have "x = r" unfolding e by (metis option.inject)
        with l have "j_id j = j_id j'" by metis
        with Cons.prems j'(1) show False by auto
      qed
      then have new: "r_id r \<notin> r_id ` set (somes (map (\<lambda>j. latest_run s (j_id j)) js))"
        if "latest_run s (j_id j) = Some r" for r
        using that by (metis imageE)
      have ih: "distinct (map r_id (somes (map (\<lambda>j. latest_run s (j_id j)) js)))"
        using Cons by simp
      show ?case
      proof (cases "latest_run s (j_id j)")
        case None
        with ih show ?thesis by simp
      next
        case (Some r)
        with ih new [OF Some] show ?thesis by simp
      qed
    qed
    with wf show ?thesis by (simp add: jobs_wf_def distinct_map_filter)
  qed
  note spec = cancel_runs_spec [OF wf dist mem c]
  have t: "tally s' x = tally s1 x" for x
    by (intro ext) (simp add: tally_def in_batch_def run_job_def find_job_def s')
  from spec have wf1: "jobs_wf s1" by blast
  have wf': "jobs_wf s'"
    by (rule jobs_wf_update [OF wf1, of s', where R = "\<lambda>_. False" and f = "\<lambda>x. x" and P = "\<lambda>_. False"
        and g = "\<lambda>x. x" and B = "\<lambda>b. b_id b = bid" and h = f])
      (simp_all add: s' f_def)
  have ids: "b_id ` set (t_batches s') = b_id ` set (t_batches s)"
  proof -
    have "map b_id (update_where (\<lambda>b. b_id b = bid) f (t_batches s1)) = map b_id (t_batches s1)"
      by (rule map_update_where) (simp add: f_def)
    with spec show ?thesis unfolding s'(3) by (metis list.set_map)
  qed
  have "batch_ok s' d x'" if x': "x' \<in> set (t_batches s')" for x'
  proof -
    from x' spec obtain x where x: "x \<in> set (t_batches s)" "x' = (if b_id x = bid then f x else x)"
      unfolding s'(3) by (auto simp: table_simps)
    from jobs_invD(2) [OF inv x(1)] have ok: "counter x = drifted (d (b_id x)) (tally s (b_id x))"
      "b_totalCount x = status_sum (counter x)" "status_ok x" by (simp_all add: batch_ok_def)
    have cf: "counter (f x) = move_many n Pending Cancelled (counter x)"
      by (rule ext, case_tac xa) (simp_all add: f_def move_many_at)
    show ?thesis
    proof (cases "b_id x = bid")
      case True
      with x spec have "counter x' = drifted (d (b_id x')) (tally s' (b_id x'))"
        by (simp add: f_def [THEN fun_cong] cf [unfolded f_def] t drifted_move_many ok(1))
      moreover have "b_totalCount x' = status_sum (counter x')" "status_ok x'"
        using True x(2) ok(2) cf by (simp_all add: status_ok_def) (simp_all add: f_def)
      ultimately show ?thesis by (simp add: batch_ok_def)
    next
      case False
      with x ok spec show ?thesis by (simp add: batch_ok_def t)
    qed
  qed
  with inv wf' ids have "jobs_inv d s'" by (simp add: jobs_inv_def)
  moreover have "r_status r \<noteq> Pending" if r: "r \<in> set (t_runs s')" "in_batch s' bid r" for r
  proof
    assume p: "r_status r = Pending"
    with spec r(1) s'(1) have "r \<in> set (t_runs s)" "Some r \<notin> set ?rs" by auto
    moreover from r(2) spec s'(2) have "in_batch s bid r" by (simp add: in_batch_jobs [of s' s])
    then obtain j where "j \<in> set (t_jobs s)" "j_id j = r_jobId r" "j_batchId j = Some bid"
      by (auto simp: in_batch_def split: option.splits dest: run_job_SomeD)
    ultimately show False
      using latest_run_unique [OF wf, of r] by (auto simp: image_iff)
  qed
  moreover have "\<exists>b \<in> set (t_batches s'). b_id b = bid \<and> b_status b = BCancelled \<and> sm = b"
    using b spec unfolding s'(3) sm by (intro bexI [of _ "f b"]) (auto simp: f_def table_simps)
  ultimately show ?thesis by blast
qed

section \<open>The sweep of stale runs\<close>

definition stale :: "time \<Rightarrow> job_run \<Rightarrow> bool" where
  "stale now r \<longleftrightarrow> run_heartbeat r < now - 3 * 60000"

definition swept_row :: "time \<Rightarrow> job_run \<Rightarrow> job_run \<Rightarrow> job_run" where
  "swept_row now run r = r\<lparr>r_status := Failed, r_finishedAt := Some now,
     r_result := Some (JObj (jspread (run_fields run)
       [(''errorMessage'', JStr stale_message), (''recoveredAt'', JStr (iso_string now))]))\<rparr>"

lemma swept_row_simps [simp]:
  "r_id (swept_row now run r) = r_id r" "r_jobId (swept_row now run r) = r_jobId r"
  "r_hostId (swept_row now run r) = r_hostId r"
  "r_status (swept_row now run r) = Failed"
  by (simp_all add: swept_row_def)

lemma update_where_cong:
  "(\<And>x. x \<in> set rows \<Longrightarrow> P x = Q x) \<Longrightarrow> update_where P f rows = update_where Q f rows"
  by (induction rows) auto

lemma fail_stale_run_eq:
  assumes wf: "jobs_wf s" and r: "find_run s (r_id r) = Some r" and st: "r_status r = Running"
  shows "fail_stale_run now r s =
    (if stale now r then update_run (r_id r) (swept_row now r) s else s)"
proof -
  have "r_status x = Running" if "x \<in> set (t_runs s)" "r_id x = r_id r" for x
    using jobs_wf_find_run [OF wf that(1)] r st that(2) by (metis option.inject)
  then have "update_where (\<lambda>x. r_id x = r_id r \<and> r_status x = Running) (swept_row now r) (t_runs s) =
      update_where (\<lambda>x. r_id x = r_id r) (swept_row now r) (t_runs s)"
    by (intro update_where_cong) auto
  then show ?thesis
    by (simp add: fail_stale_run_def stale_def update_run_def swept_row_def [abs_def])
qed

lemma sweep_one_inv:
  assumes inv: "jobs_inv d s" and r: "find_run s (r_id r) = Some r" and st: "r_status r = Running"
  shows "jobs_inv (\<lambda>x. d x + (if in_batch s x r \<and> stale now r then 1 else 0)) (fail_stale_run now r s)"
proof (cases "stale now r")
  case False
  with inv show ?thesis by (simp add: fail_stale_run_eq [OF jobs_invD(1) [OF inv] r st])
next
  case True
  let ?s' = "update_run (r_id r) (swept_row now r) s"
  let ?d = "\<lambda>x. d x + (if in_batch s x r then 1 else 0)"
  note wf = jobs_invD(1) [OF inv]
  have t: "tally ?s' x = (if in_batch s x r then move Running Failed (tally s x) else tally s x)" for x
    using tally_update [OF wf r update_run_tables(1), where P = "\<lambda>_. False" and g = "\<lambda>x. x" and bid = x] st
    by simp
  have wf': "jobs_wf ?s'"
    by (rule jobs_wf_update [OF wf update_run_tables(1), where P = "\<lambda>_. False" and g = "\<lambda>x. x"
          and B = "\<lambda>_. False" and h = "\<lambda>x. x"]) simp_all
  have "batch_ok ?s' ?d b" if "b \<in> set (t_batches s)" for b
    using jobs_invD(2) [OF inv that] by (simp add: batch_ok_def t drifted_swept)
  moreover have "?d x = 0" if "x \<notin> b_id ` set (t_batches s)" for x
  proof -
    have "\<not> in_batch s x r"
      using that wf run_job_SomeD [of s r] unfolding in_batch_def jobs_wf_def
      by (auto split: option.splits) (metis image_eqI)
    with jobs_invD(4) [OF inv that] show ?thesis by simp
  qed
  ultimately have "jobs_inv ?d ?s'"
    using wf' jobs_invD(3) [OF inv] by (simp add: jobs_inv_def)
  with True show ?thesis by (simp add: fail_stale_run_eq [OF wf r st])
qed

lemma sweep_inv:
  assumes "jobs_inv d s" and "distinct (map r_id rs)"
    and "\<And>r. r \<in> set rs \<Longrightarrow> find_run s (r_id r) = Some r \<and> r_status r = Running"
  shows "jobs_inv (\<lambda>x. d x + int (count_where (\<lambda>r. in_batch s x r \<and> stale now r) rs))
    (fold (fail_stale_run now) rs s)"
  using assms
proof (induction rs arbitrary: s d)
  case Nil
  then show ?case by simp
next
  case (Cons r rs)
  let ?s1 = "fail_stale_run now r s"
  note wf = jobs_invD(1) [OF Cons.prems(1)]
  have r: "find_run s (r_id r) = Some r" "r_status r = Running" using Cons.prems(3) [of r] by simp_all
  note eq = fail_stale_run_eq [OF wf r]
  have keep: "find_run ?s1 (r_id x) = Some x \<and> r_status x = Running" if "x \<in> set rs" for x
  proof -
    from that Cons.prems(2) have "r_id x \<noteq> r_id r" by (auto simp: image_iff)
    then show ?thesis
      using Cons.prems(3) [of x] that unfolding eq
      by (auto simp: find_run_def update_run_def find_update_where)
  qed
  have ib: "in_batch ?s1 x y = in_batch s x y" for x y
    by (rule in_batch_jobs) (simp add: eq)
  have d: "(\<lambda>x. d x + (if in_batch s x r \<and> stale now r then 1 else 0) +
        int (count_where (\<lambda>r. in_batch s x r \<and> stale now r) rs)) =
      (\<lambda>x. d x + int (count_where (\<lambda>r. in_batch s x r \<and> stale now r) (r # rs)))"
    by (rule ext) simp
  have "distinct (map r_id rs)" using Cons.prems(2) by simp
  from Cons.IH [OF sweep_one_inv [OF Cons.prems(1) r] this keep, unfolded ib d] show ?case
    by simp
qed

lemma sweep_all_inv:
  assumes inv: "jobs_inv d s"
  shows "jobs_inv (\<lambda>x. d x + int (count_where (\<lambda>r. r_status r = Running \<and> in_batch s x r \<and> stale now r) (t_runs s)))
    (fail_stale_running_jobs s now)"
proof -
  let ?rs = "filter (\<lambda>r. r_status r = Running) (t_runs s)"
  note wf = jobs_invD(1) [OF inv]
  have dist: "distinct (map r_id ?rs)" using wf by (simp add: jobs_wf_def distinct_map_filter)
  have found: "find_run s (r_id r) = Some r \<and> r_status r = Running" if "r \<in> set ?rs" for r
    using that jobs_wf_find_run [OF wf] by auto
  note sweep_inv [OF inv dist found]
  moreover have "count_where P (filter Q xs) = count_where (\<lambda>r. Q r \<and> P r) xs" for P Q and xs :: "job_run list"
    by (induction xs) auto
  ultimately show ?thesis by (simp add: fail_stale_running_jobs_def)
qed

section \<open>The system\<close>

text \<open>
  One transition per request the services handle, with the freshness of generated ids and
  the validation of the batch DTO as guards, and, when \<open>sweeping\<close>, the sweep.  What the
  player synchronisation does in a step is any of \<open>syncs\<close>: the clock and the answers of the
  outside world differ from report to report.
\<close>

inductive job_step :: "bull_api \<Rightarrow> 'm sync_fun set \<Rightarrow> bool \<Rightarrow> 'm \<times> store \<Rightarrow> 'm \<times> store \<Rightarrow> bool"
  for api :: bull_api and syncs :: "'m sync_fun set" and sweeping :: bool where
  create_job: "fresh_job s ids \<Longrightarrow> create_job ids s now oid uid sid ty p = Inr (s', r) \<Longrightarrow>
    job_step api syncs sweeping (m, s) (m, s')"
| create_batch: "fresh_batch s oid dto ids \<Longrightarrow> create_batch_dto_ok dto \<Longrightarrow>
    create_batch ids s now oid uid dto = Inr (s', b) \<Longrightarrow> job_step api syncs sweeping (m, s) (m, s')"
| poll: "poll api s now hid busy = (s', d) \<Longrightarrow> job_step api syncs sweeping (m, s) (m, s')"
| progress: "report_job_progress s now hid rid phase msg = Inr s' \<Longrightarrow> job_step api syncs sweeping (m, s) (m, s')"
| result: "sync \<in> syncs \<Longrightarrow> report_job_result sync m s now hid rid dto = (ms', res) \<Longrightarrow> job_step api syncs sweeping (m, s) ms'"
| cancel: "cancel_batch rm s now oid bid = Inr (s', sm, ev) \<Longrightarrow> job_step api syncs sweeping (m, s) (m, s')"
| sweep: "sweeping \<Longrightarrow> job_step api syncs sweeping (m, s) (m, fail_stale_running_jobs s now)"

inductive_cases job_stepE: "job_step api syncs sweeping x y"

definition job_reach :: "bull_api \<Rightarrow> 'm sync_fun set \<Rightarrow> bool \<Rightarrow> 'm \<times> store \<Rightarrow> 'm \<times> store \<Rightarrow> bool" where
  "job_reach api syncs sweeping = (job_step api syncs sweeping)\<^sup>*\<^sup>*"

text \<open>
  What the job service needs of the player synchronisation it calls: it keeps the invariant
  of jobs and batches.
\<close>

locale player_sync =
  fixes syncs :: "'m sync_fun set"
  assumes sync_inv: "sync \<in> syncs \<Longrightarrow> jobs_inv d s \<Longrightarrow> jobs_inv d (snd (fst (sync m s oid sid out)))"
begin

lemma report_inv:
  assumes sync: "sync \<in> syncs" and inv: "jobs_inv d s"
  shows "jobs_inv d (snd (fst (report_job_result sync m s now hid rid dto)))"
proof (cases "\<exists>r. find_run s rid = Some r \<and> r_hostId r = hid \<and> r_status r = Running")
  case False
  with inv show ?thesis by (auto simp: report_job_result_def split: option.splits)
next
  case True
  then obtain r where r: "find_run s rid = Some r" "r_hostId r = hid" "r_status r = Running" by blast
  note wf = jobs_invD(1) [OF inv]
  from find_run_SomeD [OF r(1)] obtain j where j: "run_job s r = Some j"
    using jobs_wf_run_job [OF wf] by blast
  show ?thesis
  proof (cases "j_batchId j")
    case None
    from finish_single_inv [OF inv r(1,3) j None] sync_inv [OF sync]
    have "jobs_inv d (snd (fst (sync_output sync m (finish_run now r j dto s) j dto)))"
      by (auto simp: sync_output_def split: option.splits)
    with r j None show ?thesis
      by (auto simp: report_job_result_def split: prod.splits option.splits)
  next
    case (Some bid)
    with run_job_SomeD [OF j] wf have "j_type j \<noteq> ''PLAYER_LIST_SYNC''"
      unfolding jobs_wf_def by blast
    then have so: "sync_output sync m s' j dto = ((m, s'), None)" for s'
      by (simp add: sync_output_def split: option.splits)
    obtain s2 ev where c: "record_job_run_completed (finish_run now r j dto s) now (j_orgId j) (r_jobId r)
        (result_status dto) Running = (s2, ev)" by fastforce
    with finish_batch_inv [OF inv r(1,3) j Some, of now dto] have "jobs_inv d s2" by simp
    with r j Some c show ?thesis
      by (simp add: report_job_result_def so)
  qed
qed

lemma step_inv:
  assumes "job_step api syncs False x y" and "jobs_inv d (snd x)"
  shows "jobs_inv d (snd y)"
  using assms
proof (induction rule: job_step.induct)
  case (result sync m s now hid rid dto ms' res)
  with report_inv [of sync d s m now hid rid dto] show ?case by simp
next
  case (poll s now hid busy s' dd m)
  with poll_inv [of d s api now hid busy] show ?case by simp
next
  case (create_batch s oid dto ids now uid s' b m)
  then show ?case by (auto intro: create_batch_inv)
next
  case (cancel rm s now oid bid s' sm ev m)
  then show ?case using cancel_batch_spec by fastforce
qed (auto intro: create_job_inv progress_inv)

lemma step_sweep_inv:
  assumes "job_step api syncs sw x y" and "jobs_inv d (snd x)"
  shows "\<exists>d'. jobs_inv d' (snd y) \<and> (\<forall>b. d b \<le> d' b)"
proof (cases "job_step api syncs False x y")
  case True
  from step_inv [OF True assms(2)] show ?thesis by blast
next
  case False
  with assms(1) obtain m s now where "x = (m, s)" "y = (m, fail_stale_running_jobs s now)"
    by (auto elim!: job_stepE intro: job_step.intros)
  with sweep_all_inv [of d s now] assms(2) show ?thesis by (intro exI conjI) auto
qed

lemma reach_inv:
  assumes "job_reach api syncs False x y" and "jobs_inv d (snd x)"
  shows "jobs_inv d (snd y)"
  using assms unfolding job_reach_def
  by (induction rule: rtranclp_induct) (auto intro: step_inv)

lemma reach_sweep_inv:
  assumes "job_reach api syncs sw x y" and "jobs_inv d (snd x)"
  shows "\<exists>d'. jobs_inv d' (snd y) \<and> (\<forall>b. d b \<le> d' b)"
  using assms unfolding job_reach_def
proof (induction rule: rtranclp_induct)
  case base
  then show ?case by blast
next
  case (step y z)
  then obtain d' where d': "jobs_inv d' (snd y)" "\<forall>b. d b \<le> d' b" by blast
  from step_sweep_inv [OF step.hyps(2) d'(1)] obtain d'' where "jobs_inv d'' (snd z)" "\<forall>b. d' b \<le> d'' b"
    by blast
  with d'(2) show ?case by (meson order_trans)
qed

end

end
