(* ===== verification/SampleWorld.thy ===== *)
theory SampleWorld
  imports JobSystem
begin

text \<open>
  A small installation for the witnesses: one organisation with an administrator and a
  viewer, one host with a reachable game, one server; and a source of fresh job ids (longer
  than every id in use).
\<close>

definition sample_host :: host where
  "sample_host = \<lparr>h_id = ''h'', h_orgId = ''o'', h_name = ''host'', h_lastHeartbeatAt = Some 0,
     h_agentVersion = None, h_agentKeyVersion = 1, h_status = Some ''online'',
     h_lastMetrics = Some (JObj [(''gameReachable'', JBool True)]), h_labels = None, h_createdAt = 0\<rparr>"

definition sample_server :: server_instance where
  "sample_server = \<lparr>si_id = ''s'', si_orgId = ''o'', si_hostId = ''h'', si_gameTypeId = ''g'',
     si_name = ''server'', si_installPath = None, si_startCommand = None, si_telnetHost = None,
     si_telnetPort = None, si_telnetPassword = None, si_config = None, si_createdAt = 0\<rparr>"

definition sample_world :: store where
  "sample_world = empty_store\<lparr>t_orgs := [new_org ''o'' ''Org'' ''org'' 0],
     t_roles := [\<lparr>role_id = ''ra'', role_name = ''admin''\<rparr>, \<lparr>role_id = ''rv'', role_name = ''viewer''\<rparr>],
     t_userOrgs := [\<lparr>uo_userId = ''u'', uo_orgId = ''o'', uo_roleId = ''ra'', uo_createdAt = 0\<rparr>,
       \<lparr>uo_userId = ''v'', uo_orgId = ''o'', uo_roleId = ''rv'', uo_createdAt = 1\<rparr>],
     t_gameTypes := [\<lparr>gt_id = ''g'', gt_slug = ''7dtd'', gt_name = ''7 Days to Die'', gt_capabilities = None\<rparr>],
     t_hosts := [sample_host], t_serverInstances := [sample_server]\<rparr>"

definition sample_job_ids :: "store \<Rightarrow> job_ids" where
  "sample_job_ids s = \<lparr>ji_job = CHR ''j'' # concat (map j_id (t_jobs s)),
     ji_run = CHR ''r'' # concat (map r_id (t_runs s))\<rparr>"

lemma length_in_concat: "x \<in> set xs \<Longrightarrow> length x \<le> length (concat xs)"
  by (induction xs) auto

lemma longer_fresh: "length (concat (map key xs)) < length k \<Longrightarrow> k \<notin> key ` set xs"
proof
  assume less: "length (concat (map key xs)) < length k" and "k \<in> key ` set xs"
  then have "k \<in> set (map key xs)" by simp
  from length_in_concat [OF this] less show False by simp
qed

lemma sample_job_ids_fresh: "fresh_job s (sample_job_ids s)"
  by (auto simp: fresh_job_def sample_job_ids_def intro!: longer_fresh)

lemma sample_world_inv: "jobs_inv (\<lambda>_. 0) sample_world"
  by (simp add: jobs_inv_def jobs_wf_def sample_world_def empty_store_def)

lemmas sample_eval = sample_world_def sample_host_def sample_server_def sample_job_ids_def
  empty_store_def new_org_def

end
