(* ===== verification/Throttle.thy ===== *)
theory Throttle
  imports Prelude
begin

text \<open>
  The interface of a throttle: a memory that decides, per key and time, whether an attempt
  is let through, and that blocks the key for a while after it was.  The services keep
  several of them (alerts about a player, kicks of a player, health samples of a host,
  pruning of an organisation's logs), each written out by hand; a client needs the three
  laws below and gets the spacing of what was let through.
\<close>

text \<open>A run of attempts in order: which key at which time was let through.\<close>

fun run_throttle ::
  "('a \<Rightarrow> time \<Rightarrow> 'm \<Rightarrow> 'm \<times> bool) \<Rightarrow> ('a \<Rightarrow> 'k) \<Rightarrow> ('a \<times> time) list \<Rightarrow> 'm \<Rightarrow> ('k \<times> time) list" where
  "run_throttle admit key [] m = []"
| "run_throttle admit key ((a, t) # as) m =
     (if snd (admit a t m) then (key a, t) # run_throttle admit key as (fst (admit a t m))
      else run_throttle admit key as (fst (admit a t m)))"

fun ordered_from :: "time \<Rightarrow> ('a \<times> time) list \<Rightarrow> bool" where
  "ordered_from t0 [] = True"
| "ordered_from t0 ((k, t) # as) = (t0 \<le> t \<and> ordered_from t as)"

text \<open>Events with one key are at least \<open>window\<close> apart.\<close>

fun spaced :: "int \<Rightarrow> ('k \<times> time) list \<Rightarrow> bool" where
  "spaced window [] = True"
| "spaced window ((k, t) # as) = ((\<forall>(k', t') \<in> set as. k' = k \<longrightarrow> window \<le> t' - t) \<and> spaced window as)"

lemma run_throttle_ordered:
  "ordered_from t0 as \<Longrightarrow> (k, t) \<in> set (run_throttle admit key as m) \<Longrightarrow> t0 \<le> t"
proof (induction as arbitrary: t0 m)
  case Nil
  then show ?case by simp
next
  case (Cons a as)
  obtain x u where a: "a = (x, u)" by fastforce
  with Cons.prems(1) have o': "t0 \<le> u" "ordered_from u as" by simp_all
  from Cons.prems(2) a have "(k, t) = (key x, u) \<or> (k, t) \<in> set (run_throttle admit key as (fst (admit x u m)))"
    by (auto split: if_splits)
  with Cons.IH [OF o'(2)] o'(1) show ?case by force
qed

locale throttle =
  fixes admit :: "'a \<Rightarrow> time \<Rightarrow> 'm \<Rightarrow> 'm \<times> bool"
    and key :: "'a \<Rightarrow> 'k"
    and recent :: "'k \<Rightarrow> time \<Rightarrow> 'm \<Rightarrow> bool"
    and window :: int
  assumes rejects: "recent (key a) t m \<Longrightarrow> \<not> snd (admit a t m)"
    and marks: "snd (admit a t m) \<Longrightarrow> t \<le> u \<Longrightarrow> u - t < window \<Longrightarrow> recent (key a) u (fst (admit a t m))"
    and keeps: "t \<le> u \<Longrightarrow> recent k u m \<Longrightarrow> recent k u (fst (admit a t m))"
begin

text \<open>A key stays blocked while it is recent, whatever is attempted meanwhile.\<close>

lemma stays_recent:
  assumes "ordered_from t0 as" and "\<And>u. t0 \<le> u \<Longrightarrow> u < stop \<Longrightarrow> recent k u m"
    and "(k, t) \<in> set (run_throttle admit key as m)"
  shows "stop \<le> t"
  using assms
proof (induction as arbitrary: t0 m)
  case Nil
  then show ?case by simp
next
  case (Cons a as)
  obtain x t' where a: "a = (x, t')" by fastforce
  show ?case
  proof (cases "stop \<le> t'")
    case True
    have "ordered_from t' (a # as)" using Cons.prems(1) a by simp
    from run_throttle_ordered [OF this Cons.prems(3)] True show ?thesis by simp
  next
    case False
    with Cons.prems(1) a have t': "t0 \<le> t'" "t' < stop" "ordered_from t' as" by auto
    have "recent k u (fst (admit x t' m))" if "t' \<le> u" "u < stop" for u
      using Cons.prems(2) [of u] that t'(1) by (intro keeps) auto
    moreover have "(k, t) \<in> set (run_throttle admit key as (fst (admit x t' m)))"
      using Cons.prems(3) rejects [of x t' m] Cons.prems(2) [OF t'(1,2)] a by (auto split: if_splits)
    ultimately show ?thesis by (rule Cons.IH [OF t'(3)])
  qed
qed

lemma run_spaced: "ordered_from t0 as \<Longrightarrow> spaced window (run_throttle admit key as m)"
proof (induction as arbitrary: t0 m)
  case Nil
  then show ?case by simp
next
  case (Cons a as)
  obtain x t where a: "a = (x, t)" by fastforce
  from Cons.prems a have o': "ordered_from t as" by simp
  have "t + window \<le> t'"
    if "snd (admit x t m)" "(key x, t') \<in> set (run_throttle admit key as (fst (admit x t m)))" for t'
    by (rule stays_recent [OF o' _ that(2)]) (auto intro: marks [OF that(1)])
  then have "window \<le> t' - t"
    if "snd (admit x t m)" "(key x, t') \<in> set (run_throttle admit key as (fst (admit x t m)))" for t'
    using that by force
  with Cons.IH [OF o', of "fst (admit x t m)"] a show ?case by auto
qed

end

end
