(* ===== verification/Discord.thy ===== *)
theory Discord
  imports JsValues Schema Calendar Throttle
begin

text \<open>
  \<open>discord/discord.service.ts\<close> and \<open>alerts/formatters/discord-alert.formatter.ts\<close>: the
  rate limiter, the retry loop and the embeds.  The webhook is a parameter: \<open>post n\<close> is
  what the \<open>n\<close>-th request of a call returns.  The pictograms at the head of the titles lie
  outside the character range of the model and are a datatype.
\<close>

section \<open>Payloads\<close>

datatype icon = RedCircle | OrangeCircle | PurpleCircle | Camera | GreenCircle | WhiteCircle
  | TestTube | SpeechBalloon

record embed_field =
  ef_name :: string
  ef_value :: string
  ef_inline :: bool

record embed =
  em_icon :: "icon option"
  em_title :: string
  em_description :: "string option"
  em_color :: int
  em_fields :: "embed_field list option"
  em_footer :: string
  em_timestamp :: string

type_synonym payload = "embed list"

definition alert_types :: "string list" where
  "alert_types = [''SERVER_DOWN'', ''SERVER_RESTART'', ''AGENT_OFFLINE'', ''FRIGATE_DETECTION'',
     ''PLAYER_CONNECTED'', ''PLAYER_DISCONNECTED'']"

text \<open>The score is in thousandths; a score the context does not have is None.\<close>

record alert_context =
  ac_orgId :: id
  ac_orgName :: "string option"
  ac_serverInstanceId :: "id option"
  ac_serverInstanceName :: "string option"
  ac_hostId :: "id option"
  ac_hostName :: "string option"
  ac_lastHeartbeatAt :: "string option"
  ac_reason :: "string option"
  ac_frigateCamera :: "string option"
  ac_frigateLabel :: "string option"
  ac_frigateScore :: "int option"
  ac_playerName :: "string option"
  ac_steamId :: "string option"
  ac_eosId :: "string option"
  ac_sessionSeconds :: "int option"

definition alert_colors :: "string \<Rightarrow> int" where
  "alert_colors ty =
    (if ty = ''SERVER_DOWN'' then 0xe74c3c else if ty = ''SERVER_RESTART'' then 0xf39c12
     else if ty = ''AGENT_OFFLINE'' then 0x9b59b6 else if ty = ''FRIGATE_DETECTION'' then 0x3498db
     else if ty = ''PLAYER_CONNECTED'' then 0x2ecc71 else if ty = ''PLAYER_DISCONNECTED'' then 0x95a5a6
     else 0x95a5a6)"

definition get_title :: "string \<Rightarrow> icon option \<times> string" where
  "get_title ty =
    (if ty = ''SERVER_DOWN'' then (Some RedCircle, ''Server down'')
     else if ty = ''SERVER_RESTART'' then (Some OrangeCircle, ''Server restart'')
     else if ty = ''AGENT_OFFLINE'' then (Some PurpleCircle, ''Agent offline'')
     else if ty = ''FRIGATE_DETECTION'' then (Some Camera, ''Frigate detection event'')
     else if ty = ''PLAYER_CONNECTED'' then (Some GreenCircle, ''Player connected'')
     else if ty = ''PLAYER_DISCONNECTED'' then (Some WhiteCircle, ''Player disconnected'')
     else (None, ''Alert: '' @ ty))"

definition format_duration :: "int \<Rightarrow> string" where
  "format_duration totalSeconds =
    (let seconds = max 0 totalSeconds;
         hours = seconds div 3600; minutes = (seconds mod 3600) div 60; remainder = seconds mod 60
     in join_with '' '' (filter (\<lambda>x. x \<noteq> [])
          [if hours \<noteq> 0 then int_string hours @ ''h'' else [],
           if minutes \<noteq> 0 then int_string minutes @ ''m'' else [],
           int_string remainder @ ''s'']))"

text \<open>\<open>if (v) fields.push(...)\<close>: the empty string is falsy too.\<close>

definition push_if :: "string option \<Rightarrow> string \<Rightarrow> bool \<Rightarrow> embed_field list" where
  "push_if v name inl = (case v of None \<Rightarrow> []
     | Some x \<Rightarrow> if x = [] then [] else [\<lparr>ef_name = name, ef_value = x, ef_inline = inl\<rparr>])"

text \<open>\<open>Math.round(score * 100)\<close> of a score in thousandths.\<close>

definition round_percent :: "int \<Rightarrow> int" where
  "round_percent thousandths = (thousandths + 5) div 10"

definition build_embed :: "time \<Rightarrow> string \<Rightarrow> alert_context \<Rightarrow> embed" where
  "build_embed now ty ctx =
    (let fields =
       push_if (ac_orgName ctx) ''Org'' True @ push_if (ac_serverInstanceName ctx) ''Server'' True @
       push_if (ac_hostName ctx) ''Host'' True @ push_if (ac_serverInstanceId ctx) ''Server ID'' False @
       push_if (ac_hostId ctx) ''Host ID'' False @
       push_if (ac_lastHeartbeatAt ctx) ''Last heartbeat'' False @
       push_if (ac_reason ctx) ''Reason'' False @ push_if (ac_frigateCamera ctx) ''Camera'' True @
       push_if (ac_frigateLabel ctx) ''Detected'' True @
       (case ac_frigateScore ctx of None \<Rightarrow> []
        | Some sc \<Rightarrow> [\<lparr>ef_name = ''Confidence'', ef_value = int_string (round_percent sc) @ ''%'', ef_inline = True\<rparr>]) @
       push_if (ac_playerName ctx) ''Player'' True @ push_if (ac_steamId ctx) ''Steam ID'' False @
       push_if (ac_eosId ctx) ''EOS ID'' False @
       (case ac_sessionSeconds ctx of None \<Rightarrow> []
        | Some n \<Rightarrow> if ty = ''PLAYER_DISCONNECTED''
            then [\<lparr>ef_name = ''Session playtime'', ef_value = format_duration n, ef_inline = True\<rparr>] else [])
     in \<lparr>em_icon = fst (get_title ty), em_title = snd (get_title ty), em_description = None,
         em_color = alert_colors ty, em_fields = (if fields = [] then None else Some fields),
         em_footer = ''Mastermind Control Plane'', em_timestamp = iso_string now\<rparr>)"

definition format_discord_alert :: "time \<Rightarrow> string \<Rightarrow> alert_context \<Rightarrow> payload" where
  "format_discord_alert now ty ctx = [build_embed now ty ctx]"

section \<open>The rate limiter\<close>

definition max_per_window :: int where "max_per_window = 10"
definition window_ms :: int where "window_ms = 60000"

record rate_entry =
  re_count :: int
  re_windowStart :: time

type_synonym rate_map = "string \<Rightarrow> rate_entry option"

definition try_consume_rate_limit :: "rate_map \<Rightarrow> time \<Rightarrow> string \<Rightarrow> rate_map \<times> bool" where
  "try_consume_rate_limit m now key = (case m key of
     None \<Rightarrow> (m(key \<mapsto> \<lparr>re_count = 1, re_windowStart = now\<rparr>), True)
   | Some e \<Rightarrow>
       if window_ms \<le> now - re_windowStart e
       then (m(key \<mapsto> e\<lparr>re_count := 1, re_windowStart := now\<rparr>), True)
       else if max_per_window \<le> re_count e then (m, False)
       else (m(key \<mapsto> e\<lparr>re_count := re_count e + 1\<rparr>), True))"

section \<open>Sending\<close>

datatype post_result = PostOk | PostHttp int string | PostThrow string

datatype send_result = SendOk | SendFail "int option" string

definition retry_attempts :: nat where "retry_attempts = 3"
definition retry_initial_ms :: int where "retry_initial_ms = 1000"
definition retry_max_ms :: int where "retry_max_ms = 10000"

text \<open>
  The retry loop: \<open>left\<close> attempts remain, \<open>attempt\<close> is the loop variable.  The second
  component lists the sleeps.  A status 0 is falsy.
\<close>

fun send_loop :: "(nat \<Rightarrow> post_result) \<Rightarrow> nat \<Rightarrow> nat \<Rightarrow> int \<Rightarrow> (int option \<times> string option) \<Rightarrow> send_result \<times> int list" where
  "send_loop post 0 attempt delay (st, err) =
     (SendFail st (case err of None \<Rightarrow> ''Unknown error'' | Some e \<Rightarrow> e), [])"
| "send_loop post (Suc left) attempt delay prior = (case post attempt of
     PostOk \<Rightarrow> (SendOk, [])
   | PostHttp st text \<Rightarrow>
       if st = 429 \<or> 500 \<le> st
       then (let (r, ds) = send_loop post left (attempt + 1) (min (delay * 2) retry_max_ms)
                             (Some st, Some (take 200 text))
             in (r, delay # ds))
       else (SendFail (Some st) (take 200 text), [])
   | PostThrow e \<Rightarrow> (SendFail None e, []))"

definition discord_send ::
  "(nat \<Rightarrow> post_result) \<Rightarrow> rate_map \<Rightarrow> time \<Rightarrow> string \<Rightarrow> rate_map \<times> send_result \<times> int list" where
  "discord_send post m now key =
    (let (m', ok) = try_consume_rate_limit m now key in
     if \<not> ok then (m', SendFail None ''Rate limit exceeded'', [])
     else (let (r, ds) = send_loop post retry_attempts 0 retry_initial_ms (None, None)
           in (m', r, ds)))"

section \<open>Lemmas\<close>

text \<open>The attempts on the limiter that went through, in order.\<close>

fun run_limiter :: "(string \<times> time) list \<Rightarrow> rate_map \<Rightarrow> (string \<times> time) list" where
  "run_limiter [] m = []"
| "run_limiter ((k, t) # as) m = (let (m', ok) = try_consume_rate_limit m t k in
     (if ok then (k, t) # run_limiter as m' else run_limiter as m'))"

definition in_interval :: "string \<Rightarrow> time \<Rightarrow> string \<times> time \<Rightarrow> bool" where
  "in_interval k a x \<longleftrightarrow> fst x = k \<and> a \<le> snd x \<and> snd x < a + window_ms"

definition entry_ok :: "rate_map \<Rightarrow> string \<Rightarrow> bool" where
  "entry_ok m k \<longleftrightarrow> (case m k of None \<Rightarrow> True | Some e \<Rightarrow> 1 \<le> re_count e \<and> re_count e \<le> 10)"

text \<open>
  How many more sends of the key the interval \<open>[a, a + 60 s)\<close> can see from the time
  \<open>t0\<close> on: the rest of a window that started before the interval, and one window inside it.
\<close>

definition room :: "rate_map \<Rightarrow> string \<Rightarrow> time \<Rightarrow> time \<Rightarrow> int" where
  "room m k a t0 = (case m k of None \<Rightarrow> 20
     | Some e \<Rightarrow> if a \<le> re_windowStart e then 10 - re_count e
                 else if a \<le> t0 then 20 - re_count e else 20)"

lemma limiter_step:
  assumes "entry_ok m k" and "t0 \<le> t" and "try_consume_rate_limit m t k' = (m', ok)"
  shows "entry_ok m' k \<and> (if ok \<and> in_interval k a (k', t) then 1 else 0) + room m' k a t \<le>
    (if t < a + window_ms then room m k a t0 else room m' k a t)"
  using assms
  by (auto simp: try_consume_rate_limit_def entry_ok_def room_def in_interval_def window_ms_def
      max_per_window_def split: option.splits if_splits)

lemma room_nonneg: "entry_ok m k \<Longrightarrow> 0 \<le> room m k a t0"
  by (auto simp: entry_ok_def room_def split: option.splits)

lemma late_none:
  "ordered_from t as \<Longrightarrow> a + window_ms \<le> t \<Longrightarrow> count_where (in_interval k a) (run_limiter as m) = 0"
  by (induction as m arbitrary: t rule: run_limiter.induct)
    (force simp: in_interval_def split: prod.splits)+

lemma limiter_room:
  "ordered_from t0 as \<Longrightarrow> entry_ok m k \<Longrightarrow>
   int (count_where (in_interval k a) (run_limiter as m)) \<le> room m k a t0"
proof (induction as arbitrary: t0 m)
  case Nil
  then show ?case by (simp add: room_nonneg)
next
  case (Cons x as)
  obtain k' t where x: "x = (k', t)" by fastforce
  obtain m' ok where step: "try_consume_rate_limit m t k' = (m', ok)" by fastforce
  show ?case
  proof (cases "t < a + window_ms")
    case False
    then have "count_where (in_interval k a) (run_limiter (x # as) m) = 0"
      using Cons.prems(1) x by (intro late_none [of t]) auto
    with Cons.prems(2) show ?thesis by (simp only: room_nonneg of_nat_0)
  next
    case True
    from limiter_step [OF Cons.prems(2) _ step, of t0 a] Cons.prems(1) x True have s: "entry_ok m' k"
      "(if ok \<and> in_interval k a (k', t) then 1 else 0) + room m' k a t \<le> room m k a t0" by auto
    have "int (count_where (in_interval k a) (run_limiter as m')) \<le> room m' k a t"
      by (rule Cons.IH) (use Cons.prems x s(1) in auto)
    with s(2) step x show ?thesis by (auto split: if_splits)
  qed
qed

definition retryable :: "post_result \<Rightarrow> bool" where
  "retryable r \<longleftrightarrow> (case r of PostHttp st text \<Rightarrow> st = 429 \<or> 500 \<le> st | _ \<Rightarrow> False)"

section \<open>Properties\<close>

text \<open>
  C33. The limiter bounds the requests per key: in any sequence of attempts in time order,
  starting from any state of the limiter, at most twenty of a key's attempts go through in
  any sixty seconds (ten of a window that began before, ten of the next).
\<close>

theorem discord_rate_bound:
  assumes "ordered_from t0 as" and "\<And>e. m k = Some e \<Longrightarrow> 1 \<le> re_count e \<and> re_count e \<le> 10"
  shows "count_where (\<lambda>(k', t). k' = k \<and> a \<le> t \<and> t < a + 60000) (run_limiter as m) \<le> 20"
proof -
  have ok: "entry_ok m k" using assms(2) by (simp add: entry_ok_def split: option.splits)
  have "room m k a t0 \<le> 20"
    using ok by (auto simp: room_def entry_ok_def split: option.splits)
  with limiter_room [OF assms(1) ok, of a] show ?thesis
    by (simp add: in_interval_def [abs_def] window_ms_def case_prod_unfold)
qed

theorem discord_rate_bound_witness:
  "count_where (\<lambda>(k', t). k' = ''o'' \<and> 0 \<le> t \<and> t < 60000)
     (run_limiter (replicate 12 (''o'', 5)) (\<lambda>_. None)) \<le> 20"
proof -
  have "ordered_from 5 (replicate 12 (''o'', 5))" by (simp add: numeral_eq_Suc)
  then show ?thesis
    using discord_rate_bound [of 5 "replicate 12 (''o'', 5)" "\<lambda>_. None" "''o''" 0] by simp
qed



end
