(* ===== verification/Alerts.thy ===== *)
theory Alerts
  imports Discord Throttle
begin

text \<open>
  \<open>alerts/alerts.service.ts\<close> with the handlers of \<open>alerts/alerts.controller.ts\<close>: alert
  rules, delivery to the rules that match, the suppression of repeated player alerts and the
  relay of player chat.  The service's memory is the map of recent player alerts, in
  insertion order as a JavaScript \<open>Map\<close> keeps it, and the rate limiter's map.  \<open>post url p n\<close>
  is the webhook's answer to the \<open>n\<close>-th request of a delivery.
\<close>

record alerts_mem =
  am_recent :: "(string \<times> time) list"
  am_rates :: rate_map

definition empty_alerts_mem :: alerts_mem where
  "empty_alerts_mem = \<lparr>am_recent = [], am_rates = (\<lambda>_. None)\<rparr>"

type_synonym post_fun = "string \<Rightarrow> payload \<Rightarrow> nat \<Rightarrow> post_result"

definition audit_alert :: "id \<Rightarrow> string \<Rightarrow> alert_context \<Rightarrow> bool \<Rightarrow> string option \<Rightarrow> store \<Rightarrow> store" where
  "audit_alert orgId ty ctx success err = add_audit \<lparr>al_orgId = orgId, al_actorId = None,
     al_action = ''alert_sent'', al_resourceType = ''discord'', al_resourceId = orgId,
     al_details = [(''alertType'', JStr ty), (''success'', JBool success)] @
       (case err of None \<Rightarrow> [] | Some e \<Rightarrow> if e = [] then [] else [(''error'', JStr e)]) @
       jopt ''serverInstanceId'' (map_option JStr (ac_serverInstanceId ctx)) @
       jopt ''hostId'' (map_option JStr (ac_hostId ctx)),
     al_ip = None\<rparr>"

section \<open>One alert to the organisation's webhook\<close>

datatype sent = Sent | NotSent string

definition send_alert ::
  "post_fun \<Rightarrow> alerts_mem \<Rightarrow> store \<Rightarrow> time \<Rightarrow> string \<Rightarrow> alert_context \<Rightarrow> alerts_mem \<times> store \<times> sent" where
  "send_alert post mem s now ty ctx =
    (if ty \<notin> set alert_types then (mem, s, NotSent (''Unknown alert type: '' @ ty))
     else (case map_option org_discordWebhookUrl (find_org s (ac_orgId ctx)) of
       Some (Some url) \<Rightarrow>
         if js_trim url = []
         then (mem, audit_alert (ac_orgId ctx) ty ctx False (Some ''No webhook configured'') s,
               NotSent ''No Discord webhook configured for org'')
         else
           let payload = format_discord_alert now ty (ctx\<lparr>ac_orgName := map_option org_name (find_org s (ac_orgId ctx))\<rparr>);
               (rates, result, sleeps) = discord_send (post url payload) (am_rates mem) now (ac_orgId ctx);
               mem' = mem\<lparr>am_rates := rates\<rparr>
           in (case result of
                 SendOk \<Rightarrow> (mem', audit_alert (ac_orgId ctx) ty ctx True None s, Sent)
               | SendFail st e \<Rightarrow> (mem', audit_alert (ac_orgId ctx) ty ctx False (Some e) s, NotSent e))
     | _ \<Rightarrow> (mem, audit_alert (ac_orgId ctx) ty ctx False (Some ''No webhook configured'') s,
             NotSent ''No Discord webhook configured for org'')))"

section \<open>Rules\<close>

definition list_rules :: "store \<Rightarrow> id \<Rightarrow> alert_rule list" where
  "list_rules s orgId = rev (filter (\<lambda>r. ar_orgId r = orgId) (t_alertRules s))"

definition create_rule ::
  "store \<Rightarrow> time \<Rightarrow> id \<Rightarrow> id \<Rightarrow> string \<Rightarrow> json \<Rightarrow> json \<Rightarrow> bool option \<Rightarrow> store \<times> alert_rule" where
  "create_rule s now new_id orgId name condition channel enabled =
    (let r = \<lparr>ar_id = new_id, ar_orgId = orgId, ar_name = name, ar_condition = condition,
           ar_channel = channel, ar_enabled = (case enabled of None \<Rightarrow> True | Some b \<Rightarrow> b), ar_createdAt = now\<rparr>
     in (s\<lparr>t_alertRules := t_alertRules s @ [r]\<rparr>, r))"

text \<open>The handler asks for a name, a condition and a channel that are not falsy.\<close>

definition create_rule_request ::
  "store \<Rightarrow> time \<Rightarrow> id \<Rightarrow> id \<Rightarrow> string option \<Rightarrow> json option \<Rightarrow> json option \<Rightarrow> bool option \<Rightarrow> (store \<times> alert_rule) result"
where
  "create_rule_request s now new_id orgId name condition channel enabled =
    (case (name, condition, channel) of
       (Some n, Some c, Some ch) \<Rightarrow>
         if n = [] \<or> \<not> truthy condition \<or> \<not> truthy channel
         then Inl (BadRequestException ''name, condition, and channel are required'')
         else Inr (create_rule s now new_id orgId n c ch enabled)
     | _ \<Rightarrow> Inl (BadRequestException ''name, condition, and channel are required''))"

record rule_patch =
  rp_enabled :: "bool option"
  rp_name :: "string option"
  rp_condition :: "json option"
  rp_channel :: "json option"

definition patch_rule :: "rule_patch \<Rightarrow> alert_rule \<Rightarrow> alert_rule" where
  "patch_rule p r = r\<lparr>ar_name := (case rp_name p of None \<Rightarrow> ar_name r | Some n \<Rightarrow> n),
     ar_enabled := (case rp_enabled p of None \<Rightarrow> ar_enabled r | Some b \<Rightarrow> b),
     ar_condition := (case rp_condition p of None \<Rightarrow> ar_condition r | Some c \<Rightarrow> c),
     ar_channel := (case rp_channel p of None \<Rightarrow> ar_channel r | Some c \<Rightarrow> c)\<rparr>"

definition find_rule :: "store \<Rightarrow> id \<Rightarrow> id \<Rightarrow> alert_rule option" where
  "find_rule s orgId ruleId = List.find (\<lambda>r. ar_id r = ruleId \<and> ar_orgId r = orgId) (t_alertRules s)"

definition update_rule :: "store \<Rightarrow> id \<Rightarrow> id \<Rightarrow> rule_patch \<Rightarrow> store result" where
  "update_rule s orgId ruleId p = (case find_rule s orgId ruleId of
     None \<Rightarrow> Inl (Error ''Alert rule not found'')
   | Some _ \<Rightarrow> Inr (s\<lparr>t_alertRules := update_where (\<lambda>r. ar_id r = ruleId) (patch_rule p) (t_alertRules s)\<rparr>))"

definition delete_rule :: "store \<Rightarrow> id \<Rightarrow> id \<Rightarrow> store result" where
  "delete_rule s orgId ruleId = (case find_rule s orgId ruleId of
     None \<Rightarrow> Inl (Error ''Alert rule not found'')
   | Some _ \<Rightarrow> Inr (s\<lparr>t_alertRules := delete_where (\<lambda>r. ar_id r = ruleId) (t_alertRules s)\<rparr>))"

definition update_rule_request :: "store \<Rightarrow> id \<Rightarrow> id \<Rightarrow> rule_patch \<Rightarrow> store result" where
  "update_rule_request s orgId ruleId p = plain_error_handler (update_rule s orgId ruleId p)"

definition delete_rule_request :: "store \<Rightarrow> id \<Rightarrow> id \<Rightarrow> store result" where
  "delete_rule_request s orgId ruleId = plain_error_handler (delete_rule s orgId ruleId)"

text \<open>
  The test of one rule.  \<open>parse_url\<close> is the constructor \<open>URL\<close>: the protocol, the host name
  and the path of the address, None when it throws.
\<close>

datatype rule_test = TestSent | TestFailed string

definition is_discord_webhook :: "string \<times> string \<times> string \<Rightarrow> bool" where
  "is_discord_webhook u = (case u of (protocol, hostname, pathname) \<Rightarrow>
     protocol = ''https:'' \<and> js_lower hostname \<in> set [''discord.com'', ''discordapp.com''] \<and>
     js_starts_with pathname ''/api/webhooks/'')"

definition test_payload :: "time \<Rightarrow> alert_rule \<Rightarrow> payload" where
  "test_payload now rule = [\<lparr>em_icon = Some TestTube, em_title = ''Mastermind alert pipeline test'',
     em_description = Some (''Alert rule **'' @ ar_name rule @ ''** successfully reached its configured Discord channel.''),
     em_color = 0x6366f1,
     em_fields = Some [\<lparr>ef_name = ''Result'', ef_value = ''Webhook delivery successful'', ef_inline = True\<rparr>],
     em_footer = ''Mastermind Control Plane '' @ [CHR 0xB7] @ '' Manual Test'', em_timestamp = iso_string now\<rparr>]"

definition test_rule ::
  "(string \<Rightarrow> (string \<times> string \<times> string) option) \<Rightarrow> post_fun \<Rightarrow> alerts_mem \<Rightarrow> store \<Rightarrow> time \<Rightarrow> id \<Rightarrow> id \<Rightarrow> id \<Rightarrow>
   (alerts_mem \<times> store) \<times> rule_test result" where
  "test_rule parse_url post m s now orgId ruleId userId = (case find_rule s orgId ruleId of
     None \<Rightarrow> ((m, s), Inl (Error ''Alert rule not found''))
   | Some rule \<Rightarrow>
       if js_lower (js_prop_string (ar_channel rule) ''type'' []) \<noteq> ''discord''
       then ((m, s), Inr (TestFailed (''Testing is not supported for '' @
              js_prop_string (ar_channel rule) ''type'' ''this'' @ '' channels'')))
       else let webhookUrl = js_trim (js_prop_string (ar_channel rule) ''webhookUrl'' [])
            in (case parse_url webhookUrl of
              None \<Rightarrow> ((m, s), Inr (TestFailed ''Saved Discord webhook URL is invalid''))
            | Some u \<Rightarrow>
                if \<not> is_discord_webhook u
                then ((m, s), Inr (TestFailed ''Saved channel is not a valid Discord webhook URL''))
                else (case discord_send (post webhookUrl (test_payload now rule)) (am_rates m) now (orgId @ '':rule-test'') of
                  (rate, r, _) \<Rightarrow>
                    let s' = add_audit \<lparr>al_orgId = orgId, al_actorId = Some userId, al_action = ''alert_test'',
                          al_resourceType = ''alert_rule'', al_resourceId = ruleId,
                          al_details = [(''name'', JStr (ar_name rule)), (''success'', JBool (r = SendOk))] @
                            (case r of SendOk \<Rightarrow> [] | SendFail _ e \<Rightarrow> [(''error'', JStr e)]),
                          al_ip = None\<rparr> s
                    in ((m\<lparr>am_rates := rate\<rparr>, s'),
                        Inr (case r of SendOk \<Rightarrow> TestSent | SendFail _ e \<Rightarrow> TestFailed e)))))"

section \<open>Delivery to the matching rules\<close>

definition dedupe_ms :: int where "dedupe_ms = 15000"

text \<open>\<open>context.playerName?.trim().toLocaleLowerCase() || context.steamId || context.eosId\<close>\<close>

definition first_nonempty :: "string option list \<Rightarrow> string option" where
  "first_nonempty vs = (case filter (\<lambda>v. v \<noteq> None \<and> v \<noteq> Some []) vs of [] \<Rightarrow> None | v # _ \<Rightarrow> v)"

definition alert_player :: "alert_context \<Rightarrow> string option" where
  "alert_player ctx = first_nonempty
     [map_option (\<lambda>n. js_lower (js_trim n)) (ac_playerName ctx), ac_steamId ctx, ac_eosId ctx]"

definition dedupe_key :: "string \<Rightarrow> alert_context \<Rightarrow> string \<Rightarrow> string" where
  "dedupe_key ty ctx player = ac_orgId ctx @ '':'' @
     (case ac_serverInstanceId ctx of None \<Rightarrow> ''undefined'' | Some i \<Rightarrow> i) @ '':'' @ ty @ '':'' @ player"

text \<open>
  The suppression: whether an alert with this key may go out now, and the map after; the
  map is cleaned of old entries when it has grown past a thousand.
\<close>

definition admit_lifecycle :: "string \<Rightarrow> time \<Rightarrow> (string \<times> time) list \<Rightarrow> (string \<times> time) list \<times> bool" where
  "admit_lifecycle key now recent = (case map_of recent key of
     Some previous \<Rightarrow>
       if now - previous < dedupe_ms then (recent, False)
       else (let r = jput recent key now in
             (if length r > 1000 then filter (\<lambda>(k, t). \<not> dedupe_ms \<le> now - t) r else r, True))
   | None \<Rightarrow>
       (let r = jput recent key now in
        (if length r > 1000 then filter (\<lambda>(k, t). \<not> dedupe_ms \<le> now - t) r else r, True)))"

definition rule_webhook :: "alert_rule \<Rightarrow> string option" where
  "rule_webhook r =
    (if js_lower (js_prop_string (ar_channel r) ''type'' []) \<noteq> ''discord'' then None
     else or_null (js_trim (js_prop_string (ar_channel r) ''webhookUrl'' [])))"

fun deliver ::
  "post_fun \<Rightarrow> time \<Rightarrow> string \<Rightarrow> alert_context \<Rightarrow> payload \<Rightarrow> alert_rule list \<Rightarrow> alerts_mem \<Rightarrow> store \<Rightarrow> alerts_mem \<times> store"
where
  "deliver post now ty ctx payload [] mem s = (mem, s)"
| "deliver post now ty ctx payload (r # rs) mem s = (case rule_webhook r of
     None \<Rightarrow> deliver post now ty ctx payload rs mem s
   | Some url \<Rightarrow>
       (let (rates, result, sleeps) = discord_send (post url payload) (am_rates mem) now
              (ac_orgId ctx @ '':'' @ ar_id r)
        in deliver post now ty ctx payload rs (mem\<lparr>am_rates := rates\<rparr>)
             (audit_alert (ac_orgId ctx) ty ctx (result = SendOk)
               (case result of SendOk \<Rightarrow> None | SendFail st e \<Rightarrow> Some e) s)))"

definition matching_rules :: "store \<Rightarrow> string \<Rightarrow> id \<Rightarrow> alert_rule list" where
  "matching_rules s ty orgId = filter (\<lambda>r. ar_orgId r = orgId \<and> ar_enabled r \<and>
     js_upper (js_prop_string (ar_condition r) ''type'' []) = ty) (t_alertRules s)"

definition send_matching_rules ::
  "post_fun \<Rightarrow> alerts_mem \<Rightarrow> store \<Rightarrow> time \<Rightarrow> string \<Rightarrow> alert_context \<Rightarrow> alerts_mem \<times> store" where
  "send_matching_rules post mem s now ty ctx =
    (let (recent, admitted) =
           (if ty = ''PLAYER_CONNECTED'' \<or> ty = ''PLAYER_DISCONNECTED''
            then (case alert_player ctx of
                    None \<Rightarrow> (am_recent mem, True)
                  | Some p \<Rightarrow> admit_lifecycle (dedupe_key ty ctx p) now (am_recent mem))
            else (am_recent mem, True));
         mem' = mem\<lparr>am_recent := recent\<rparr>
     in if \<not> admitted then (mem', s)
        else deliver post now ty ctx
               (format_discord_alert now ty (ctx\<lparr>ac_orgName := map_option org_name (find_org s (ac_orgId ctx))\<rparr>))
               (matching_rules s ty (ac_orgId ctx)) mem' s)"

section \<open>Relay of player chat\<close>

record chat_context =
  cc_eventId :: id
  cc_orgId :: id
  cc_serverInstanceId :: id
  cc_serverInstanceName :: string
  cc_playerName :: string
  cc_playerId :: string
  cc_channel :: string
  cc_message :: string

text \<open>
  Markdown is escaped in the name; a zero-width space, which the character range of the
  model lacks, separates the at sign from a mention.  A control character stands for it.
\<close>

definition zero_width_space :: char where
  "zero_width_space = CHR 0x8B"

definition safe_name :: "string \<Rightarrow> string" where
  "safe_name name = take 80 (concat (map (\<lambda>c. if c \<in> set ''*_`~|>'' then [CHR 0x5C, c] else [c]) name))"

definition safe_message :: "string \<Rightarrow> string" where
  "safe_message msg = take 1800 (concat (map (\<lambda>c. if c = CHR ''@'' then [c, zero_width_space] else [c]) msg))"

definition relay_rules :: "store \<Rightarrow> chat_context \<Rightarrow> alert_rule list" where
  "relay_rules s ctx = filter (\<lambda>r. ar_orgId r = cc_orgId ctx \<and> ar_enabled r \<and>
     jget (ar_condition r) ''type'' = Some (JStr ''chat_relay'') \<and>
     (\<not> truthy (jget (ar_condition r) ''serverInstanceId'') \<or>
      jget (ar_condition r) ''serverInstanceId'' = Some (JStr (cc_serverInstanceId ctx)))) (t_alertRules s)"

definition relay_payload :: "time \<Rightarrow> chat_context \<Rightarrow> payload" where
  "relay_payload now ctx = [\<lparr>em_icon = Some SpeechBalloon, em_title = safe_name (cc_playerName ctx),
     em_description = Some (safe_message (cc_message ctx)), em_color = 0x5865f2,
     em_fields = Some [\<lparr>ef_name = ''Server'', ef_value = cc_serverInstanceName ctx, ef_inline = True\<rparr>,
       \<lparr>ef_name = ''Channel'', ef_value = cc_channel ctx, ef_inline = True\<rparr>],
     em_footer = ''7DTD player chat '' @ [CHR 0xB7] @ '' '' @ cc_playerId ctx,
     em_timestamp = iso_string now\<rparr>]"

fun relay_loop ::
  "post_fun \<Rightarrow> time \<Rightarrow> chat_context \<Rightarrow> alert_rule list \<Rightarrow> rate_map \<Rightarrow> bool \<times> string option \<Rightarrow>
   rate_map \<times> bool \<times> string option" where
  "relay_loop post now ctx [] rates (configured, err) = (rates, configured, err)"
| "relay_loop post now ctx (r # rs) rates (configured, err) = (case rule_webhook r of
     None \<Rightarrow> relay_loop post now ctx rs rates (configured, err)
   | Some url \<Rightarrow>
       (let (rates', result, sleeps) = discord_send (post url (relay_payload now ctx)) rates now
              (cc_orgId ctx @ '':'' @ ar_id r @ '':'' @ cc_eventId ctx)
        in relay_loop post now ctx rs rates'
             (True, case result of SendOk \<Rightarrow> err | SendFail st e \<Rightarrow> Some e)))"

record relay_result =
  rl_configured :: bool
  rl_sent :: bool
  rl_error :: "string option"

definition relay_player_chat ::
  "post_fun \<Rightarrow> alerts_mem \<Rightarrow> store \<Rightarrow> time \<Rightarrow> chat_context \<Rightarrow> alerts_mem \<times> relay_result" where
  "relay_player_chat post mem s now ctx =
    (let (rates, configured, err) = relay_loop post now ctx (relay_rules s ctx) (am_rates mem) (False, None)
     in (mem\<lparr>am_rates := rates\<rparr>,
         \<lparr>rl_configured = configured, rl_sent = (err = None \<or> err = Some []),
          rl_error = (if err = Some [] then None else err)\<rparr>))"

section \<open>Lemmas\<close>

definition lifecycle_recent :: "string \<Rightarrow> time \<Rightarrow> (string \<times> time) list \<Rightarrow> bool" where
  "lifecycle_recent key now recent = (case map_of recent key of None \<Rightarrow> False | Some t \<Rightarrow> now - t < dedupe_ms)"

lemma map_of_filter_keep:
  "map_of xs k = Some v \<Longrightarrow> P (k, v) \<Longrightarrow> map_of (filter P xs) k = Some v"
  by (induction xs) (auto split: if_splits)

lemma admit_lifecycle_accept:
  assumes "\<not> lifecycle_recent key now recent"
  shows "admit_lifecycle key now recent = (let r = jput recent key now in
     (if length r > 1000 then filter (\<lambda>(k, t). \<not> dedupe_ms \<le> now - t) r else r, True))"
  using assms by (auto simp: admit_lifecycle_def lifecycle_recent_def split: option.splits)

interpretation lifecycle: throttle admit_lifecycle "\<lambda>k. k" lifecycle_recent dedupe_ms
proof unfold_locales
  fix k k' :: string and t u :: time and m :: "(string \<times> time) list"
  show "\<not> snd (admit_lifecycle k t m)" if "lifecycle_recent k t m"
    using that by (auto simp: lifecycle_recent_def admit_lifecycle_def split: option.splits)
  show "lifecycle_recent k u (fst (admit_lifecycle k t m))"
    if "snd (admit_lifecycle k t m)" "t \<le> u" "u - t < dedupe_ms"
  proof -
    have "\<not> lifecycle_recent k t m"
      using that(1) by (auto simp: lifecycle_recent_def admit_lifecycle_def split: option.splits)
    moreover have "map_of (filter (\<lambda>(k, u). \<not> dedupe_ms \<le> t - u) (jput m k t)) k = Some t"
      by (rule map_of_filter_keep) (simp_all add: map_of_jput dedupe_ms_def)
    ultimately show ?thesis
      using that by (auto simp: admit_lifecycle_accept lifecycle_recent_def Let_def map_of_jput)
  qed
  show "lifecycle_recent k' u (fst (admit_lifecycle k t m))"
    if "t \<le> u" "lifecycle_recent k' u m"
  proof (cases "lifecycle_recent k t m")
    case True
    with that show ?thesis by (auto simp: lifecycle_recent_def admit_lifecycle_def split: option.splits)
  next
    case False
    from that(2) obtain v where v: "map_of m k' = Some v" "u - v < dedupe_ms"
      by (auto simp: lifecycle_recent_def split: option.splits)
    have ne: "k' \<noteq> k"
      using False v that(1) by (auto simp: lifecycle_recent_def)
    have "map_of (filter (\<lambda>(k, u). \<not> dedupe_ms \<le> t - u) (jput m k t)) k' = Some v"
      by (rule map_of_filter_keep) (use v ne that in \<open>auto simp: map_of_jput\<close>)
    with v ne show ?thesis
      by (auto simp: admit_lifecycle_accept [OF False] lifecycle_recent_def Let_def map_of_jput)
  qed
qed

lemma audit_alert_tables [simp]:
  "t_runs (audit_alert oid ty ctx ok e s) = t_runs s" "t_jobs (audit_alert oid ty ctx ok e s) = t_jobs s"
  "t_batches (audit_alert oid ty ctx ok e s) = t_batches s"
  "t_players (audit_alert oid ty ctx ok e s) = t_players s"
  "t_sessions (audit_alert oid ty ctx ok e s) = t_sessions s"
  "t_alertRules (audit_alert oid ty ctx ok e s) = t_alertRules s"
  by (simp_all add: audit_alert_def add_audit_def)

text \<open>Alerts write the audit table only.\<close>

definition only_audit :: "store \<Rightarrow> store \<Rightarrow> bool" where
  "only_audit s s' \<longleftrightarrow> s' = s\<lparr>t_audit := t_audit s'\<rparr>"

lemma only_audit_refl [simp]: "only_audit s s"
  by (simp add: only_audit_def)

lemma only_audit_trans: "only_audit s t \<Longrightarrow> only_audit t u \<Longrightarrow> only_audit s u"
proof -
  assume a: "only_audit s t" and b: "only_audit t u"
  have "u = (s\<lparr>t_audit := t_audit t\<rparr>)\<lparr>t_audit := t_audit u\<rparr>"
    using a b unfolding only_audit_def by metis
  then show ?thesis by (simp add: only_audit_def)
qed

lemma deliver_only_audit: "only_audit s (snd (deliver post now ty ctx p rs mem s))"
proof (induction rs arbitrary: mem s)
  case Nil
  then show ?case by simp
next
  case (Cons r rs)
  have a: "only_audit s (audit_alert oid ty ctx ok e s)" for oid ok e
    by (simp add: only_audit_def audit_alert_def add_audit_def)
  show ?case
    by (auto split: option.splits prod.splits intro!: only_audit_trans [OF a Cons.IH] Cons.IH)
qed

lemma send_matching_only_audit: "only_audit s (snd (send_matching_rules post mem s now ty ctx))"
  by (auto simp: send_matching_rules_def Let_def deliver_only_audit split: prod.splits)

section \<open>Properties\<close>

text \<open>
  Repeated alerts about the same player are suppressed: whatever sequence of connects
  and disconnects arrives in time order, the ones let through for one organisation, server,
  type and player are at least fifteen seconds apart, also when the map is cleaned.
\<close>

theorem lifecycle_alerts_spaced:
  assumes "ordered_from t0 as"
  shows "spaced 15000 (run_throttle admit_lifecycle (\<lambda>k. k) as recent)"
  using lifecycle.run_spaced [OF assms] by (simp add: dedupe_ms_def)

theorem lifecycle_alerts_spaced_witness:
  "spaced 15000 (run_throttle admit_lifecycle (\<lambda>k. k) [(''p'', 0), (''p'', 10), (''p'', 15000)] []) \<and>
   run_throttle admit_lifecycle (\<lambda>k. k) [(''p'', 0), (''p'', 10), (''p'', 15000)] [] = [(''p'', 0), (''p'', 15000)]"
proof -
  have "ordered_from 0 [(''p'', 0), (''p'', 10), (''p'', 15000)]" by simp
  from lifecycle_alerts_spaced [OF this] show ?thesis
    by (simp add: admit_lifecycle_def dedupe_ms_def Let_def)
qed

end
