(* ===== verification/Regex.thy ===== *)
theory Regex
  imports Calendar
begin

text \<open>
  The regular expressions of the sources: a backtracking matcher in the style of the
  ECMAScript definition, with captures, for the constructs the sources use (classes,
  sequence, alternative, greedy and lazy repetition, groups, anchors, word boundaries, the flag
  \<open>i\<close>).  A match is a position (the character before it and the rest of the text) moving
  forward.  The continuation of the standard's matcher is the list of what is still to be
  matched, so that the matcher is first-order and runs in the simplifier.
\<close>

datatype re =
    Cls "char \<Rightarrow> bool"
  | Eps
  | Seq re re
  | Alt re re
  | Star re
  | Lazy re
  | Group nat re
  | Bol
  | Eol
  | WordB

type_synonym captures = "(nat \<times> string) list"

definition is_word :: "char option \<Rightarrow> bool" where
  "is_word c = (case c of None \<Rightarrow> False
     | Some x \<Rightarrow> is_digit x \<or> (let n = of_char (lower_char x) :: nat in 97 \<le> n \<and> n \<le> 122) \<and> (of_char x :: nat) < 128
         \<or> x = CHR ''_'')"

definition first_char :: "string \<Rightarrow> char option" where
  "first_char s = (case s of [] \<Rightarrow> None | c # _ \<Rightarrow> Some c)"

text \<open>
  What is still to be matched: an expression, the end of a group that began with the rest
  \<open>s\<close>, or another round of a repetition, allowed when the last round consumed something (as
  in the standard).
\<close>

datatype item = R re | Close nat string | Again nat re | AgainLazy nat re

fun weight :: "nat \<Rightarrow> item \<Rightarrow> nat" where
  "weight n (R r) = 2 * size r + 1"
| "weight n (Close i s) = 1"
| "weight n (Again m a) = (if n < m then 2 * size a + 4 else 0)"
| "weight n (AgainLazy m a) = (if n < m then 2 * size a + 4 else 0)"

function run :: "item list \<Rightarrow> char option \<Rightarrow> string \<Rightarrow> captures \<Rightarrow> (string \<times> captures) option" where
  "run [] prev rest caps = Some (rest, caps)"
| "run (R (Cls P) # k) prev [] caps = None"
| "run (R (Cls P) # k) prev (c # cs) caps = (if P c then run k (Some c) cs caps else None)"
| "run (R Eps # k) prev rest caps = run k prev rest caps"
| "run (R (Seq a b) # k) prev rest caps = run (R a # R b # k) prev rest caps"
| "run (R (Alt a b) # k) prev rest caps = (case run (R a # k) prev rest caps of
     Some x \<Rightarrow> Some x | None \<Rightarrow> run (R b # k) prev rest caps)"
| "run (R (Star a) # k) prev rest caps =
     (case run (R a # Again (length rest) a # k) prev rest caps of
        Some x \<Rightarrow> Some x | None \<Rightarrow> run k prev rest caps)"
| "run (R (Group i a) # k) prev rest caps = run (R a # Close i rest # k) prev rest caps"
| "run (R Bol # k) prev rest caps = (if prev = None then run k prev rest caps else None)"
| "run (R Eol # k) prev rest caps = (if rest = [] then run k prev rest caps else None)"
| "run (R WordB # k) prev rest caps =
     (if is_word prev \<noteq> is_word (first_char rest) then run k prev rest caps else None)"
| "run (Close i s # k) prev rest caps =
     run k prev rest ((i, take (length s - length rest) s) # caps)"
| "run (Again n a # k) prev rest caps =
     (if length rest < n then run (R (Star a) # k) prev rest caps else None)"
| "run (R (Lazy a) # k) prev rest caps =
     (case run k prev rest caps of
        Some x \<Rightarrow> Some x | None \<Rightarrow> run (R a # AgainLazy (length rest) a # k) prev rest caps)"
| "run (AgainLazy n a # k) prev rest caps =
     (if length rest < n then run (R (Lazy a) # k) prev rest caps else None)"
  by pat_completeness auto
termination
  by (relation "measures [\<lambda>(k, prev, rest, caps). length rest,
        \<lambda>(k, prev, rest, caps). sum_list (map (weight (length rest)) k)]") auto

text \<open>\<open>text.match(re)\<close> without the flag \<open>g\<close>: the captures of the leftmost match.\<close>

fun rsearch :: "re \<Rightarrow> char option \<Rightarrow> string \<Rightarrow> captures option" where
  "rsearch r prev [] = map_option snd (run [R r] prev [] [])"
| "rsearch r prev (x # xs) = (case run [R r] prev (x # xs) [] of
     Some y \<Rightarrow> Some (snd y) | None \<Rightarrow> rsearch r (Some x) xs)"

definition re_match :: "re \<Rightarrow> string \<Rightarrow> captures option" where
  "re_match r s = rsearch r None s"

definition re_test :: "re \<Rightarrow> string \<Rightarrow> bool" where
  "re_test r s \<longleftrightarrow> re_match r s \<noteq> None"

text \<open>\<open>text.match(re)?.[i]\<close>\<close>

definition re_group :: "re \<Rightarrow> nat \<Rightarrow> string \<Rightarrow> string option" where
  "re_group r i s = (case re_match r s of None \<Rightarrow> None | Some caps \<Rightarrow> map_of caps i)"

section \<open>Derived forms\<close>

definition Opt :: "re \<Rightarrow> re" where
  "Opt r = Alt r Eps"

definition Plus :: "re \<Rightarrow> re" where
  "Plus r = Seq r (Star r)"

fun Seqs :: "re list \<Rightarrow> re" where
  "Seqs [] = Eps"
| "Seqs [r] = r"
| "Seqs (r # rs) = Seq r (Seqs rs)"

text \<open>\<open>r{m}\<close>, \<open>r{0,n}\<close>, \<open>r{m,n}\<close>\<close>

fun Times :: "nat \<Rightarrow> re \<Rightarrow> re" where
  "Times 0 r = Eps"
| "Times (Suc n) r = Seq r (Times n r)"

fun UpTo :: "nat \<Rightarrow> re \<Rightarrow> re" where
  "UpTo 0 r = Eps"
| "UpTo (Suc n) r = Opt (Seq r (UpTo n r))"

lemma Times_numeral [simp]: "Times (numeral n) r = Seq r (Times (pred_numeral n) r)"
  by (simp add: numeral_eq_Suc)

lemma UpTo_numeral [simp]: "UpTo (numeral n) r = Opt (Seq r (UpTo (pred_numeral n) r))"
  by (simp add: numeral_eq_Suc)

definition Between :: "nat \<Rightarrow> nat \<Rightarrow> re \<Rightarrow> re" where
  "Between m n r = Seq (Times m r) (UpTo (n - m) r)"

text \<open>A literal under the flag \<open>i\<close>, and one without it.\<close>

definition ci :: "char \<Rightarrow> re" where
  "ci c = Cls (\<lambda>x. lower_char x = lower_char c)"

definition lit_i :: "string \<Rightarrow> re" where
  "lit_i s = Seqs (map ci s)"

definition lit :: "string \<Rightarrow> re" where
  "lit s = Seqs (map (\<lambda>c. Cls (\<lambda>x. x = c)) s)"

definition Space :: re where "Space = Cls js_space"
definition Digit :: re where "Digit = Cls is_digit"

definition NotIn :: "string \<Rightarrow> re" where
  "NotIn cs = Cls (\<lambda>x. x \<notin> set cs)"

section \<open>What a match consumes\<close>

text \<open>
  The declarative meaning: from the position \<open>(p, s)\<close> the expression can consume \<open>w\<close>.
  Captures play no part in it.
\<close>

inductive consumes :: "re \<Rightarrow> char option \<Rightarrow> string \<Rightarrow> char option \<Rightarrow> string \<Rightarrow> bool" where
  "P c \<Longrightarrow> consumes (Cls P) p (c # s) (Some c) s"
| "consumes Eps p s p s"
| "consumes a p s p1 s1 \<Longrightarrow> consumes b p1 s1 p2 s2 \<Longrightarrow> consumes (Seq a b) p s p2 s2"
| "consumes a p s p1 s1 \<Longrightarrow> consumes (Alt a b) p s p1 s1"
| "consumes b p s p1 s1 \<Longrightarrow> consumes (Alt a b) p s p1 s1"
| "consumes (Star a) p s p s"
| "consumes a p s p1 s1 \<Longrightarrow> length s1 < length s \<Longrightarrow> consumes (Star a) p1 s1 p2 s2 \<Longrightarrow> consumes (Star a) p s p2 s2"
| "consumes (Lazy a) p s p s"
| "consumes a p s p1 s1 \<Longrightarrow> length s1 < length s \<Longrightarrow> consumes (Lazy a) p1 s1 p2 s2 \<Longrightarrow> consumes (Lazy a) p s p2 s2"
| "consumes a p s p1 s1 \<Longrightarrow> consumes (Group i a) p s p1 s1"
| "consumes Bol None s None s"
| "consumes Eol p [] p []"
| "is_word p \<noteq> is_word (first_char s) \<Longrightarrow> consumes WordB p s p s"

inductive_cases consumes_elims:
  "consumes (Cls P) p s p1 s1" "consumes Eps p s p1 s1" "consumes (Seq a b) p s p1 s1"
  "consumes (Alt a b) p s p1 s1" "consumes (Group i a) p s p1 s1" "consumes Bol p s p1 s1"
  "consumes Eol p s p1 s1" "consumes WordB p s p1 s1"

inductive_cases consumes_StarE: "consumes (Star a) p s p1 s1"
inductive_cases consumes_LazyE: "consumes (Lazy a) p s p1 s1"

text \<open>The same for a list of items.\<close>

inductive consumes_items :: "item list \<Rightarrow> char option \<Rightarrow> string \<Rightarrow> bool" where
  "consumes_items [] p s"
| "consumes r p s p1 s1 \<Longrightarrow> consumes_items k p1 s1 \<Longrightarrow> consumes_items (R r # k) p s"
| "consumes_items k p s \<Longrightarrow> consumes_items (Close i t # k) p s"
| "length s < n \<Longrightarrow> consumes (Star a) p s p1 s1 \<Longrightarrow> consumes_items k p1 s1 \<Longrightarrow>
   consumes_items (Again n a # k) p s"
| "length s < n \<Longrightarrow> consumes (Lazy a) p s p1 s1 \<Longrightarrow> consumes_items k p1 s1 \<Longrightarrow>
   consumes_items (AgainLazy n a # k) p s"

inductive_cases consumes_items_elims:
  "consumes_items (R r # k) p s" "consumes_items (Close i t # k) p s" "consumes_items (Again n a # k) p s"
  "consumes_items (AgainLazy n a # k) p s"

text \<open>The matcher succeeds exactly when the items can consume something one after the other.\<close>

lemma run_sound: "run k p s c \<noteq> None \<Longrightarrow> consumes_items k p s"
proof (induction k p s c rule: run.induct)
  case (5 a b k prev rest caps)
  then have "consumes_items (R a # R b # k) prev rest" by simp
  then show ?case by (auto elim!: consumes_items_elims intro: consumes.intros consumes_items.intros)
next
  case (6 a b k prev rest caps)
  then have "consumes_items (R a # k) prev rest \<or> consumes_items (R b # k) prev rest"
    by (auto split: option.splits)
  then show ?case by (auto elim!: consumes_items_elims intro: consumes.intros consumes_items.intros)
next
  case (7 a k prev rest caps)
  then have "consumes_items (R a # Again (length rest) a # k) prev rest \<or> consumes_items k prev rest"
    by (auto split: option.splits)
  then show ?case by (auto elim!: consumes_items_elims intro: consumes.intros consumes_items.intros)
next
  case (13 n a k prev rest caps)
  then show ?case by (auto elim!: consumes_items_elims intro: consumes_items.intros split: if_splits)
next
  case (14 a k prev rest caps)
  then have "consumes_items (R a # AgainLazy (length rest) a # k) prev rest \<or> consumes_items k prev rest"
    by (auto split: option.splits)
  then show ?case by (auto elim!: consumes_items_elims intro: consumes.intros consumes_items.intros)
next
  case (15 n a k prev rest caps)
  then show ?case by (auto elim!: consumes_items_elims intro: consumes_items.intros split: if_splits)
qed (auto elim!: consumes_items_elims intro: consumes.intros consumes_items.intros split: if_splits)

lemma run_complete: "consumes_items k p s \<Longrightarrow> run k p s c \<noteq> None"
proof (induction k p s c rule: run.induct)
  case (7 a k prev rest caps)
  from 7(3) obtain p1 s1 where c: "consumes (Star a) prev rest p1 s1" "consumes_items k p1 s1"
    by (auto elim: consumes_items_elims)
  from c(1) have "consumes_items (R a # Again (length rest) a # k) prev rest \<or> consumes_items k prev rest"
    using c(2) by (cases rule: consumes_StarE) (auto intro: consumes_items.intros)
  with 7(1,2) show ?case by (auto split: option.splits)
next
  case (14 a k prev rest caps)
  from 14(3) obtain p1 s1 where c: "consumes (Lazy a) prev rest p1 s1" "consumes_items k p1 s1"
    by (auto elim: consumes_items_elims)
  from c(1) have "consumes_items (R a # AgainLazy (length rest) a # k) prev rest \<or> consumes_items k prev rest"
    using c(2) by (cases rule: consumes_LazyE) (auto intro: consumes_items.intros)
  with 14(1,2) show ?case by (auto split: option.splits)
next
  case (6 a b k prev rest caps)
  from 6(3) have "consumes_items (R a # k) prev rest \<or> consumes_items (R b # k) prev rest"
    by (auto elim!: consumes_items_elims consumes_elims intro: consumes_items.intros)
  with 6(1,2) show ?case by (auto split: option.splits)
qed (auto elim!: consumes_items_elims consumes_elims intro: consumes_items.intros)

lemma run_iff: "run [R r] p s c \<noteq> None \<longleftrightarrow> (\<exists>p1 s1. consumes r p s p1 s1)"
  using run_sound [of "[R r]" p s c] run_complete [of "[R r]" p s c]
  by (auto elim!: consumes_items_elims intro: consumes_items.intros)

text \<open>The searching test: the expression can consume something from some position of the text.\<close>

fun positions :: "char option \<Rightarrow> string \<Rightarrow> (char option \<times> string) list" where
  "positions p [] = [(p, [])]"
| "positions p (x # xs) = (p, x # xs) # positions (Some x) xs"

lemma rsearch_iff:
  "rsearch r p s \<noteq> None \<longleftrightarrow> (\<exists>q \<in> set (positions p s). \<exists>p1 s1. consumes r (fst q) (snd q) p1 s1)"
proof (induction r p s rule: rsearch.induct)
  case (1 r prev)
  have "rsearch r prev [] \<noteq> None \<longleftrightarrow> run [R r] prev [] [] \<noteq> None" by simp
  then show ?case unfolding run_iff by simp
next
  case (2 r prev x xs)
  show ?case
  proof (cases "run [R r] prev (x # xs) []")
    case None
    then have "\<not> (\<exists>p1 s1. consumes r prev (x # xs) p1 s1)"
      using run_iff by blast
    moreover have "rsearch r prev (x # xs) = rsearch r (Some x) xs" using None by simp
    ultimately show ?thesis using 2 [OF None] by fastforce
  next
    case (Some y)
    then have "\<exists>p1 s1. consumes r prev (x # xs) p1 s1"
      using run_iff by blast
    with Some show ?thesis by simp
  qed
qed

lemma re_test_iff:
  "re_test r s \<longleftrightarrow> (\<exists>q \<in> set (positions None s). \<exists>p1 s1. consumes r (fst q) (snd q) p1 s1)"
  unfolding re_test_def re_match_def by (rule rsearch_iff)

section \<open>Whole texts\<close>

text \<open>
  An expression without anchors consumes the texts of a language, wherever it stands; between
  \<open>^\<close> and \<open>$\<close> the test is membership in it.
\<close>

definition char_before :: "char option \<Rightarrow> string \<Rightarrow> char option" where
  "char_before p w = (if w = [] then p else Some (last w))"

definition spells :: "re \<Rightarrow> (string \<Rightarrow> bool) \<Rightarrow> bool" where
  "spells r W \<longleftrightarrow> (\<forall>p t p1 t1. consumes r p t p1 t1 \<longleftrightarrow> (\<exists>w. W w \<and> t = w @ t1 \<and> p1 = char_before p w))"

inductive_simps consumes_simps:
  "consumes (Cls P) p s p1 s1" "consumes Eps p s p1 s1" "consumes (Seq a b) p s p1 s1"
  "consumes (Alt a b) p s p1 s1" "consumes (Group i a) p s p1 s1" "consumes Bol p s p1 s1"
  "consumes Eol p s p1 s1"

lemma char_before_append [simp]: "char_before (char_before p u) v = char_before p (u @ v)"
  by (simp add: char_before_def)

lemma spellsI:
  assumes "\<And>p t p1 t1. consumes r p t p1 t1 \<Longrightarrow> \<exists>w. W w \<and> t = w @ t1 \<and> p1 = char_before p w"
    and "\<And>w p t. W w \<Longrightarrow> consumes r p (w @ t) (char_before p w) t"
  shows "spells r W"
  unfolding spells_def using assms by blast

lemma spellsD: "spells r W \<Longrightarrow> consumes r p t p1 t1 \<longleftrightarrow> (\<exists>w. W w \<and> t = w @ t1 \<and> p1 = char_before p w)"
  by (simp add: spells_def)

lemma spells_Cls: "spells (Cls P) (\<lambda>w. \<exists>c. w = [c] \<and> P c)"
proof (rule spellsI)
  fix p t p1 t1
  assume "consumes (Cls P) p t p1 t1"
  then obtain c where "P c" "t = c # t1" "p1 = Some c" by (rule consumes_elims(1))
  then show "\<exists>w. (\<exists>c. w = [c] \<and> P c) \<and> t = w @ t1 \<and> p1 = char_before p w"
    by (intro exI [of _ "[c]"]) (simp add: char_before_def)
next
  show "consumes (Cls P) p (w @ t) (char_before p w) t" if "\<exists>c. w = [c] \<and> P c" for w p t
    using that consumes.intros(1) [of P] by (elim exE conjE) (simp add: char_before_def)
qed

lemma spells_Eps: "spells Eps (\<lambda>w. w = [])"
  by (rule spellsI) (simp_all add: char_before_def consumes_simps(2))

lemma spells_Seq:
  assumes "spells a A" and "spells b B"
  shows "spells (Seq a b) (\<lambda>w. \<exists>u v. w = u @ v \<and> A u \<and> B v)"
proof (rule spellsI)
  fix p t p1 t1
  assume "consumes (Seq a b) p t p1 t1"
  then obtain p2 t2 where "consumes a p t p2 t2" "consumes b p2 t2 p1 t1" by (rule consumes_elims)
  then obtain u v where "A u" "B v" "t = u @ v @ t1" "p1 = char_before (char_before p u) v"
    unfolding spellsD [OF assms(1)] spellsD [OF assms(2)] by blast
  then show "\<exists>w. (\<exists>u v. w = u @ v \<and> A u \<and> B v) \<and> t = w @ t1 \<and> p1 = char_before p w"
    by (intro exI [of _ "u @ v"]) auto
next
  fix w p t
  assume "\<exists>u v. w = u @ v \<and> A u \<and> B v"
  then obtain u v where uv: "w = u @ v" "A u" "B v" by blast
  from uv(2) have "consumes a p (u @ v @ t) (char_before p u) (v @ t)" unfolding spellsD [OF assms(1)] by blast
  moreover from uv(3) have "consumes b (char_before p u) (v @ t) (char_before p w) t"
    unfolding spellsD [OF assms(2)] using uv(1) by auto
  ultimately show "consumes (Seq a b) p (w @ t) (char_before p w) t" using uv(1) by (simp add: consumes.intros(3))
qed

lemma spells_Alt:
  assumes "spells a A" and "spells b B"
  shows "spells (Alt a b) (\<lambda>w. A w \<or> B w)"
  unfolding spells_def consumes_simps(4) spellsD [OF assms(1)] spellsD [OF assms(2)] by blast

lemma spells_Group: "spells a A \<Longrightarrow> spells (Group i a) A"
  unfolding spells_def consumes_simps(5) .

lemma spells_cong: "spells a A \<Longrightarrow> (\<And>w. A w \<longleftrightarrow> B w) \<Longrightarrow> spells a B"
  by (simp add: spells_def)

lemma spells_lit: "spells (lit s) (\<lambda>w. w = s)"
proof (induction s)
  case Nil
  show ?case by (simp add: lit_def spells_Eps)
next
  case (Cons c s)
  have one: "spells (Cls (\<lambda>x. x = c)) (\<lambda>w. w = [c])" by (rule spells_cong [OF spells_Cls]) auto
  show ?case
  proof (cases s)
    case Nil
    with one show ?thesis by (simp add: lit_def)
  next
    case (Cons d ds)
    then have "lit (c # s) = Seq (Cls (\<lambda>x. x = c)) (lit s)" by (simp add: lit_def)
    moreover have "spells (Seq (Cls (\<lambda>x. x = c)) (lit s)) (\<lambda>w. w = c # s)"
      by (rule spells_cong [OF spells_Seq [OF one Cons.IH]]) auto
    ultimately show ?thesis by simp
  qed
qed

lemma spells_Star_Cls: "spells (Star (Cls P)) (list_all P)"
proof (rule spellsI)
  fix p t p1 t1
  show "consumes (Star (Cls P)) p t p1 t1 \<Longrightarrow> \<exists>w. list_all P w \<and> t = w @ t1 \<and> p1 = char_before p w"
  proof (induction "Star (Cls P)" p t p1 t1 rule: consumes.induct)
    case (6 p s)
    show ?case by (rule exI [of _ "[]"]) (simp add: char_before_def)
  next
    case (7 p s p1 s1 p2 s2)
    from 7(1) obtain c where "P c" "s = c # s1" "p1 = Some c" by (rule consumes_elims) auto
    moreover from 7(4) obtain w where "list_all P w" "s1 = w @ s2" "p2 = char_before p1 w" by blast
    ultimately show ?case by (intro exI [of _ "c # w"]) (simp add: char_before_def)
  qed
next
  fix w p t
  show "list_all P w \<Longrightarrow> consumes (Star (Cls P)) p (w @ t) (char_before p w) t"
  proof (induction w arbitrary: p)
    case Nil
    show ?case by (simp add: char_before_def consumes.intros(6))
  next
    case (Cons c w)
    then have rest: "consumes (Star (Cls P)) (Some c) (w @ t) (char_before (Some c) w) t" by simp
    have "consumes (Cls P) p (c # w @ t) (Some c) (w @ t)" using Cons(2) by (simp add: consumes.intros(1))
    from consumes.intros(7) [OF this _ rest]
    have "consumes (Star (Cls P)) p (c # w @ t) (char_before (Some c) w) t" by simp
    then show ?case by (cases w) (simp_all add: char_before_def)
  qed
qed

lemma spells_Plus_Cls: "spells (Plus (Cls P)) (\<lambda>w. w \<noteq> [] \<and> list_all P w)"
  unfolding Plus_def
proof (rule spells_cong [OF spells_Seq [OF spells_Cls spells_Star_Cls]])
  show "(\<exists>u v. w = u @ v \<and> (\<exists>c. u = [c] \<and> P c) \<and> list_all P v) \<longleftrightarrow> w \<noteq> [] \<and> list_all P w" for w
    by (cases w) (auto intro: exI [of _ "[hd w]"])
qed

lemma positions_Some: "q \<in> set (positions (Some x) s) \<Longrightarrow> fst q \<noteq> None"
  by (induction s arbitrary: x) auto

lemma positions_start: "(None, t) \<in> set (positions None s) \<longleftrightarrow> t = s"
  by (cases s) (auto dest: positions_Some)

lemma whole_match:
  assumes "spells r W"
  shows "re_test (Seqs [Bol, r, Eol]) s \<longleftrightarrow> W s"
proof -
  have "(\<exists>p1 s1. consumes (Seqs [Bol, r, Eol]) p t p1 s1) \<longleftrightarrow> p = None \<and> W t" for p t
    by (auto simp: consumes_simps spellsD [OF assms])
  then have "re_test (Seqs [Bol, r, Eol]) s \<longleftrightarrow> (\<exists>q \<in> set (positions None s). fst q = None \<and> W (snd q))"
    unfolding re_test_iff by simp
  also have "\<dots> \<longleftrightarrow> (\<exists>t. (None, t) \<in> set (positions None s) \<and> W t)"
    by force
  finally show ?thesis by (simp add: positions_start)
qed

lemma consumes_Seqs_snoc: "rs \<noteq> [] \<Longrightarrow> consumes (Seqs (rs @ [r])) p t p1 t1 \<longleftrightarrow> consumes (Seq (Seqs rs) r) p t p1 t1"
proof (induction rs arbitrary: p t rule: Seqs.induct)
  case (3 a b rs)
  have "consumes (Seqs ((a # b # rs) @ [r])) p t p1 t1 \<longleftrightarrow>
      (\<exists>p2 t2. consumes a p t p2 t2 \<and> consumes (Seqs ((b # rs) @ [r])) p2 t2 p1 t1)"
    by (simp add: consumes_simps(3))
  also have "\<dots> \<longleftrightarrow> (\<exists>p2 t2. consumes a p t p2 t2 \<and> consumes (Seq (Seqs (b # rs)) r) p2 t2 p1 t1)"
    using 3 by simp
  finally show ?case unfolding Seqs.simps consumes_simps(3) by blast
qed simp_all

lemma whole_match_Seqs:
  assumes "spells (Seqs rs) W" and "rs \<noteq> []"
  shows "re_test (Seqs (Bol # rs @ [Eol])) s \<longleftrightarrow> W s"
proof -
  have "consumes (Seqs (Bol # rs @ [Eol])) p t p1 t1 \<longleftrightarrow> consumes (Seqs [Bol, Seqs rs, Eol]) p t p1 t1" for p t p1 t1
  proof -
    have "Seqs (Bol # rs @ [Eol]) = Seq Bol (Seqs (rs @ [Eol]))" using assms(2) by (cases rs) simp_all
    then show ?thesis by (simp add: consumes_simps(3) consumes_Seqs_snoc [OF assms(2)])
  qed
  then have "(\<exists>p1 t1. consumes (Seqs (Bol # rs @ [Eol])) p t p1 t1) \<longleftrightarrow>
      (\<exists>p1 t1. consumes (Seqs [Bol, Seqs rs, Eol]) p t p1 t1)" for p t by metis
  then have "re_test (Seqs (Bol # rs @ [Eol])) s \<longleftrightarrow> re_test (Seqs [Bol, Seqs rs, Eol]) s"
    unfolding re_test_iff by (simp only:)
  then show ?thesis using whole_match [OF assms(1)] by simp
qed

text \<open>What the simplifier needs to run the matcher on a concrete text.\<close>

definition lower_code :: "char \<Rightarrow> nat" where
  "lower_code c = (let n = of_char c in
     if 65 \<le> n \<and> n \<le> 90 \<or> 192 \<le> n \<and> n \<le> 222 \<and> n \<noteq> 215 then n + 32 else n)"

lemma of_char_lower: "of_char (lower_char c) = lower_code c"
proof -
  have "(of_char c :: nat) < 256" by simp
  then show ?thesis by (auto simp: lower_char_def lower_code_def Let_def)
qed

lemma ci_code: "ci c = Cls (\<lambda>x. lower_code x = lower_code c)"
  unfolding ci_def of_char_lower [symmetric] by simp

lemmas re_eval = re_test_def re_match_def re_group_def lit_i_def lit_def ci_code Opt_def Plus_def
  Between_def Space_def Digit_def NotIn_def first_char_def is_word_def js_space_def is_digit_def
  lower_code_def of_char_lower

end
