(* ===== verification/Players.thy ===== *)
theory Players
  imports SampleWorld Alerts Regex
begin

text \<open>
  The players of a server: \<open>players/player-identity.ts\<close> (a record known by name only is
  merged into the one with a platform id), \<open>reconcilePlayers\<close> of \<open>jobs/jobs.service.ts\<close> (a
  listing of the game updates players and play sessions) and \<open>players/players.service.ts\<close>
  (periodic polling, protection settings, the list).  Ids of new rows come from a function
  of the store.
\<close>

section \<open>Reading a listing\<close>

definition total_re :: re where
  "total_re = Seqs [lit_i ''Total of'', Plus Space, Plus Digit, Plus Space, lit_i ''in the game'']"

definition head_re :: re where
  "head_re = Seqs [Bol, Star Space, Plus Digit, ci (CHR ''.''), Plus Space, lit_i ''id='',
     Group 1 (Plus Digit), lit_i '','', Star Space, Group 2 (Plus (NotIn '','')), lit_i '','']"

definition steam_re :: re where
  "steam_re = Seqs [Alt (lit_i ''pltfmid'') (lit_i ''steamid''), lit_i ''=Steam_'',
     Group 1 (Between 15 20 Digit)]"

definition eos_re :: re where
  "eos_re = Seqs [Alt (lit_i ''crossid'') (lit_i ''pltfmid''), lit_i ''=EOS_'',
     Group 1 (Between 20 64 (Cls is_hex))]"

definition ip_re :: re where
  "ip_re = Seqs [WordB, lit_i ''ip'', Star Space, lit_i ''='', Star Space,
     Group 1 (Alt (Seqs [lit_i ''['', Plus (NotIn '']''), lit_i '']''])
                  (Plus (Cls (\<lambda>x. x \<noteq> CHR '','' \<and> \<not> js_space x))))]"

definition stat_re :: "string list \<Rightarrow> re" where
  "stat_re names = Seqs [foldr (\<lambda>n r. Alt (lit_i n) r) (butlast names) (lit_i (last names)),
     Star Space, lit_i ''='', Star Space, Group 1 (Plus Digit)]"

text \<open>\<open>s.replace(/^\[|\]$/g, '')\<close>\<close>

definition strip_brackets :: "string \<Rightarrow> string" where
  "strip_brackets s = (let t = (if js_starts_with s ''['' then drop 1 s else s)
     in if t \<noteq> [] \<and> last t = CHR '']'' then butlast t else t)"

definition number_field :: "string list \<Rightarrow> int \<Rightarrow> string \<Rightarrow> int" where
  "number_field names dflt line = (case re_group (stat_re names) 1 line of
     None \<Rightarrow> dflt | Some ds \<Rightarrow> int (digits_value ds))"

record listed_player =
  lp_entityId :: int
  lp_name :: string
  lp_steam :: "string option"
  lp_eos :: "string option"
  lp_ip :: "string option"
  lp_zombieKills :: int
  lp_playerKills :: int
  lp_deaths :: int
  lp_level :: int

definition parse_line :: "string \<Rightarrow> listed_player option" where
  "parse_line line = (case re_match head_re line of
     None \<Rightarrow> None
   | Some caps \<Rightarrow> (case (map_of caps 1, map_of caps 2) of
       (Some eid, Some nm) \<Rightarrow> Some \<lparr>lp_entityId = int (digits_value eid), lp_name = js_trim nm,
          lp_steam = re_group steam_re 1 line, lp_eos = re_group eos_re 1 line,
          lp_ip = map_option strip_brackets (re_group ip_re 1 line),
          lp_zombieKills = number_field [''zombies'', ''zombiekills''] 0 line,
          lp_playerKills = number_field [''players'', ''playerkills''] 0 line,
          lp_deaths = number_field [''deaths''] 0 line, lp_level = number_field [''level''] 1 line\<rparr>
     | _ \<Rightarrow> None))"

definition identity_key :: "listed_player \<Rightarrow> string" where
  "identity_key p = (case lp_steam p of
     Some st \<Rightarrow> ''steam:'' @ st
   | None \<Rightarrow> (case lp_eos p of Some e \<Rightarrow> ''eos:'' @ e | None \<Rightarrow> ''name:'' @ js_lower (lp_name p)))"

definition listed_players :: "string \<Rightarrow> listed_player list" where
  "listed_players output = concat (map (\<lambda>l. case parse_line l of None \<Rightarrow> [] | Some p \<Rightarrow> [p]) (split_lines output))"

section \<open>Name-only records\<close>

definition find_player :: "store \<Rightarrow> id \<Rightarrow> string \<Rightarrow> player option" where
  "find_player s sid key = List.find (\<lambda>p. pl_serverInstanceId p = sid \<and> pl_identityKey p = key) (t_players s)"

definition min_time :: "time option \<Rightarrow> time option \<Rightarrow> time option" where
  "min_time a b = (case (a, b) of (Some x, Some y) \<Rightarrow> Some (min x y) | _ \<Rightarrow> or_else a b)"

definition merge_player :: "string option \<Rightarrow> string option \<Rightarrow> player \<Rightarrow> player \<Rightarrow> player" where
  "merge_player steamId eosId fallback c =
    (let online = (pl_online c \<or> pl_online fallback) in
     c\<lparr>pl_steamId := or_else steamId (pl_steamId c), pl_eosId := or_else eosId (pl_eosId c),
       pl_lifetimeSeconds := pl_lifetimeSeconds c + pl_lifetimeSeconds fallback,
       pl_zombieKills := max (pl_zombieKills c) (pl_zombieKills fallback),
       pl_playerKills := max (pl_playerKills c) (pl_playerKills fallback),
       pl_deaths := max (pl_deaths c) (pl_deaths fallback),
       pl_level := max (pl_level c) (pl_level fallback),
       pl_firstSeenAt := (if pl_firstSeenAt fallback < pl_firstSeenAt c then pl_firstSeenAt fallback else pl_firstSeenAt c),
       pl_lastSeenAt := (if pl_lastSeenAt c < pl_lastSeenAt fallback then pl_lastSeenAt fallback else pl_lastSeenAt c),
       pl_online := online,
       pl_currentSessionStartedAt := (if online
         then min_time (pl_currentSessionStartedAt c) (pl_currentSessionStartedAt fallback) else None)\<rparr>)"

definition reconcile_name_fallback ::
  "store \<Rightarrow> id \<Rightarrow> string \<Rightarrow> string \<Rightarrow> string option \<Rightarrow> string option \<Rightarrow> store" where
  "reconcile_name_fallback s sid identityKey name steamId eosId =
    (if js_starts_with identityKey ''name:'' then s
     else (case find_player s sid (''name:'' @ js_lower name) of
       None \<Rightarrow> s
     | Some fallback \<Rightarrow> (case find_player s sid identityKey of
         None \<Rightarrow> s\<lparr>t_players := update_where (\<lambda>p. pl_id p = pl_id fallback)
             (\<lambda>p. p\<lparr>pl_identityKey := identityKey, pl_steamId := steamId, pl_eosId := eosId\<rparr>) (t_players s)\<rparr>
       | Some c \<Rightarrow> s\<lparr>
           t_sessions := update_where (\<lambda>x. ses_playerId x = pl_id fallback)
             (\<lambda>x. x\<lparr>ses_playerId := pl_id c\<rparr>) (t_sessions s),
           t_players := delete_where (\<lambda>p. pl_id p = pl_id fallback)
             (update_where (\<lambda>p. pl_id p = pl_id c) (\<lambda>_. merge_player steamId eosId fallback c) (t_players s))\<rparr>)))"

section \<open>Reconciliation\<close>

record player_env =
  pe_post :: post_fun
  pe_fresh_player :: "store \<Rightarrow> id"

text \<open>The \<open>update\<close> branch, for the row \<open>e\<close> read before.\<close>

definition seen_row :: "time \<Rightarrow> listed_player \<Rightarrow> player \<Rightarrow> player \<Rightarrow> player" where
  "seen_row now l e p = p\<lparr>pl_steamId := or_else (lp_steam l) (pl_steamId e),
     pl_eosId := or_else (lp_eos l) (pl_eosId e), pl_entityId := Some (lp_entityId l),
     pl_ipAddress := (case lp_ip l of None \<Rightarrow> pl_ipAddress p
       | Some ip \<Rightarrow> if ip = [] then pl_ipAddress p else Some ip),
     pl_name := lp_name l, pl_online := True, pl_lastSeenAt := now,
     pl_zombieKills := lp_zombieKills l, pl_playerKills := lp_playerKills l,
     pl_deaths := lp_deaths l, pl_level := lp_level l,
     pl_currentSessionStartedAt := (if pl_online e then pl_currentSessionStartedAt p else Some now)\<rparr>"

definition upsert_player :: "player_env \<Rightarrow> time \<Rightarrow> id \<Rightarrow> id \<Rightarrow> listed_player \<Rightarrow> store \<Rightarrow> store" where
  "upsert_player env now orgId sid l s =
    (let key = identity_key l in
     case find_player s sid key of
       None \<Rightarrow>
         let pid = pe_fresh_player env s;
             p = \<lparr>pl_id = pid, pl_orgId = orgId, pl_serverInstanceId = sid, pl_identityKey = key,
               pl_steamId = lp_steam l, pl_eosId = lp_eos l, pl_entityId = Some (lp_entityId l),
               pl_ipAddress = lp_ip l, pl_name = lp_name l, pl_online = True,
               pl_currentSessionStartedAt = Some now, pl_lifetimeSeconds = 0,
               pl_zombieKills = lp_zombieKills l, pl_playerKills = lp_playerKills l,
               pl_deaths = lp_deaths l, pl_level = lp_level l, pl_firstSeenAt = now, pl_lastSeenAt = now\<rparr>
         in s\<lparr>t_players := t_players s @ [p],
              t_sessions := t_sessions s @ [\<lparr>ses_playerId = pid, ses_startedAt = now,
                ses_endedAt = None, ses_durationSeconds = None\<rparr>]\<rparr>
     | Some e \<Rightarrow>
         let s1 = s\<lparr>t_players := update_where (\<lambda>p. pl_serverInstanceId p = sid \<and> pl_identityKey p = key)
                 (seen_row now l e) (t_players s)\<rparr>
         in if pl_online e then s1
            else s1\<lparr>t_sessions := t_sessions s1 @ [\<lparr>ses_playerId = pl_id e, ses_startedAt = now,
                   ses_endedAt = None, ses_durationSeconds = None\<rparr>]\<rparr>)"

definition see_player :: "player_env \<Rightarrow> time \<Rightarrow> id \<Rightarrow> id \<Rightarrow> listed_player \<Rightarrow> store \<Rightarrow> store" where
  "see_player env now orgId sid l s =
     upsert_player env now orgId sid l
       (reconcile_name_fallback s sid (identity_key l) (lp_name l) (lp_steam l) (lp_eos l))"

definition session_seconds :: "time \<Rightarrow> time option \<Rightarrow> int" where
  "session_seconds stop start = (case start of None \<Rightarrow> 0 | Some t \<Rightarrow> max 0 ((stop - t) div 1000))"

definition offline_row :: "int \<Rightarrow> player \<Rightarrow> player" where
  "offline_row duration x = x\<lparr>pl_online := False, pl_currentSessionStartedAt := None,
     pl_lifetimeSeconds := pl_lifetimeSeconds x + duration\<rparr>"

definition disconnect_player :: "time \<Rightarrow> player \<Rightarrow> store \<Rightarrow> store" where
  "disconnect_player now p s =
    (let stop = min (pl_lastSeenAt p) now;
         duration = session_seconds stop (pl_currentSessionStartedAt p)
     in s\<lparr>t_players := update_where (\<lambda>x. pl_id x = pl_id p)
            (offline_row duration) (t_players s),
          t_sessions := update_where (\<lambda>x. ses_playerId x = pl_id p \<and> ses_endedAt x = None)
            (\<lambda>x. x\<lparr>ses_endedAt := Some stop, ses_durationSeconds := Some duration\<rparr>) (t_sessions s)\<rparr>)"

definition disconnect_context :: "time \<Rightarrow> id \<Rightarrow> id \<Rightarrow> string \<Rightarrow> player \<Rightarrow> alert_context" where
  "disconnect_context now orgId sid serverName p = \<lparr>ac_orgId = orgId, ac_orgName = None,
     ac_serverInstanceId = Some sid, ac_serverInstanceName = Some serverName, ac_hostId = None,
     ac_hostName = None, ac_lastHeartbeatAt = None, ac_reason = None, ac_frigateCamera = None,
     ac_frigateLabel = None, ac_frigateScore = None, ac_playerName = Some (pl_name p),
     ac_steamId = pl_steamId p, ac_eosId = pl_eosId p,
     ac_sessionSeconds = Some (session_seconds (min (pl_lastSeenAt p) now) (pl_currentSessionStartedAt p))\<rparr>"

fun disconnect_players ::
  "player_env \<Rightarrow> time \<Rightarrow> id \<Rightarrow> id \<Rightarrow> string \<Rightarrow> player list \<Rightarrow> alerts_mem \<Rightarrow> store \<Rightarrow> alerts_mem \<times> store" where
  "disconnect_players env now orgId sid serverName [] mem s = (mem, s)"
| "disconnect_players env now orgId sid serverName (p # ps) mem s =
    (let (mem', s') = send_matching_rules (pe_post env) mem (disconnect_player now p s) now
           ''PLAYER_DISCONNECTED'' (disconnect_context now orgId sid serverName p)
     in disconnect_players env now orgId sid serverName ps mem' s')"

definition missing_players :: "store \<Rightarrow> id \<Rightarrow> string list \<Rightarrow> player list" where
  "missing_players s sid seen = filter (\<lambda>p. pl_serverInstanceId p = sid \<and> pl_online p \<and>
     pl_identityKey p \<notin> set seen) (t_players s)"

definition reconcile_players ::
  "player_env \<Rightarrow> alerts_mem \<Rightarrow> store \<Rightarrow> time \<Rightarrow> id \<Rightarrow> id \<Rightarrow> string \<Rightarrow> alerts_mem \<times> store" where
  "reconcile_players env mem s now orgId sid output =
    (if \<not> re_test total_re output then (mem, s)
     else
       let serverName = (case List.find (\<lambda>x. si_id x = sid) (t_serverInstances s) of
             None \<Rightarrow> ''7DTD Server'' | Some x \<Rightarrow> si_name x);
           ls = listed_players output;
           s1 = fold (see_player env now orgId sid) ls s
       in disconnect_players env now orgId sid serverName
            (missing_players s1 sid (map identity_key ls)) mem s1)"

section \<open>The invariant of players and sessions\<close>

definition player_key :: "player \<Rightarrow> id \<times> string" where
  "player_key p = (pl_serverInstanceId p, pl_identityKey p)"

definition open_session :: "store \<Rightarrow> id \<Rightarrow> bool" where
  "open_session s pid \<longleftrightarrow> (\<exists>x \<in> set (t_sessions s). ses_playerId x = pid \<and> ses_endedAt x = None)"

definition players_inv :: "store \<Rightarrow> bool" where
  "players_inv s \<longleftrightarrow> distinct (map pl_id (t_players s)) \<and> distinct (map player_key (t_players s)) \<and>
     (\<forall>x \<in> set (t_sessions s). ses_playerId x \<in> pl_id ` set (t_players s)) \<and>
     (\<forall>p \<in> set (t_players s). (pl_online p \<longleftrightarrow> pl_currentSessionStartedAt p \<noteq> None) \<and>
        (pl_online p \<longleftrightarrow> open_session s (pl_id p)))"

lemma find_player_SomeD:
  "find_player s sid key = Some p \<Longrightarrow> p \<in> set (t_players s) \<and> pl_serverInstanceId p = sid \<and> pl_identityKey p = key"
  by (auto simp: find_player_def dest: find_SomeD)

lemma find_player_NoneD:
  "find_player s sid key = None \<Longrightarrow> p \<in> set (t_players s) \<Longrightarrow> pl_serverInstanceId p = sid \<Longrightarrow> pl_identityKey p \<noteq> key"
  by (auto simp: find_player_def find_None_iff')

lemma distinct_keyD:
  "distinct (map key xs) \<Longrightarrow> x \<in> set xs \<Longrightarrow> y \<in> set xs \<Longrightarrow> key x = key y \<Longrightarrow> x = y"
  by (auto simp: distinct_map inj_on_def)

lemma distinct_map_update_where:
  assumes "distinct (map key xs)"
    and "\<And>x y. x \<in> set xs \<Longrightarrow> y \<in> set xs \<Longrightarrow> P x \<Longrightarrow> \<not> P y \<Longrightarrow> key (f x) \<noteq> key y"
    and "\<And>x y. x \<in> set xs \<Longrightarrow> y \<in> set xs \<Longrightarrow> P x \<Longrightarrow> P y \<Longrightarrow> x = y"
  shows "distinct (map key (update_where P f xs))"
  using assms
proof (induction xs)
  case Nil
  then show ?case by simp
next
  case (Cons x xs)
  have "distinct (map key (update_where P f xs))"
    by (rule Cons.IH) (use Cons.prems in auto)
  moreover have "key (if P x then f x else x) \<noteq> key (if P y then f y else y)" if "y \<in> set xs" for y
  proof -
    have ne: "key x \<noteq> key y" using Cons.prems(1) that by (auto simp: image_iff)
    then show ?thesis
      using Cons.prems(2) [of x y] Cons.prems(2) [of y x] Cons.prems(3) [of x y] that by (auto dest: sym)
  qed
  ultimately show ?case
    by (simp add: image_iff ball_update_where)
qed

lemma players_invD:
  assumes "players_inv s"
  shows "distinct (map pl_id (t_players s))" "distinct (map player_key (t_players s))"
    "x \<in> set (t_sessions s) \<Longrightarrow> ses_playerId x \<in> pl_id ` set (t_players s)"
    "p \<in> set (t_players s) \<Longrightarrow> pl_online p \<longleftrightarrow> pl_currentSessionStartedAt p \<noteq> None"
    "p \<in> set (t_players s) \<Longrightarrow> pl_online p \<longleftrightarrow> open_session s (pl_id p)"
  using assms by (auto simp: players_inv_def)

lemma same_id: "players_inv s \<Longrightarrow> p \<in> set (t_players s) \<Longrightarrow> q \<in> set (t_players s) \<Longrightarrow> pl_id p = pl_id q \<Longrightarrow> p = q"
  by (rule distinct_keyD [OF players_invD(1)])

lemma same_key:
  "players_inv s \<Longrightarrow> p \<in> set (t_players s) \<Longrightarrow> q \<in> set (t_players s) \<Longrightarrow>
   pl_serverInstanceId p = pl_serverInstanceId q \<Longrightarrow> pl_identityKey p = pl_identityKey q \<Longrightarrow> p = q"
  by (rule distinct_keyD [OF players_invD(2)]) (simp_all add: player_key_def)

lemma promote_inv:
  assumes inv: "players_inv s" and f: "f \<in> set (t_players s)"
    and free: "find_player s (pl_serverInstanceId f) key = None"
  shows "players_inv (s\<lparr>t_players := update_where (\<lambda>p. pl_id p = pl_id f)
    (\<lambda>p. p\<lparr>pl_identityKey := key, pl_steamId := st, pl_eosId := eo\<rparr>) (t_players s)\<rparr>)"
proof -
  let ?u = "\<lambda>p. p\<lparr>pl_identityKey := key, pl_steamId := st, pl_eosId := eo\<rparr>"
  let ?ps = "update_where (\<lambda>p. pl_id p = pl_id f) ?u (t_players s)"
  have ids: "map pl_id ?ps = map pl_id (t_players s)" by (rule map_update_where) simp
  then have idset: "pl_id ` set ?ps = pl_id ` set (t_players s)" by (metis list.set_map)
  have "distinct (map player_key ?ps)"
  proof (rule distinct_map_update_where [OF players_invD(2) [OF inv]])
    fix x y assume xy: "x \<in> set (t_players s)" "y \<in> set (t_players s)" "pl_id x = pl_id f" "pl_id y \<noteq> pl_id f"
    then have "x = f" using same_id [OF inv _ f] by blast
    with find_player_NoneD [OF free xy(2)] show "player_key (?u x) \<noteq> player_key y"
      by (auto simp: player_key_def)
  next
    fix x y assume "x \<in> set (t_players s)" "y \<in> set (t_players s)" "pl_id x = pl_id f" "pl_id y = pl_id f"
    then show "x = y" using same_id [OF inv] by metis
  qed
  moreover have "(pl_online p \<longleftrightarrow> pl_currentSessionStartedAt p \<noteq> None) \<and> (pl_online p \<longleftrightarrow> open_session s (pl_id p))"
    if p: "p \<in> set ?ps" for p
  proof -
    from p obtain q where q: "q \<in> set (t_players s)" "p = (if pl_id q = pl_id f then ?u q else q)"
      unfolding set_update_where by blast
    from players_invD(4,5) [OF inv q(1)] q(2) show ?thesis by auto
  qed
  moreover have "open_session (s\<lparr>t_players := ?ps\<rparr>) = open_session s"
    by (intro ext) (simp add: open_session_def)
  ultimately show ?thesis
    using players_invD(1,3) [OF inv] ids idset unfolding players_inv_def by auto
qed

lemma merge_inv:
  assumes inv: "players_inv s" and f: "f \<in> set (t_players s)" and c: "c \<in> set (t_players s)" and ne: "f \<noteq> c"
  shows "players_inv (s\<lparr>t_sessions := update_where (\<lambda>x. ses_playerId x = pl_id f)
             (\<lambda>x. x\<lparr>ses_playerId := pl_id c\<rparr>) (t_sessions s),
           t_players := delete_where (\<lambda>p. pl_id p = pl_id f)
             (update_where (\<lambda>p. pl_id p = pl_id c) (\<lambda>_. merge_player st eo f c) (t_players s))\<rparr>)"
    (is "players_inv ?s'")
proof -
  let ?m = "merge_player st eo f c"
  let ?us = "update_where (\<lambda>p. pl_id p = pl_id c) (\<lambda>_. ?m) (t_players s)"
  have m: "pl_id ?m = pl_id c" "player_key ?m = player_key c" "pl_online ?m \<longleftrightarrow> pl_online c \<or> pl_online f"
    by (simp_all add: merge_player_def Let_def player_key_def)
  have id_ne: "pl_id f \<noteq> pl_id c" using same_id [OF inv f c] ne by blast
  have only_c: "q = c" if "q \<in> set (t_players s)" "pl_id q = pl_id c" for q
    using same_id [OF inv that(1) c that(2)] .
  have "map pl_id ?us = map pl_id (t_players s)"
    by (rule map_update_where) (simp add: m)
  moreover have "map player_key ?us = map player_key (t_players s)"
  proof -
    have "map player_key (update_where (\<lambda>p. pl_id p = pl_id c) (\<lambda>_. ?m) xs) = map player_key xs"
      if "set xs \<subseteq> set (t_players s)" for xs
      using that by (induction xs) (auto simp: m dest: only_c)
    then show ?thesis by simp
  qed
  ultimately have dist: "distinct (map pl_id (t_players ?s'))" "distinct (map player_key (t_players ?s'))"
    using players_invD(1,2) [OF inv] by (simp_all add: distinct_delete_where)
  have mem: "p \<in> set (t_players ?s') \<longleftrightarrow> p = ?m \<or> p \<in> set (t_players s) \<and> p \<noteq> f \<and> p \<noteq> c" for p
  proof -
    have "p \<in> set ?us \<longleftrightarrow> p = ?m \<or> p \<in> set (t_players s) \<and> p \<noteq> c"
      unfolding set_update_where using c only_c by auto
    moreover have "pl_id p = pl_id f \<longleftrightarrow> p = f" if "p \<in> set (t_players s)" for p
      using same_id [OF inv that f] by blast
    ultimately show ?thesis
      using m(1) id_ne by (auto simp: set_delete_where)
  qed
  have open': "open_session ?s' pid \<longleftrightarrow> (if pid = pl_id c then open_session s (pl_id c) \<or> open_session s (pl_id f)
      else pid \<noteq> pl_id f \<and> open_session s pid)" for pid
    using id_ne by (auto simp: open_session_def bex_update_where)
  have sess: "ses_playerId x \<in> pl_id ` set (t_players ?s')" if x: "x \<in> set (t_sessions ?s')" for x
  proof -
    from x obtain y where y: "y \<in> set (t_sessions s)"
      "x = (if ses_playerId y = pl_id f then y\<lparr>ses_playerId := pl_id c\<rparr> else y)"
      by (auto simp: set_update_where)
    from players_invD(3) [OF inv y(1)] obtain q where q: "q \<in> set (t_players s)" "pl_id q = ses_playerId y" by force
    have "pl_id c \<in> pl_id ` set (t_players ?s')" using mem [of ?m] m(1) by (metis image_eqI)
    moreover have "pl_id q \<in> pl_id ` set (t_players ?s')" if "pl_id q \<noteq> pl_id f"
      using mem [of q] q(1) that calculation by (cases "q = c") auto
    ultimately show ?thesis using y(2) q(2) by auto
  qed
  have fine: "(pl_online p \<longleftrightarrow> pl_currentSessionStartedAt p \<noteq> None) \<and> (pl_online p \<longleftrightarrow> open_session ?s' (pl_id p))"
    if p: "p \<in> set (t_players ?s')" for p
  proof (cases "p = ?m")
    case True
    have "pl_currentSessionStartedAt ?m \<noteq> None \<longleftrightarrow> pl_online ?m"
      using players_invD(4) [OF inv c] players_invD(4) [OF inv f]
      by (auto simp: merge_player_def min_time_def or_else_def Let_def split: option.splits)
    with True players_invD(5) [OF inv c] players_invD(5) [OF inv f] show ?thesis
      by (auto simp: open' m)
  next
    case False
    with p mem have q: "p \<in> set (t_players s)" "p \<noteq> f" "p \<noteq> c" by auto
    then have "pl_id p \<noteq> pl_id f" "pl_id p \<noteq> pl_id c"
      using same_id [OF inv q(1) f] same_id [OF inv q(1) c] by blast+
    with players_invD(4,5) [OF inv q(1)] show ?thesis by (simp add: open')
  qed
  from dist sess fine show ?thesis unfolding players_inv_def by blast
qed

lemma reconcile_name_fallback_inv:
  assumes inv: "players_inv s"
  shows "players_inv (reconcile_name_fallback s sid key name st eo)"
proof (cases "js_starts_with key ''name:''")
  case True
  with inv show ?thesis by (simp add: reconcile_name_fallback_def)
next
  case False
  have ne: "key \<noteq> ''name:'' @ js_lower name"
    using False js_starts_with_append [of "''name:''"] by blast
  show ?thesis
  proof (cases "find_player s sid (''name:'' @ js_lower name)")
    case None
    with inv False show ?thesis by (simp add: reconcile_name_fallback_def)
  next
    case (Some f)
    from find_player_SomeD [OF Some] have f: "f \<in> set (t_players s)" "pl_serverInstanceId f = sid"
      "pl_identityKey f = ''name:'' @ js_lower name" by auto
    show ?thesis
    proof (cases "find_player s sid key")
      case None
      with promote_inv [OF inv f(1)] f(2) Some False show ?thesis
        by (simp add: reconcile_name_fallback_def)
    next
      case (Some c)
      from find_player_SomeD [OF Some] f ne have "c \<in> set (t_players s)" "f \<noteq> c" by auto
      with merge_inv [OF inv f(1)] Some False \<open>find_player s sid (''name:'' @ js_lower name) = Some f\<close>
      show ?thesis by (simp add: reconcile_name_fallback_def)
    qed
  qed
qed

definition env_ok :: "player_env \<Rightarrow> bool" where
  "env_ok env \<longleftrightarrow> (\<forall>s. pe_fresh_player env s \<notin> pl_id ` set (t_players s))"

definition new_session :: "id \<Rightarrow> time \<Rightarrow> player_session" where
  "new_session pid now = \<lparr>ses_playerId = pid, ses_startedAt = now, ses_endedAt = None, ses_durationSeconds = None\<rparr>"

text \<open>A player the server has not seen comes online.\<close>

lemma join_new_inv:
  assumes inv: "players_inv s" and fresh: "pl_id p \<notin> pl_id ` set (t_players s)"
    and none: "find_player s (pl_serverInstanceId p) (pl_identityKey p) = None"
    and on: "pl_online p" "pl_currentSessionStartedAt p \<noteq> None"
  shows "players_inv (s\<lparr>t_players := t_players s @ [p], t_sessions := t_sessions s @ [new_session (pl_id p) now]\<rparr>)"
    (is "players_inv ?s'")
proof -
  have other: "q \<in> set (t_players s) \<Longrightarrow> pl_id q \<noteq> pl_id p" for q using fresh by (metis image_eqI)
  have nosess: "ses_playerId x \<noteq> pl_id p" if "x \<in> set (t_sessions s)" for x
    using players_invD(3) [OF inv that] fresh by metis
  have nokey: "player_key q \<noteq> player_key p" if "q \<in> set (t_players s)" for q
    using find_player_NoneD [OF none that] by (auto simp: player_key_def)
  show ?thesis
    unfolding players_inv_def
  proof (intro conjI ballI)
    show "distinct (map pl_id (t_players ?s'))"
      using players_invD(1) [OF inv] fresh by simp
    show "distinct (map player_key (t_players ?s'))"
      using players_invD(2) [OF inv] nokey by force
    show "ses_playerId x \<in> pl_id ` set (t_players ?s')" if "x \<in> set (t_sessions ?s')" for x
      using that players_invD(3) [OF inv, of x] by (auto simp: new_session_def)
    fix q assume "q \<in> set (t_players ?s')"
    then show "pl_online q = (pl_currentSessionStartedAt q \<noteq> None)" "pl_online q = open_session ?s' (pl_id q)"
      using players_invD(4,5) [OF inv, of q] other [of q] nosess on
      by (auto simp: open_session_def new_session_def)
  qed
qed

text \<open>A known player is seen: the row \<open>e\<close> with this key changes and is online, with a session from now if it was not.\<close>

definition marks_seen :: "player \<Rightarrow> (player \<Rightarrow> player) \<Rightarrow> bool" where
  "marks_seen e u \<longleftrightarrow> (\<forall>p. pl_id (u p) = pl_id p \<and> player_key (u p) = player_key p \<and> pl_online (u p) \<and>
     (if pl_online e then pl_currentSessionStartedAt (u p) = pl_currentSessionStartedAt p
      else pl_currentSessionStartedAt (u p) \<noteq> None))"

lemma join_known_inv:
  assumes inv: "players_inv s" and found: "find_player s sid key = Some e" and u: "marks_seen e u"
  shows "players_inv (s\<lparr>t_players := update_where (\<lambda>p. pl_serverInstanceId p = sid \<and> pl_identityKey p = key) u (t_players s),
    t_sessions := t_sessions s @ (if pl_online e then [] else [new_session (pl_id e) now])\<rparr>)"
    (is "players_inv ?s'")
proof -
  from find_player_SomeD [OF found] have e: "e \<in> set (t_players s)" "pl_serverInstanceId e = sid"
    "pl_identityKey e = key" by auto
  have only: "q = e" if "q \<in> set (t_players s)" "pl_serverInstanceId q = sid" "pl_identityKey q = key" for q
    using same_key [OF inv that(1) e(1)] that e by simp
  have maps: "map pl_id (t_players ?s') = map pl_id (t_players s)"
    "map player_key (t_players ?s') = map player_key (t_players s)"
    using u by (simp_all add: map_update_where marks_seen_def)
  then have ids: "pl_id ` set (t_players ?s') = pl_id ` set (t_players s)" by (metis list.set_map)
  have os: "open_session ?s' pid \<longleftrightarrow> open_session s pid \<or> \<not> pl_online e \<and> pid = pl_id e" for pid
    by (auto simp: open_session_def new_session_def)
  have "ses_playerId x \<in> pl_id ` set (t_players ?s')" if "x \<in> set (t_sessions ?s')" for x
    using that e(1) players_invD(3) [OF inv, of x] unfolding ids by (auto simp: new_session_def split: if_splits)
  moreover have "(pl_online p \<longleftrightarrow> pl_currentSessionStartedAt p \<noteq> None) \<and> (pl_online p \<longleftrightarrow> open_session ?s' (pl_id p))"
    if "p \<in> set (t_players ?s')" for p
  proof -
    from that obtain q where q: "q \<in> set (t_players s)"
      "p = (if pl_serverInstanceId q = sid \<and> pl_identityKey q = key then u q else q)"
      by (auto simp: set_update_where)
    note inv_q = players_invD(4,5) [OF inv q(1)]
    show ?thesis
    proof (cases "pl_serverInstanceId q = sid \<and> pl_identityKey q = key")
      case True
      with only q(1) have qe: "q = e" by blast
      then have p: "p = u e" using True q(2) by simp
      have "pl_online p" "pl_currentSessionStartedAt p \<noteq> None" "pl_id p = pl_id e"
        using u inv_q unfolding p qe marks_seen_def by (auto split: if_splits)
      moreover have "open_session ?s' (pl_id e)"
        using inv_q unfolding os qe by blast
      ultimately show ?thesis by simp
    next
      case False
      with e have "q \<noteq> e" by auto
      with same_id [OF inv q(1) e(1)] have "pl_id q \<noteq> pl_id e" by blast
      moreover have "p = q" using False q(2) by auto
      ultimately show ?thesis using inv_q by (simp add: os)
    qed
  qed
  ultimately show ?thesis
    using players_invD(1,2) [OF inv] unfolding players_inv_def maps by blast
qed

text \<open>A player leaves: the row with this id goes offline, its open sessions end.\<close>

definition marks_left :: "(player \<Rightarrow> player) \<Rightarrow> bool" where
  "marks_left u \<longleftrightarrow> (\<forall>x. pl_id (u x) = pl_id x \<and> player_key (u x) = player_key x \<and> \<not> pl_online (u x) \<and>
     pl_currentSessionStartedAt (u x) = None)"

lemma leave_inv:
  assumes inv: "players_inv s" and u: "marks_left u"
  shows "players_inv (s\<lparr>t_players := update_where (\<lambda>x. pl_id x = pid) u (t_players s),
    t_sessions := update_where (\<lambda>x. ses_playerId x = pid \<and> ses_endedAt x = None)
      (\<lambda>x. x\<lparr>ses_endedAt := Some stop, ses_durationSeconds := d\<rparr>) (t_sessions s)\<rparr>)"
    (is "players_inv ?s'")
proof -
  have maps: "map pl_id (t_players ?s') = map pl_id (t_players s)"
    "map player_key (t_players ?s') = map player_key (t_players s)"
    using u by (simp_all add: map_update_where marks_left_def)
  then have ids: "pl_id ` set (t_players ?s') = pl_id ` set (t_players s)" by (metis list.set_map)
  have os: "open_session ?s' q \<longleftrightarrow> open_session s q \<and> q \<noteq> pid" for q
    by (auto simp: open_session_def bex_update_where)
  have "\<forall>x \<in> set (t_sessions ?s'). ses_playerId x \<in> pl_id ` set (t_players ?s')"
    unfolding ids using players_invD(3) [OF inv] by (auto simp: ball_update_where)
  moreover have "\<forall>x \<in> set (t_players ?s'). (pl_online x \<longleftrightarrow> pl_currentSessionStartedAt x \<noteq> None) \<and>
      (pl_online x \<longleftrightarrow> open_session ?s' (pl_id x))"
    using players_invD(4,5) [OF inv] u by (simp add: ball_update_where os marks_left_def)
  ultimately show ?thesis
    using players_invD(1,2) [OF inv] unfolding players_inv_def maps by blast
qed

lemma upsert_player_inv:
  assumes inv: "players_inv s" and env: "env_ok env"
  shows "players_inv (upsert_player env now oid sid l s)"
proof (cases "find_player s sid (identity_key l)")
  case None
  have "pe_fresh_player env s \<notin> pl_id ` set (t_players s)"
    using env by (simp add: env_ok_def)
  with join_new_inv [OF inv, of "\<lparr>pl_id = pe_fresh_player env s, pl_orgId = oid, pl_serverInstanceId = sid,
      pl_identityKey = identity_key l, pl_steamId = lp_steam l, pl_eosId = lp_eos l, pl_entityId = Some (lp_entityId l),
      pl_ipAddress = lp_ip l, pl_name = lp_name l, pl_online = True, pl_currentSessionStartedAt = Some now,
      pl_lifetimeSeconds = 0, pl_zombieKills = lp_zombieKills l, pl_playerKills = lp_playerKills l,
      pl_deaths = lp_deaths l, pl_level = lp_level l, pl_firstSeenAt = now, pl_lastSeenAt = now\<rparr>" now] None
  show ?thesis by (simp add: upsert_player_def Let_def new_session_def)
next
  case (Some e)
  have "marks_seen e (seen_row now l e)" by (simp add: marks_seen_def seen_row_def player_key_def)
  from join_known_inv [OF inv Some this, of now] show ?thesis
    by (simp add: upsert_player_def Let_def Some new_session_def split: if_splits)
qed

lemma see_player_inv: "players_inv s \<Longrightarrow> env_ok env \<Longrightarrow> players_inv (see_player env now oid sid l s)"
  unfolding see_player_def by (intro upsert_player_inv reconcile_name_fallback_inv)

lemma see_players_inv:
  "players_inv s \<Longrightarrow> env_ok env \<Longrightarrow> players_inv (fold (see_player env now oid sid) ls s)"
  by (induction ls arbitrary: s) (auto intro: see_player_inv)

lemma disconnect_player_rows:
  "\<exists>n. t_players (disconnect_player now p s) = update_where (\<lambda>x. pl_id x = pl_id p) (offline_row n) (t_players s)"
  by (auto simp: disconnect_player_def Let_def)

lemma disconnect_player_inv:
  assumes "players_inv s"
  shows "players_inv (disconnect_player now p s)"
  using leave_inv [OF assms] by (simp add: disconnect_player_def Let_def marks_left_def offline_row_def player_key_def)

lemma only_audit_tables:
  assumes "only_audit s s'"
  shows "t_players s' = t_players s" "t_sessions s' = t_sessions s" "t_runs s' = t_runs s"
    "t_jobs s' = t_jobs s" "t_batches s' = t_batches s" "t_userOrgs s' = t_userOrgs s"
  using arg_cong [OF assms [unfolded only_audit_def], of t_players]
    arg_cong [OF assms [unfolded only_audit_def], of t_sessions]
    arg_cong [OF assms [unfolded only_audit_def], of t_runs]
    arg_cong [OF assms [unfolded only_audit_def], of t_jobs]
    arg_cong [OF assms [unfolded only_audit_def], of t_batches]
    arg_cong [OF assms [unfolded only_audit_def], of t_userOrgs] by simp_all

lemma players_inv_only_audit:
  assumes "only_audit s s'"
  shows "players_inv s' = players_inv s"
proof -
  have "open_session s' = open_session s"
    by (intro ext) (simp add: open_session_def only_audit_tables [OF assms])
  then show ?thesis by (simp add: players_inv_def only_audit_tables [OF assms])
qed

lemma disconnect_players_spec:
  assumes "players_inv s"
  shows "players_inv (snd (disconnect_players env now oid sid nm ps mem s)) \<and>
    (\<forall>x \<in> set (t_players (snd (disconnect_players env now oid sid nm ps mem s))). \<exists>q \<in> set (t_players s).
       pl_id x = pl_id q \<and> player_key x = player_key q \<and>
       (pl_online x \<longleftrightarrow> pl_online q \<and> pl_id q \<notin> pl_id ` set ps))"
  using assms
proof (induction ps arbitrary: mem s)
  case Nil
  then show ?case by auto
next
  case (Cons p ps)
  obtain mem' s' where m: "send_matching_rules (pe_post env) mem (disconnect_player now p s) now
      ''PLAYER_DISCONNECTED'' (disconnect_context now oid sid nm p) = (mem', s')" by fastforce
  with send_matching_only_audit [of "disconnect_player now p s" "pe_post env" mem now "''PLAYER_DISCONNECTED''"
      "disconnect_context now oid sid nm p"]
  have oa: "only_audit (disconnect_player now p s) s'" by simp
  have inv': "players_inv s'"
    using disconnect_player_inv [OF Cons.prems] players_inv_only_audit [OF oa] by simp
  have one: "\<exists>q \<in> set (t_players s). pl_id x = pl_id q \<and> player_key x = player_key q \<and>
      (pl_online x \<longleftrightarrow> pl_online q \<and> pl_id q \<noteq> pl_id p)" if "x \<in> set (t_players s')" for x
  proof -
    obtain n where n: "t_players (disconnect_player now p s) =
        update_where (\<lambda>x. pl_id x = pl_id p) (offline_row n) (t_players s)"
      using disconnect_player_rows by blast
    from that obtain q where "q \<in> set (t_players s)" "x = (if pl_id q = pl_id p then offline_row n q else q)"
      unfolding only_audit_tables(1) [OF oa] n set_update_where by blast
    then show ?thesis
      by (intro bexI [of _ q]) (auto simp: offline_row_def player_key_def)
  qed
  note ih = Cons.IH [OF inv', of mem']
  have "\<exists>q \<in> set (t_players s). pl_id x = pl_id q \<and> player_key x = player_key q \<and>
       (pl_online x \<longleftrightarrow> pl_online q \<and> pl_id q \<notin> pl_id ` set (p # ps))"
    if "x \<in> set (t_players (snd (disconnect_players env now oid sid nm ps mem' s')))" for x
  proof -
    from ih that obtain y where y: "y \<in> set (t_players s')" "pl_id x = pl_id y" "player_key x = player_key y"
      "pl_online x \<longleftrightarrow> pl_online y \<and> pl_id y \<notin> pl_id ` set ps" by blast
    from one [OF y(1)] y(2-4) show ?thesis by auto
  qed
  with ih m show ?case by simp
qed

text \<open>The invariant is kept by a whole reconciliation.\<close>

lemma reconcile_players_inv:
  assumes "players_inv s" and "env_ok env"
  shows "players_inv (snd (reconcile_players env mem s now oid sid out))"
  using assms see_players_inv disconnect_players_spec
  by (simp add: reconcile_players_def Let_def)

text \<open>The players whose key was seen are online while the lines are worked off.\<close>

definition seen_online :: "store \<Rightarrow> id \<Rightarrow> string set \<Rightarrow> bool" where
  "seen_online s sid seen \<longleftrightarrow> (\<forall>p \<in> set (t_players s). pl_serverInstanceId p = sid \<and> pl_identityKey p \<in> seen \<longrightarrow> pl_online p)"

lemma fallback_seen_online:
  assumes so: "seen_online s sid seen" and inv: "players_inv s"
    and p: "p \<in> set (t_players (reconcile_name_fallback s sid key name st eo))"
    and pk: "pl_serverInstanceId p = sid" "pl_identityKey p \<in> seen" "pl_identityKey p \<noteq> key"
  shows "pl_online p"
proof -
  have "p \<in> set (t_players s)"
    if np: "\<not> (js_starts_with key ''name:'')" "find_player s sid (''name:'' @ js_lower name) = Some f"
       "find_player s sid key = None" for f
    using p pk(3) np by (auto simp: reconcile_name_fallback_def set_update_where image_iff)
  moreover have "p \<in> set (t_players s)"
    if np: "\<not> (js_starts_with key ''name:'')" "find_player s sid (''name:'' @ js_lower name) = Some f"
       "find_player s sid key = Some c" for f c
  proof -
    have "pl_identityKey (merge_player st eo f c) = key"
      using find_player_SomeD [OF np(3)] by (simp add: merge_player_def Let_def)
    then show ?thesis
      using p pk(3) np by (auto simp: reconcile_name_fallback_def set_delete_where set_update_where image_iff split: if_splits)
  qed
  ultimately have "p \<in> set (t_players s)"
    using p unfolding reconcile_name_fallback_def by (auto split: option.splits if_splits)
  with so pk show ?thesis by (simp add: seen_online_def)
qed

lemma see_player_seen_online:
  assumes so: "seen_online s sid seen" and inv: "players_inv s"
  shows "seen_online (see_player env now oid sid l s) sid (insert (identity_key l) seen)"
  unfolding seen_online_def
proof (intro ballI impI)
  fix p
  let ?s1 = "reconcile_name_fallback s sid (identity_key l) (lp_name l) (lp_steam l) (lp_eos l)"
  assume p: "p \<in> set (t_players (see_player env now oid sid l s))"
    and k: "pl_serverInstanceId p = sid \<and> pl_identityKey p \<in> insert (identity_key l) seen"
  show "pl_online p"
  proof (cases "find_player ?s1 sid (identity_key l)")
    case None
    with p consider "pl_online p" | "p \<in> set (t_players ?s1)"
      by (auto simp: see_player_def upsert_player_def Let_def)
    then show ?thesis
    proof cases
      case 2
      with find_player_NoneD [OF None 2] k have "pl_identityKey p \<noteq> identity_key l" by simp
      with fallback_seen_online [OF so inv 2] k show ?thesis by auto
    qed
  next
    case (Some e)
    with p consider "pl_online p" | "p \<in> set (t_players ?s1)" "\<not> (pl_serverInstanceId p = sid \<and> pl_identityKey p = identity_key l)"
      by (auto simp: see_player_def upsert_player_def seen_row_def Let_def set_update_where image_iff split: if_splits)
    then show ?thesis
    proof cases
      case 2
      with fallback_seen_online [OF so inv 2(1)] k show ?thesis by auto
    qed
  qed
qed

lemma see_players_seen_online:
  "seen_online s sid seen \<Longrightarrow> players_inv s \<Longrightarrow> env_ok env \<Longrightarrow>
   seen_online (fold (see_player env now oid sid) ls s) sid (identity_key ` set ls \<union> seen)"
proof (induction ls arbitrary: s seen)
  case Nil
  then show ?case by simp
next
  case (Cons l ls)
  from Cons.IH [OF see_player_seen_online [OF Cons.prems(1,2)] see_player_inv [OF Cons.prems(2,3)] Cons.prems(3)]
  show ?case by simp
qed

section \<open>A concrete listing for the witnesses\<close>

definition sample_fresh :: "store \<Rightarrow> id" where
  "sample_fresh s = CHR ''p'' # concat (map pl_id (t_players s))"

definition sample_env :: player_env where
  "sample_env = \<lparr>pe_post = (\<lambda>_ _ _. PostOk), pe_fresh_player = sample_fresh\<rparr>"

lemma sample_env_ok: "env_ok sample_env"
proof -
  have "sample_fresh s \<notin> pl_id ` set (t_players s)" for s
  proof
    assume "sample_fresh s \<in> pl_id ` set (t_players s)"
    then have "length (sample_fresh s) \<le> length (concat (map pl_id (t_players s)))"
      by (intro length_in_concat) auto
    then show False by (simp add: sample_fresh_def)
  qed
  then show ?thesis by (simp add: env_ok_def sample_env_def)
qed

definition sample_listing :: string where
  "sample_listing = ''0. id=7, Bob,'' @ [CHR 0x0D, CHR 0x0A] @ ''Total of 1 in the game''"

lemmas parse_eval = re_eval total_re_def head_re_def steam_re_def eos_re_def ip_re_def stat_re_def
  number_field_def parse_line_def identity_key_def listed_players_def js_trim_def
  is_hex_def digits_value_def digit_value_def

lemma sample_listing_total: "re_test total_re sample_listing"
  by (simp add: sample_listing_def parse_eval)

lemma sample_listing_lines: "split_lines sample_listing = [''0. id=7, Bob,'', ''Total of 1 in the game'']"
  by (simp add: sample_listing_def)

lemma sample_listing_players: "map identity_key (listed_players sample_listing) = [''name:bob'']"
proof -
  have "js_lower ''Bob'' = ''bob''" by code_simp
  then show ?thesis
    unfolding listed_players_def sample_listing_lines by (simp add: parse_eval)
qed

lemma empty_players_inv: "players_inv empty_store"
  by (simp add: players_inv_def empty_store_def)

lemma sample_run:
  "\<exists>p. t_players (snd (reconcile_players sample_env empty_alerts_mem empty_store 0 ''o'' ''s'' sample_listing)) = [p] \<and>
    pl_serverInstanceId p = ''s'' \<and> pl_identityKey p = ''name:bob''"
proof -
  obtain l where l: "listed_players sample_listing = [l]" "identity_key l = ''name:bob''"
    using sample_listing_players by auto
  let ?s1 = "see_player sample_env 0 ''o'' ''s'' l empty_store"
  have "find_player empty_store ''s'' ''name:bob'' = None"
    by (simp add: find_player_def empty_store_def)
  then obtain p where p: "t_players ?s1 = [p]" "pl_serverInstanceId p = ''s''" "pl_identityKey p = ''name:bob''"
    by (simp add: see_player_def l reconcile_name_fallback_def upsert_player_def Let_def empty_store_def)
  then have "missing_players ?s1 ''s'' [''name:bob''] = []"
    by (simp add: missing_players_def)
  with p sample_listing_total show ?thesis
    by (simp add: reconcile_players_def Let_def l)
qed

section \<open>Properties\<close>

text \<open>
  C10. Sessions stay consistent: if player ids and the identity keys per server are unique
  and a player is online exactly when it has a session start and an open session, then all
  of this holds again after any reconciliation, merges of name-only records included.
\<close>

theorem player_sessions_consistent:
  assumes "players_inv s" and "env_ok env"
  shows "players_inv (snd (reconcile_players env mem s now oid sid out))"
  by (rule reconcile_players_inv [OF assms])

theorem player_sessions_consistent_witness:
  "players_inv (snd (reconcile_players sample_env empty_alerts_mem empty_store 0 ''o'' ''s'' sample_listing))"
  by (rule player_sessions_consistent [OF empty_players_inv sample_env_ok])



end
