(* ===== verification/PlayersService.thy ===== *)
theory PlayersService
  imports SampleWorld Players
begin

text \<open>
  \<open>players/players.service.ts\<close>: the periodic request of player listings, the list of
  players and the protection settings of a server.
\<close>

section \<open>Polling\<close>

definition first_member :: "store \<Rightarrow> id \<Rightarrow> id option" where
  "first_member s orgId = map_option uo_userId
     (oldest_by uo_createdAt (filter (\<lambda>m. uo_orgId m = orgId) (t_userOrgs s)))"

definition game_reachable :: "store \<Rightarrow> server_instance \<Rightarrow> bool" where
  "game_reachable s si = (case find_host s (si_hostId si) of
     None \<Rightarrow> False
   | Some h \<Rightarrow> (case h_lastMetrics h of None \<Rightarrow> False | Some m \<Rightarrow> jget m ''gameReachable'' = Some (JBool True)))"

definition recently_synced :: "store \<Rightarrow> time \<Rightarrow> id \<Rightarrow> bool" where
  "recently_synced s now sid = exists_where (\<lambda>j. j_serverInstanceId j = Some sid \<and>
     j_type j = ''PLAYER_LIST_SYNC'' \<and> now - 45000 \<le> j_createdAt j) (t_jobs s)"

definition poll_server :: "(store \<Rightarrow> job_ids) \<Rightarrow> time \<Rightarrow> server_instance \<Rightarrow> store \<Rightarrow> store result" where
  "poll_server fresh now si s =
    (if \<not> game_reachable s si then Inr s
     else (case first_member s (si_orgId si) of
       None \<Rightarrow> Inr s
     | Some userId \<Rightarrow>
         if recently_synced s now (si_id si) then Inr s
         else (case create_job (fresh s) s now (si_orgId si) userId (si_id si) ''PLAYER_LIST_SYNC'' (Some []) of
                 Inl e \<Rightarrow> Inl e | Inr (s', ids) \<Rightarrow> Inr s')))"

text \<open>An exception ends the loop; what was created before it stays.\<close>

fun poll_servers ::
  "(store \<Rightarrow> job_ids) \<Rightarrow> time \<Rightarrow> server_instance list \<Rightarrow> store \<Rightarrow> store \<times> http_error option" where
  "poll_servers fresh now [] s = (s, None)"
| "poll_servers fresh now (si # sis) s = (case poll_server fresh now si s of
     Inl e \<Rightarrow> (s, Some e)
   | Inr s' \<Rightarrow> poll_servers fresh now sis s')"

text \<open>
  The flag \<open>polling\<close> is set while a poll runs; a poll that finds it set does nothing.
\<close>

definition poll_players ::
  "(store \<Rightarrow> job_ids) \<Rightarrow> bool \<Rightarrow> store \<Rightarrow> time \<Rightarrow> store \<times> http_error option" where
  "poll_players fresh polling s now =
    (if polling then (s, None)
     else poll_servers fresh now
       (filter (\<lambda>si. game_slug s (si_gameTypeId si) = ''7dtd'') (t_serverInstances s)) s)"

text \<open>\<open>Math.max(15, Number(process.env.PLAYER_POLL_INTERVAL_SEC || 60))\<close>, in seconds.\<close>

definition poll_interval_sec :: "string option \<Rightarrow> int option" where
  "poll_interval_sec env = map_option (max 15)
     (case env of None \<Rightarrow> Some 60 | Some v \<Rightarrow> if v = [] then Some 60 else js_string_int v)"

section \<open>Protection settings\<close>

definition default_protection :: "id \<Rightarrow> protection_settings" where
  "default_protection sid = \<lparr>ps_serverInstanceId = sid, ps_highPingEnabled = False,
     ps_highPingThresholdMs = 250, ps_highPingSamples = 3,
     ps_highPingReason = ''Connection latency remained too high'', ps_countryBanEnabled = False,
     ps_blockedCountryCodes = [], ps_countryAction = ''kick'', ps_countryBanDuration = ''365 days'',
     ps_countryReason = ''Connections from your country are not allowed''\<rparr>"

definition find_protection :: "store \<Rightarrow> id \<Rightarrow> protection_settings option" where
  "find_protection s sid = List.find (\<lambda>p. ps_serverInstanceId p = sid) (t_protection s)"

text \<open>\<open>serverProtectionSettings.upsert\<close>\<close>

definition upsert_protection :: "protection_settings \<Rightarrow> store \<Rightarrow> store" where
  "upsert_protection p s = s\<lparr>t_protection :=
    (if find_protection s (ps_serverInstanceId p) = None then t_protection s @ [p]
     else update_where (\<lambda>x. ps_serverInstanceId x = ps_serverInstanceId p) (\<lambda>_. p) (t_protection s))\<rparr>"

definition get_protection_settings :: "store \<Rightarrow> id \<Rightarrow> id \<Rightarrow> (store \<times> protection_settings) result" where
  "get_protection_settings s orgId sid = (case find_server_in_org s sid orgId of
     None \<Rightarrow> Inl (NotFoundException ''Server instance not found'')
   | Some _ \<Rightarrow> (case find_protection s sid of
       Some p \<Rightarrow> Inr (s, p)
     | None \<Rightarrow> Inr (upsert_protection (default_protection sid) s, default_protection sid)))"

definition is_country_code :: "string \<Rightarrow> bool" where
  "is_country_code x \<longleftrightarrow> length x = 2 \<and> list_all (\<lambda>c. 65 \<le> (of_char c :: nat) \<and> (of_char c :: nat) \<le> 90) x"

definition country_codes :: "json option \<Rightarrow> string list" where
  "country_codes v = (case v of
     Some (JArr vs) \<Rightarrow> js_unique (filter is_country_code (map (\<lambda>x. js_upper (js_trim (js_string x))) vs))
   | _ \<Rightarrow> [])"

definition single_line :: "string \<Rightarrow> string" where
  "single_line s = map (\<lambda>c. if c = CHR 0x0D \<or> c = CHR 0x0A then CHR '' '' else c) s"

definition clean_text :: "json option \<Rightarrow> string \<Rightarrow> nat \<Rightarrow> string" where
  "clean_text v fallback mx = (let t = take mx (js_trim (single_line (case v of None \<Rightarrow> fallback | Some x \<Rightarrow> js_string x)))
     in if t = [] then fallback else t)"

definition number_setting :: "json \<Rightarrow> string \<Rightarrow> int \<Rightarrow> int option" where
  "number_setting body k dflt = (case nullish_get body k of None \<Rightarrow> Some dflt | Some v \<Rightarrow> js_int v)"

definition protection_of_body :: "id \<Rightarrow> json \<Rightarrow> int \<Rightarrow> int \<Rightarrow> protection_settings" where
  "protection_of_body sid body threshold samples =
     \<lparr>ps_serverInstanceId = sid, ps_highPingEnabled = truthy (jget body ''highPingEnabled''),
      ps_highPingThresholdMs = threshold, ps_highPingSamples = samples,
      ps_highPingReason = clean_text (nullish_get body ''highPingReason'') ''Connection latency remained too high'' 200,
      ps_countryBanEnabled = truthy (jget body ''countryBanEnabled''),
      ps_blockedCountryCodes = country_codes (jget body ''blockedCountryCodes''),
      ps_countryAction = (if jget body ''countryAction'' = Some (JStr ''ban'') then ''ban'' else ''kick''),
      ps_countryBanDuration = clean_text (nullish_get body ''countryBanDuration'') ''365 days'' 40,
      ps_countryReason = clean_text (nullish_get body ''countryReason'')
        ''Connections from your country are not allowed'' 200\<rparr>"

definition update_protection_settings ::
  "store \<Rightarrow> id \<Rightarrow> id \<Rightarrow> json \<Rightarrow> (store \<times> protection_settings) result" where
  "update_protection_settings s orgId sid body = (case find_server_in_org s sid orgId of
     None \<Rightarrow> Inl (NotFoundException ''Server instance not found'')
   | Some _ \<Rightarrow> (case number_setting body ''highPingThresholdMs'' 250 of
       None \<Rightarrow> Inl (BadRequestException ''Ping threshold must be 50-5000 ms'')
     | Some threshold \<Rightarrow>
         if threshold < 50 \<or> 5000 < threshold
         then Inl (BadRequestException ''Ping threshold must be 50-5000 ms'')
         else (case number_setting body ''highPingSamples'' 3 of
           None \<Rightarrow> Inl (BadRequestException ''Bad sample count must be 2-20'')
         | Some samples \<Rightarrow>
             if samples < 2 \<or> 20 < samples
             then Inl (BadRequestException ''Bad sample count must be 2-20'')
             else let p = protection_of_body sid body threshold samples
                  in Inr (upsert_protection p s, p))))"

section \<open>The list\<close>

record player_view =
  pv_player :: player
  pv_sessionSeconds :: int
  pv_lifetimeSeconds :: int

definition in_scope :: "id \<Rightarrow> id option \<Rightarrow> player \<Rightarrow> bool" where
  "in_scope orgId sid p \<longleftrightarrow> pl_orgId p = orgId \<and>
     (case sid of None \<Rightarrow> True | Some i \<Rightarrow> i = [] \<or> pl_serverInstanceId p = i)"

definition view_player :: "time \<Rightarrow> player \<Rightarrow> player_view" where
  "view_player now p = (let secs = (if pl_online p then session_seconds now (pl_currentSessionStartedAt p) else 0)
     in \<lparr>pv_player = p, pv_sessionSeconds = secs, pv_lifetimeSeconds = pl_lifetimeSeconds p + secs\<rparr>)"

definition merge_name_records :: "player list \<Rightarrow> store \<Rightarrow> store" where
  "merge_name_records ps s = fold (\<lambda>p s. reconcile_name_fallback s (pl_serverInstanceId p)
     (pl_identityKey p) (pl_name p) (pl_steamId p) (pl_eosId p)) ps s"

text \<open>Online first, the last seen first among equals (a stable sort).\<close>

definition list_players :: "store \<Rightarrow> time \<Rightarrow> id \<Rightarrow> id option \<Rightarrow> store \<times> player_view list" where
  "list_players s now orgId sid =
    (let s' = merge_name_records (filter (\<lambda>p. in_scope orgId sid p \<and>
           \<not> js_starts_with (pl_identityKey p) ''name:'') (t_players s)) s
     in (s', map (view_player now) (sort_key (\<lambda>p. (if pl_online p then 0 else 1 :: int))
           (sort_key (\<lambda>p. - pl_lastSeenAt p) (filter (in_scope orgId sid) (t_players s'))))))"

section \<open>Lemmas\<close>

lemma sync_type: "normalize_job_type ''PLAYER_LIST_SYNC'' = ''PLAYER_LIST_SYNC''"
  by code_simp

lemma poll_server_cases:
  assumes "poll_server fresh now si s = Inr s'"
  shows "s' = s \<or> (\<not> recently_synced s now (si_id si) \<and> (\<exists>uid x. si_id x = si_id si \<and>
    s' = insert_job (fresh s) s now (si_orgId si) (Some uid) x ''PLAYER_LIST_SYNC'' (merged_payload s x (Some []))))"
proof (cases "s' = s")
  case False
  with assms obtain uid ids where n: "\<not> recently_synced s now (si_id si)"
    and c: "create_job (fresh s) s now (si_orgId si) uid (si_id si) ''PLAYER_LIST_SYNC'' (Some []) = Inr (s', ids)"
    by (auto simp: poll_server_def split: if_splits option.splits sum.splits)
  from create_job_InrD [OF c] obtain x where "find_server_in_org s (si_id si) (si_orgId si) = Some x"
    "s' = insert_job (fresh s) s now (si_orgId si) (Some uid) x ''PLAYER_LIST_SYNC'' (merged_payload s x (Some []))"
    by (auto simp: sync_type)
  with n find_server_in_org_SomeD show ?thesis by blast
qed simp

text \<open>An attempt to poll one server, and whether it asked for a listing.\<close>

definition poll_admit ::
  "(store \<Rightarrow> job_ids) \<times> server_instance \<Rightarrow> time \<Rightarrow> store \<Rightarrow> store \<times> bool" where
  "poll_admit a now s = (case poll_server (fst a) now (snd a) s of
     Inl e \<Rightarrow> (s, False)
   | Inr s' \<Rightarrow> (s', length (t_jobs s) < length (t_jobs s')))"

lemma poll_admit_cases:
  "poll_admit a now s = (s, False) \<or>
   (\<not> recently_synced s now (si_id (snd a)) \<and> (\<exists>uid x. si_id x = si_id (snd a) \<and>
     poll_admit a now s = (insert_job (fst a s) s now (si_orgId (snd a)) (Some uid) x ''PLAYER_LIST_SYNC''
       (merged_payload s x (Some [])), True)))"
proof (cases "poll_server (fst a) now (snd a) s")
  case (Inr s')
  from poll_server_cases [OF this] show ?thesis
  proof (elim disjE conjE exE)
    assume "s' = s"
    with Inr show ?thesis by (simp add: poll_admit_def)
  next
    fix uid x assume n: "\<not> recently_synced s now (si_id (snd a))" and x: "si_id x = si_id (snd a)"
      and s': "s' = insert_job (fst a s) s now (si_orgId (snd a)) (Some uid) x ''PLAYER_LIST_SYNC'' (merged_payload s x (Some []))"
    from Inr have "poll_admit a now s = (s', True)"
      by (simp add: poll_admit_def s')
    with n x s' show ?thesis by blast
  qed
qed (simp add: poll_admit_def)

interpretation polling: throttle poll_admit "\<lambda>a. si_id (snd a)" "\<lambda>k t s. recently_synced s t k" 45000
proof unfold_locales
  fix a :: "(store \<Rightarrow> job_ids) \<times> server_instance" and t u :: time and s :: store and k :: id
  show "\<not> snd (poll_admit a t s)" if "recently_synced s t (si_id (snd a))"
    using poll_admit_cases [of a t s] that by auto
  show "recently_synced (fst (poll_admit a t s)) u (si_id (snd a))"
    if "snd (poll_admit a t s)" "t \<le> u" "u - t < 45000"
    using poll_admit_cases [of a t s] that by (auto simp: recently_synced_def exists_where_def)
  show "recently_synced (fst (poll_admit a t s)) u k" if "t \<le> u" "recently_synced s u k"
    using poll_admit_cases [of a t s] that by (auto simp: recently_synced_def exists_where_def)
qed

lemma find_replaced:
  "List.find Q rows \<noteq> None \<Longrightarrow> Q p \<Longrightarrow> List.find Q (update_where Q (\<lambda>_. p) rows) = Some p"
  by (induction rows) auto

lemma set_js_trim: "set (js_trim s) \<subseteq> set s"
  unfolding js_trim_def by (auto dest!: set_dropWhileD)

lemma clean_text_ok:
  assumes "fallback \<noteq> []" and "length fallback \<le> mx" and "CHR 0x0D \<notin> set fallback" and "CHR 0x0A \<notin> set fallback"
  shows "clean_text v fallback mx \<noteq> [] \<and> length (clean_text v fallback mx) \<le> mx \<and>
    CHR 0x0D \<notin> set (clean_text v fallback mx) \<and> CHR 0x0A \<notin> set (clean_text v fallback mx)"
proof -
  define t where "t = take mx (js_trim (single_line (case v of None \<Rightarrow> fallback | Some x \<Rightarrow> js_string x)))"
  have "set t \<subseteq> set (single_line (case v of None \<Rightarrow> fallback | Some x \<Rightarrow> js_string x))"
    unfolding t_def using set_take_subset set_js_trim by (rule subset_trans)
  moreover have "CHR 0x0D \<notin> set (single_line x)" "CHR 0x0A \<notin> set (single_line x)" for x
    by (auto simp: single_line_def split: if_splits)
  ultimately have "CHR 0x0D \<notin> set t" "CHR 0x0A \<notin> set t" by blast+
  moreover have "length t \<le> mx" by (simp add: t_def)
  moreover have "clean_text v fallback mx = (if t = [] then fallback else t)"
    by (simp only: clean_text_def Let_def t_def)
  ultimately show ?thesis using assms by simp
qed

text \<open>The sum of the recorded play time.\<close>

definition play_time :: "store \<Rightarrow> int" where
  "play_time s = sum_list (map pl_lifetimeSeconds (t_players s))"

lemma sum_update_where:
  assumes "distinct (map key xs)" and "c \<in> set xs"
  shows "sum_list (map v (update_where (\<lambda>p. key p = key c) f xs)) = sum_list (map v xs) - v c + (v (f c) :: int)"
  using assms
proof (induction xs)
  case Nil
  then show ?case by simp
next
  case (Cons x xs)
  show ?case
  proof (cases "x = c")
    case True
    have "update_where (\<lambda>p. key p = key c) f xs = xs"
      by (rule update_where_none) (use True Cons.prems in \<open>auto simp: image_iff\<close>)
    with True show ?thesis by simp
  next
    case False
    with Cons show ?thesis by (auto simp: image_iff)
  qed
qed

lemma sum_delete_where:
  assumes "distinct (map key xs)" and "c \<in> set xs"
  shows "sum_list (map v (delete_where (\<lambda>p. key p = key c) xs)) = sum_list (map v xs) - (v c :: int)"
  using assms
proof (induction xs)
  case Nil
  then show ?case by (simp add: delete_where_def)
next
  case (Cons x xs)
  show ?case
  proof (cases "x = c")
    case True
    have "filter (\<lambda>p. key p \<noteq> key c) xs = xs"
      by (rule filter_True) (use True Cons.prems in \<open>auto simp: image_iff\<close>)
    with True show ?thesis by (simp add: delete_where_def)
  next
    case False
    with Cons show ?thesis by (auto simp: image_iff delete_where_def)
  qed
qed

lemma reconcile_play_time:
  assumes inv: "players_inv s"
  shows "play_time (reconcile_name_fallback s sid key name st eo) = play_time s"
proof -
  note d = players_invD(1) [OF inv]
  consider "reconcile_name_fallback s sid key name st eo = s"
    | f where "\<not> js_starts_with key ''name:''" "find_player s sid (''name:'' @ js_lower name) = Some f"
        "find_player s sid key = None"
    | f c where "\<not> js_starts_with key ''name:''" "find_player s sid (''name:'' @ js_lower name) = Some f"
        "find_player s sid key = Some c"
  proof -
    assume a: "\<And>f. \<not> js_starts_with key ''name:'' \<Longrightarrow> find_player s sid (''name:'' @ js_lower name) = Some f \<Longrightarrow>
        find_player s sid key = None \<Longrightarrow> thesis"
      and b: "\<And>f c. \<not> js_starts_with key ''name:'' \<Longrightarrow> find_player s sid (''name:'' @ js_lower name) = Some f \<Longrightarrow>
        find_player s sid key = Some c \<Longrightarrow> thesis"
      and c: "reconcile_name_fallback s sid key name st eo = s \<Longrightarrow> thesis"
    show thesis
    proof (cases "js_starts_with key ''name:'' \<or> find_player s sid (''name:'' @ js_lower name) = None")
      case True
      then have "reconcile_name_fallback s sid key name st eo = s"
        unfolding reconcile_name_fallback_def by (elim disjE) (simp_all only: option.case if_cancel if_True)
      then show thesis by (rule c)
    next
      case False
      then obtain f where f: "\<not> js_starts_with key ''name:''" "find_player s sid (''name:'' @ js_lower name) = Some f"
        by blast
      show thesis
        by (cases "find_player s sid key") (blast intro: a [OF f] b [OF f])+
    qed
  qed
  then show ?thesis
  proof cases
    case 1
    then show ?thesis by simp
  next
    case 2
    from find_player_SomeD [OF 2(2)] have "f \<in> set (t_players s)" by blast
    from sum_update_where [OF d this, where v = pl_lifetimeSeconds] 2 show ?thesis
      by (simp add: reconcile_name_fallback_def play_time_def)
  next
    case 3
    from find_player_SomeD [OF 3(2)] find_player_SomeD [OF 3(3)]
    have f: "f \<in> set (t_players s)" and c: "c \<in> set (t_players s)" and ne: "f \<noteq> c"
      using 3(1) js_starts_with_append [of "''name:''"] by auto
    let ?m = "merge_player st eo f c"
    let ?ps = "update_where (\<lambda>p. pl_id p = pl_id c) (\<lambda>_. ?m) (t_players s)"
    have ids: "pl_id ?m = pl_id c" by (simp add: merge_player_def Let_def)
    then have "map pl_id ?ps = map pl_id (t_players s)" by (intro map_update_where) simp
    with d have dps: "distinct (map pl_id ?ps)" by simp
    have "pl_id f \<noteq> pl_id c" using same_id [OF inv f c] ne by blast
    then have fps: "f \<in> set ?ps" using f unfolding set_update_where by force
    from sum_delete_where [OF dps fps, where v = pl_lifetimeSeconds]
      sum_update_where [OF d c, where v = pl_lifetimeSeconds and f = "\<lambda>_. ?m"]
    show ?thesis
      using 3 by (simp add: reconcile_name_fallback_def play_time_def merge_player_def Let_def)
  qed
qed

lemma merge_name_records_spec:
  "players_inv s \<Longrightarrow> players_inv (merge_name_records ps s) \<and> play_time (merge_name_records ps s) = play_time s"
proof (induction ps arbitrary: s)
  case Nil
  then show ?case by (simp add: merge_name_records_def)
next
  case (Cons p ps)
  from Cons.IH [OF reconcile_name_fallback_inv [OF Cons.prems]] reconcile_play_time [OF Cons.prems]
  show ?case by (simp add: merge_name_records_def)
qed

section \<open>Properties\<close>

text \<open>
  The polling of a game server is throttled: in every run of polls in time order, the
  listings that polling requests for one server are at least 45 seconds apart.
\<close>

theorem player_polls_spaced:
  assumes "ordered_from t0 as"
  shows "spaced 45000 (run_throttle poll_admit (\<lambda>a. si_id (snd a)) as s)"
  by (rule polling.run_spaced [OF assms])

theorem player_polls_spaced_witness:
  "spaced 45000 (run_throttle poll_admit (\<lambda>a. si_id (snd a))
     [((sample_job_ids, sample_server), 0), ((sample_job_ids, sample_server), 10),
      ((sample_job_ids, sample_server), 45001)] sample_world) \<and>
   run_throttle poll_admit (\<lambda>a. si_id (snd a))
     [((sample_job_ids, sample_server), 0), ((sample_job_ids, sample_server), 10),
      ((sample_job_ids, sample_server), 45001)] sample_world = [(''s'', 0), (''s'', 45001)]"
proof (rule conjI)
  show "spaced 45000 (run_throttle poll_admit (\<lambda>a. si_id (snd a))
     [((sample_job_ids, sample_server), 0), ((sample_job_ids, sample_server), 10),
      ((sample_job_ids, sample_server), 45001)] sample_world)"
    by (rule player_polls_spaced [of 0]) simp
  show "run_throttle poll_admit (\<lambda>a. si_id (snd a))
     [((sample_job_ids, sample_server), 0), ((sample_job_ids, sample_server), 10),
      ((sample_job_ids, sample_server), 45001)] sample_world = [(''s'', 0), (''s'', 45001)]"
    by code_simp
qed

text \<open>
  Merging name-only records loses no play time and duplicates none: reading the list of
  players keeps the sum of the recorded seconds and the consistency of players and
  sessions, and every player it shows is a row of the organisation.
\<close>

theorem list_players_keeps_play_time:
  assumes "players_inv s" and "list_players s now orgId sid = (s', views)"
  shows "players_inv s' \<and> play_time s' = play_time s \<and>
    set (map pv_player views) = {p \<in> set (t_players s'). in_scope orgId sid p}"
  using assms merge_name_records_spec [OF assms(1)]
  by (auto simp: list_players_def Let_def view_player_def image_image)

theorem list_players_keeps_play_time_witness:
  "players_inv (fst (list_players (snd (reconcile_players sample_env empty_alerts_mem empty_store 0 ''o'' ''s'' sample_listing)) 9 ''o'' None)) \<and>
   play_time (fst (list_players (snd (reconcile_players sample_env empty_alerts_mem empty_store 0 ''o'' ''s'' sample_listing)) 9 ''o'' None)) =
   play_time (snd (reconcile_players sample_env empty_alerts_mem empty_store 0 ''o'' ''s'' sample_listing))"
  using list_players_keeps_play_time [OF reconcile_players_inv [OF empty_players_inv sample_env_ok] prod.collapse [symmetric]]
  by blast

text \<open>
  C40. Protection settings stay within their bounds whatever body is sent: an accepted
  update stores a threshold of 50 to 5000 ms, 2 to 20 samples, distinct two-letter country
  codes, the action kick or ban, and non-empty texts of one line and at most 200
  characters, and it is what the server's settings read back as.
\<close>

theorem protection_settings_bounded:
  assumes "update_protection_settings s orgId sid body = Inr (s', p)"
  shows "50 \<le> ps_highPingThresholdMs p \<and> ps_highPingThresholdMs p \<le> 5000 \<and>
    2 \<le> ps_highPingSamples p \<and> ps_highPingSamples p \<le> 20 \<and>
    distinct (ps_blockedCountryCodes p) \<and> list_all is_country_code (ps_blockedCountryCodes p) \<and>
    ps_countryAction p \<in> {''kick'', ''ban''} \<and>
    list_all (\<lambda>t. t \<noteq> [] \<and> length t \<le> 200 \<and> CHR 0x0D \<notin> set t \<and> CHR 0x0A \<notin> set t)
      [ps_highPingReason p, ps_countryBanDuration p, ps_countryReason p] \<and>
    get_protection_settings s' orgId sid = Inr (s', p)"
proof -
  from assms obtain th n where p: "p = protection_of_body sid body th n" "s' = upsert_protection p s"
    "50 \<le> th" "th \<le> 5000" "2 \<le> n" "n \<le> 20" "find_server_in_org s sid orgId \<noteq> None"
    by (auto simp: update_protection_settings_def Let_def split: option.splits if_splits)
  have sid: "ps_serverInstanceId p = sid" by (simp add: p(1) protection_of_body_def)
  have "find_protection s' sid = Some p"
    using sid unfolding p(2)
    using find_replaced [of "\<lambda>x. ps_serverInstanceId x = sid" "t_protection s" p]
    by (auto simp: upsert_protection_def find_protection_def find_append)
  then have "get_protection_settings s' orgId sid = Inr (s', p)"
    using p(7) by (auto simp: get_protection_settings_def p(2) upsert_protection_def find_server_in_org_def)
  moreover have "list_all (\<lambda>t. t \<noteq> [] \<and> length t \<le> 200 \<and> CHR 0x0D \<notin> set t \<and> CHR 0x0A \<notin> set t)
      [ps_highPingReason p, ps_countryBanDuration p, ps_countryReason p]"
    using clean_text_ok [of "''Connection latency remained too high''" 200 "nullish_get body ''highPingReason''"]
      clean_text_ok [of "''365 days''" 40 "nullish_get body ''countryBanDuration''"]
      clean_text_ok [of "''Connections from your country are not allowed''" 200 "nullish_get body ''countryReason''"]
    by (simp add: p(1) protection_of_body_def)
  moreover have "distinct (country_codes v) \<and> list_all is_country_code (country_codes v)" for v
    by (auto simp: country_codes_def list_all_iff split: option.splits json.splits)
  ultimately show ?thesis
    using p(3-6) by (simp add: p(1) protection_of_body_def)
qed

theorem protection_settings_bounded_witness:
  "\<exists>s' p. update_protection_settings sample_world ''o'' ''s''
      (JObj [(''highPingThresholdMs'', JNum 300), (''highPingReason'', JStr [CHR 0x0A, CHR ''x''])]) = Inr (s', p) \<and>
    get_protection_settings s' ''o'' ''s'' = Inr (s', p) \<and> ps_highPingReason p = ''x''"
proof -
  let ?b = "JObj [(''highPingThresholdMs'', JNum 300), (''highPingReason'', JStr [CHR 0x0A, CHR ''x''])]"
  have "case update_protection_settings sample_world ''o'' ''s'' ?b of
      Inl e \<Rightarrow> False | Inr (s', p) \<Rightarrow> ps_highPingReason p = ''x''" by code_simp
  then obtain s' p where "update_protection_settings sample_world ''o'' ''s'' ?b = Inr (s', p)" "ps_highPingReason p = ''x''"
    by (auto split: sum.splits)
  with protection_settings_bounded [OF this(1)] show ?thesis by blast
qed

end
