(* ===== verification/Protection.thy ===== *)
theory Protection
  imports PlayersService
begin

text \<open>
  \<open>enforceConnectionTools\<close>, \<open>isPrivateAddress\<close> and \<open>countryForIp\<close> of
  \<open>jobs/jobs.service.ts\<close>: after a player listing, kicks for a persistently high ping and
  kicks or bans by country.  The service's memory is its three maps; \<open>geo ip\<close> is the
  country service's answer (the \<open>country\<close> of a successful JSON response, None for every
  failure), and new job ids come from a function of the store.
\<close>

record protection_mem =
  pm_badPingSamples :: "(string \<times> int) list"
  pm_cooldown :: "(string \<times> time) list"
  pm_countryCache :: "(string \<times> (string \<times> time)) list"

record protection_env =
  pr_geo :: "string \<Rightarrow> string option"
  pr_fresh :: "store \<Rightarrow> job_ids"

section \<open>Addresses\<close>

definition private_re :: re where
  "private_re = Seq Bol (Seqs [Alt (lit_i ''10.'') (Alt (lit_i ''127.'') (Alt (lit_i ''192.168.'')
     (Alt (lit_i ''169.254.'')
     (Alt (Seqs [lit_i ''172.'', Alt (Seq (ci (CHR ''1'')) (Cls (\<lambda>c. c \<in> set ''6789'')))
             (Alt (Seq (ci (CHR ''2'')) Digit) (Seq (ci (CHR ''3'')) (Cls (\<lambda>c. c \<in> set ''01'')))), lit_i ''.''])
     (Alt (Seq (lit_i ''::1'') Eol) (Alt (lit_i ''fc'') (lit_i ''fd'')))))))])"

definition is_private_address :: "string \<Rightarrow> bool" where
  "is_private_address ip = re_test private_re ip"

text \<open>Answers that are no two-letter code are not cached.\<close>

definition country_for_ip ::
  "(string \<Rightarrow> string option) \<Rightarrow> time \<Rightarrow> string \<Rightarrow> (string \<times> (string \<times> time)) list \<Rightarrow>
   (string \<times> (string \<times> time)) list \<times> string" where
  "country_for_ip geo now ip cache =
    (let asked = (case geo ip of
           None \<Rightarrow> (cache, [])
         | Some c \<Rightarrow> let code = js_upper c
                    in if is_country_code code then (jput cache ip (code, now + 24 * 60 * 60000), code)
                       else (cache, []))
     in case map_of cache ip of
          Some (code, expires) \<Rightarrow> if now < expires then (cache, code) else asked
        | None \<Rightarrow> asked)"

section \<open>One line of the listing\<close>

record seen_line =
  sl_entity :: string
  sl_identifier :: string
  sl_ping :: "int option"
  sl_ip :: "string option"

definition ping_re :: re where
  "ping_re = Seqs [WordB, lit_i ''ping'', Star Space, lit_i ''='', Star Space, Group 1 (Plus Digit)]"

definition nonempty_or :: "string option \<Rightarrow> string \<Rightarrow> string" where
  "nonempty_or v d = (case v of None \<Rightarrow> d | Some x \<Rightarrow> if x = [] then d else x)"

definition read_line :: "string \<Rightarrow> seen_line option" where
  "read_line line = (case re_group head_re 1 line of
     None \<Rightarrow> None
   | Some eid \<Rightarrow> Some \<lparr>sl_entity = eid,
        sl_identifier = nonempty_or (re_group steam_re 1 line) (nonempty_or (re_group eos_re 1 line) eid),
        sl_ping = map_option (\<lambda>ds. int (digits_value ds)) (re_group ping_re 1 line),
        sl_ip = map_option (\<lambda>x. hd (js_split (CHR '':'') (strip_brackets x))) (re_group ip_re 1 line)\<rparr>)"

text \<open>
  The job for a player: what is created and until when the player is left alone then.  The
  cooldown is set only after \<open>createJob\<close> returned; its exception ends the loop.
\<close>

definition punish ::
  "protection_env \<Rightarrow> time \<Rightarrow> id \<Rightarrow> id \<Rightarrow> id \<Rightarrow> string \<Rightarrow> (string \<times> json) list \<Rightarrow> string \<Rightarrow> int \<Rightarrow>
   protection_mem \<times> store \<Rightarrow> (protection_mem \<times> store) \<times> http_error option" where
  "punish env now orgId userId sid ty payload key pause ms =
    (case create_job (pr_fresh env (snd ms)) (snd ms) now orgId userId sid ty (Some payload) of
       Inl e \<Rightarrow> (ms, Some e)
     | Inr (s', ids) \<Rightarrow> (((fst ms)\<lparr>pm_cooldown := jput (pm_cooldown (fst ms)) key (now + pause)\<rparr>, s'), None))"

text \<open>The check by country, for a line that the ping check let pass.\<close>

definition enforce_country ::
  "protection_env \<Rightarrow> time \<Rightarrow> id \<Rightarrow> id \<Rightarrow> id \<Rightarrow> protection_settings \<Rightarrow> string \<Rightarrow> seen_line \<Rightarrow>
   protection_mem \<times> store \<Rightarrow> (protection_mem \<times> store) \<times> http_error option" where
  "enforce_country env now orgId userId sid st key l ms =
    (if \<not> ps_countryBanEnabled st then (ms, None)
     else (case sl_ip l of
       None \<Rightarrow> (ms, None)
     | Some ip \<Rightarrow>
         if ip = [] \<or> is_private_address ip then (ms, None)
         else
           let (cache, code) = country_for_ip (pr_geo env) now ip (pm_countryCache (fst ms));
               ms' = ((fst ms)\<lparr>pm_countryCache := cache\<rparr>, snd ms);
               ty = (if ps_countryAction st = ''ban'' then ''PLAYER_BAN'' else ''PLAYER_KICK'')
           in if code \<noteq> [] \<and> code \<in> set (ps_blockedCountryCodes st)
              then punish env now orgId userId sid ty
                ([(''identifier'', JStr (sl_identifier l)),
                  (''reason'', JStr (ps_countryReason st @ '' ('' @ code @ '')''))] @
                 (if ty = ''PLAYER_BAN'' then [(''duration'', JStr (ps_countryBanDuration st))] else []))
                key (24 * 60 * 60000) ms'
              else (ms', None)))"

definition cooling :: "string \<Rightarrow> time \<Rightarrow> protection_mem \<Rightarrow> bool" where
  "cooling key now m \<longleftrightarrow> now < (case map_of (pm_cooldown m) key of None \<Rightarrow> 0 | Some t \<Rightarrow> t)"

definition ping_count :: "protection_settings \<Rightarrow> int \<Rightarrow> string \<Rightarrow> protection_mem \<Rightarrow> int" where
  "ping_count st ping key m = (if ps_highPingThresholdMs st < ping
     then (case map_of (pm_badPingSamples m) key of None \<Rightarrow> 0 | Some n \<Rightarrow> n) + 1 else 0)"

definition line_key :: "id \<Rightarrow> seen_line \<Rightarrow> string" where
  "line_key sid l = sid @ '':'' @ sl_identifier l"

definition enforce_line ::
  "protection_env \<Rightarrow> time \<Rightarrow> id \<Rightarrow> id \<Rightarrow> id \<Rightarrow> protection_settings \<Rightarrow> seen_line \<Rightarrow>
   protection_mem \<times> store \<Rightarrow> (protection_mem \<times> store) \<times> http_error option" where
  "enforce_line env now orgId userId sid st l ms =
    (let key = line_key sid l in
     if cooling key now (fst ms) then (ms, None)
     else (case (ps_highPingEnabled st, sl_ping l) of
       (True, Some ping) \<Rightarrow>
         let count = ping_count st ping key (fst ms);
             ms1 = ((fst ms)\<lparr>pm_badPingSamples := jput (pm_badPingSamples (fst ms)) key count\<rparr>, snd ms)
         in if ps_highPingSamples st \<le> count
            then (case punish env now orgId userId sid ''PLAYER_KICK''
                    [(''identifier'', JStr (sl_identifier l)),
                     (''reason'', JStr (ps_highPingReason st @ '' ('' @ int_string ping @ '' ms)''))]
                    key (5 * 60000) ms1 of
                  (ms2, Some e) \<Rightarrow> (ms2, Some e)
                | (ms2, None) \<Rightarrow>
                    (((fst ms2)\<lparr>pm_badPingSamples := jput (pm_badPingSamples (fst ms2)) key 0\<rparr>, snd ms2), None))
            else enforce_country env now orgId userId sid st key l ms1
     | _ \<Rightarrow> enforce_country env now orgId userId sid st key l ms))"

section \<open>The whole listing\<close>

fun enforce_lines ::
  "protection_env \<Rightarrow> time \<Rightarrow> id \<Rightarrow> id \<Rightarrow> id \<Rightarrow> protection_settings \<Rightarrow> string list \<Rightarrow>
   protection_mem \<times> store \<Rightarrow> (protection_mem \<times> store) \<times> http_error option" where
  "enforce_lines env now orgId userId sid st [] ms = (ms, None)"
| "enforce_lines env now orgId userId sid st (line # rest) ms = (case read_line line of
     None \<Rightarrow> enforce_lines env now orgId userId sid st rest ms
   | Some l \<Rightarrow> (case enforce_line env now orgId userId sid st l ms of
       (ms', Some e) \<Rightarrow> (ms', Some e)
     | (ms', None) \<Rightarrow> enforce_lines env now orgId userId sid st rest ms'))"

definition enforce_connection_tools ::
  "protection_env \<Rightarrow> time \<Rightarrow> protection_mem \<times> store \<Rightarrow> id \<Rightarrow> id \<Rightarrow> string \<Rightarrow>
   (protection_mem \<times> store) \<times> http_error option" where
  "enforce_connection_tools env now ms orgId sid output = (case find_protection (snd ms) sid of
     None \<Rightarrow> (ms, None)
   | Some st \<Rightarrow>
       if \<not> ps_highPingEnabled st \<and> \<not> ps_countryBanEnabled st then (ms, None)
       else (case first_member (snd ms) orgId of
         None \<Rightarrow> (ms, None)
       | Some userId \<Rightarrow> enforce_lines env now orgId userId sid st (split_lines output) ms))"

section \<open>Jobs and batches are kept\<close>

definition protection_env_ok :: "protection_env \<Rightarrow> bool" where
  "protection_env_ok env \<longleftrightarrow> (\<forall>s. fresh_job s (pr_fresh env s))"

lemma punish_inv:
  assumes "protection_env_ok env" and "jobs_inv d (snd ms)"
  shows "jobs_inv d (snd (fst (punish env now o' u sid ty p key pause ms)))"
proof (cases "create_job (pr_fresh env (snd ms)) (snd ms) now o' u sid ty (Some p)")
  case (Inl e)
  with assms(2) show ?thesis by (simp add: punish_def)
next
  case (Inr r)
  obtain s' ids where r: "r = (s', ids)" by fastforce
  have "fresh_job (snd ms) (pr_fresh env (snd ms))" using assms(1) by (simp add: protection_env_ok_def)
  from create_job_inv [OF assms(2) this Inr [unfolded r]] Inr r show ?thesis by (simp add: punish_def)
qed

lemma enforce_country_inv:
  assumes "protection_env_ok env" and "jobs_inv d (snd ms)"
  shows "jobs_inv d (snd (fst (enforce_country env now o' u sid st key l ms)))"
  using assms
  by (auto simp: enforce_country_def Let_def split: option.splits prod.splits intro!: punish_inv)

lemma enforce_line_inv:
  assumes "protection_env_ok env" and "jobs_inv d (snd ms)"
  shows "jobs_inv d (snd (fst (enforce_line env now o' u sid st l ms)))"
proof -
  note punish_inv [OF assms(1)]
  moreover note enforce_country_inv [OF assms(1)]
  ultimately show ?thesis
    using assms(2) unfolding enforce_line_def Let_def
    by (auto split: option.splits prod.splits bool.splits) (metis fst_conv snd_conv)+
qed

lemma enforce_lines_inv:
  "protection_env_ok env \<Longrightarrow> jobs_inv d (snd ms) \<Longrightarrow>
   jobs_inv d (snd (fst (enforce_lines env now o' u sid st lines ms)))"
proof (induction lines arbitrary: ms)
  case Nil
  then show ?case by simp
next
  case (Cons line lines)
  show ?case
  proof (cases "read_line line")
    case None
    with Cons show ?thesis by simp
  next
    case (Some l)
    obtain ms' e where m: "enforce_line env now o' u sid st l ms = (ms', e)" by fastforce
    with enforce_line_inv [OF Cons.prems, of now o' u sid st l] have "jobs_inv d (snd ms')" by simp
    with Cons m Some show ?thesis by (cases e) simp_all
  qed
qed

lemma enforce_inv:
  "protection_env_ok env \<Longrightarrow> jobs_inv d (snd ms) \<Longrightarrow>
   jobs_inv d (snd (fst (enforce_connection_tools env now ms o' sid out)))"
  by (auto simp: enforce_connection_tools_def intro: enforce_lines_inv split: option.splits)

section \<open>Spacing of the jobs against one player\<close>

definition created :: "store \<Rightarrow> store \<Rightarrow> bool" where
  "created s s' \<longleftrightarrow> length (t_jobs s) < length (t_jobs s')"

text \<open>
  What one line did: nothing to the cooldowns and no job, or a job and a pause of at least
  five minutes for its key, when the key was not cooling.
\<close>

lemma punish_cases:
  obtains e where "punish env now o' u sid ty p key pause ms = (ms, Some e)"
  | s' where "punish env now o' u sid ty p key pause ms =
      (((fst ms)\<lparr>pm_cooldown := jput (pm_cooldown (fst ms)) key (now + pause)\<rparr>, s'), None)" "created (snd ms) s'"
proof (cases "create_job (pr_fresh env (snd ms)) (snd ms) now o' u sid ty (Some p)")
  case (Inl e)
  then show thesis by (intro that(1) [of e]) (simp add: punish_def)
next
  case (Inr r)
  obtain s' ids where r: "r = (s', ids)" by fastforce
  with create_job_InrD [OF Inr [unfolded r]] have "created (snd ms) s'" by (auto simp: created_def)
  with Inr r show thesis by (intro that(2) [of s']) (simp_all add: punish_def)
qed

definition line_effect :: "string \<Rightarrow> time \<Rightarrow> protection_mem \<times> store \<Rightarrow> protection_mem \<times> store \<Rightarrow> bool" where
  "line_effect key now ms ms' \<longleftrightarrow>
     (pm_cooldown (fst ms') = pm_cooldown (fst ms) \<and> snd ms' = snd ms) \<or>
     (\<not> cooling key now (fst ms) \<and> created (snd ms) (snd ms') \<and>
      (pm_cooldown (fst ms') = jput (pm_cooldown (fst ms)) key (now + 300000) \<or>
       pm_cooldown (fst ms') = jput (pm_cooldown (fst ms)) key (now + 86400000)))"

lemma country_effect:
  assumes "\<not> cooling key now (fst ms)"
  shows "line_effect key now ms (fst (enforce_country env now o' u sid st key l ms))"
proof (cases "\<not> ps_countryBanEnabled st \<or> sl_ip l = None \<or> sl_ip l = Some [] \<or> is_private_address (the (sl_ip l))")
  case True
  then show ?thesis by (auto simp: enforce_country_def line_effect_def split: option.splits)
next
  case False
  then obtain ip where ip: "sl_ip l = Some ip" "ip \<noteq> []" "\<not> is_private_address ip" "ps_countryBanEnabled st" by auto
  obtain cache code where c: "country_for_ip (pr_geo env) now ip (pm_countryCache (fst ms)) = (cache, code)" by fastforce
  let ?ms = "((fst ms)\<lparr>pm_countryCache := cache\<rparr>, snd ms)"
  let ?ty = "if ps_countryAction st = ''ban'' then ''PLAYER_BAN'' else ''PLAYER_KICK''"
  let ?p = "[(''identifier'', JStr (sl_identifier l)), (''reason'', JStr (ps_countryReason st @ '' ('' @ code @ '')''))] @
    (if ?ty = ''PLAYER_BAN'' then [(''duration'', JStr (ps_countryBanDuration st))] else [])"
  have eq: "enforce_country env now o' u sid st key l ms = (if code \<noteq> [] \<and> code \<in> set (ps_blockedCountryCodes st)
      then punish env now o' u sid ?ty ?p key (24 * 60 * 60000) ?ms else (?ms, None))"
    by (simp add: enforce_country_def ip c Let_def del: append.simps)
  show ?thesis
    unfolding eq
    by (rule punish_cases [of env now o' u sid ?ty ?p key "24 * 60 * 60000" ?ms])
      (use assms in \<open>auto simp: line_effect_def simp del: append.simps\<close>)
qed

lemma enforce_line_effect:
  "line_effect (line_key sid l) now ms (fst (enforce_line env now o' u sid st l ms))"
proof (cases "cooling (line_key sid l) now (fst ms)")
  case True
  then show ?thesis by (simp add: enforce_line_def line_effect_def Let_def)
next
  case False
  let ?k = "line_key sid l"
  show ?thesis
  proof (cases "ps_highPingEnabled st \<and> sl_ping l \<noteq> None")
    case no_ping: False
    then have "enforce_line env now o' u sid st l ms = enforce_country env now o' u sid st ?k l ms"
      using False by (auto simp: enforce_line_def Let_def split: bool.splits option.splits)
    with country_effect [OF False] show ?thesis by simp
  next
    case True
    then obtain ping where ping: "ps_highPingEnabled st" "sl_ping l = Some ping" by auto
    let ?n = "ping_count st ping ?k (fst ms)"
    let ?ms1 = "((fst ms)\<lparr>pm_badPingSamples := jput (pm_badPingSamples (fst ms)) ?k ?n\<rparr>, snd ms)"
    show ?thesis
    proof (cases "ps_highPingSamples st \<le> ?n")
      case kick: True
      let ?p = "[(''identifier'', JStr (sl_identifier l)),
        (''reason'', JStr (ps_highPingReason st @ '' ('' @ int_string ping @ '' ms)''))]"
      show ?thesis
        by (rule punish_cases [of env now o' u sid "''PLAYER_KICK''" ?p ?k "5 * 60000" ?ms1])
          (use False ping kick in \<open>auto simp: enforce_line_def line_effect_def Let_def simp del: append.simps\<close>)
    next
      case no_kick: False
      have "line_effect ?k now ?ms1 (fst (enforce_country env now o' u sid st ?k l ?ms1))"
        by (rule country_effect) (use False in \<open>simp add: cooling_def\<close>)
      moreover have "enforce_line env now o' u sid st l ms = enforce_country env now o' u sid st ?k l ?ms1"
        using False ping no_kick by (simp add: enforce_line_def Let_def)
      ultimately show ?thesis using False by (simp add: line_effect_def cooling_def)
    qed
  qed
qed

text \<open>An attempt at a player: the line with its settings and the store at that moment.\<close>

record attempt =
  at_env :: protection_env
  at_org :: id
  at_user :: id
  at_server :: id
  at_settings :: protection_settings
  at_line :: seen_line
  at_store :: store

definition attempt_key :: "attempt \<Rightarrow> string" where
  "attempt_key a = line_key (at_server a) (at_line a)"

definition attempt_job :: "attempt \<Rightarrow> time \<Rightarrow> protection_mem \<Rightarrow> protection_mem \<times> bool" where
  "attempt_job a now m =
    (let ms = fst (enforce_line (at_env a) now (at_org a) (at_user a) (at_server a) (at_settings a) (at_line a) (m, at_store a))
     in (fst ms, created (at_store a) (snd ms)))"

lemma attempt_effect: "\<exists>s'. line_effect (attempt_key a) now (m, at_store a) (fst (attempt_job a now m), s') \<and>
    snd (attempt_job a now m) = created (at_store a) s'"
proof -
  let ?ms = "fst (enforce_line (at_env a) now (at_org a) (at_user a) (at_server a) (at_settings a) (at_line a) (m, at_store a))"
  have "line_effect (attempt_key a) now (m, at_store a) ?ms"
    unfolding attempt_key_def by (rule enforce_line_effect)
  then show ?thesis
    by (intro exI [of _ "snd ?ms"]) (simp add: attempt_job_def Let_def)
qed

interpretation punishing: throttle attempt_job attempt_key cooling 300000
proof unfold_locales
  fix a :: attempt and t u :: time and m :: protection_mem and k :: string
  note e = attempt_effect [of a t m]
  show "\<not> snd (attempt_job a t m)" if "cooling (attempt_key a) t m"
    using e that by (auto simp: line_effect_def created_def)
  show "cooling (attempt_key a) u (fst (attempt_job a t m))"
    if "snd (attempt_job a t m)" "t \<le> u" "u - t < 300000"
    using e that by (auto simp: line_effect_def created_def cooling_def map_of_jput)
  show "cooling k u (fst (attempt_job a t m))" if "t \<le> u" "cooling k u m"
    using e that by (auto simp: line_effect_def cooling_def map_of_jput)
qed

section \<open>A kick for ping needs a streak of bad samples\<close>

definition bad_count :: "string \<Rightarrow> protection_mem \<Rightarrow> int" where
  "bad_count key m = (case map_of (pm_badPingSamples m) key of None \<Rightarrow> 0 | Some n \<Rightarrow> n)"

text \<open>The reported pings in order, and how many at the end are above the threshold.\<close>

definition pings :: "(attempt \<times> time) list \<Rightarrow> int list" where
  "pings as = List.map_filter (\<lambda>(a, t). sl_ping (at_line a)) as"

definition bad_streak :: "int \<Rightarrow> int list \<Rightarrow> int" where
  "bad_streak threshold ps = int (length (takeWhile (\<lambda>p. threshold < p) (rev ps)))"

definition memory_after :: "(attempt \<times> time) list \<Rightarrow> protection_mem \<Rightarrow> protection_mem" where
  "memory_after as m = foldl (\<lambda>m (a, t). fst (attempt_job a t m)) m as"

lemma pings_snoc: "pings (as @ [(a, t)]) = pings as @ (case sl_ping (at_line a) of None \<Rightarrow> [] | Some p \<Rightarrow> [p])"
  by (auto simp: pings_def map_filter_def split: option.splits)

lemma bad_streak_snoc: "bad_streak thr (ps @ [p]) = (if thr < p then bad_streak thr ps + 1 else 0)"
  by (simp add: bad_streak_def)

lemma bad_streak_nonneg [simp]: "0 \<le> bad_streak thr ps"
  by (simp add: bad_streak_def)

lemma attempt_no_country:
  fixes a :: attempt
  defines "k \<equiv> attempt_key a"
  assumes nc: "\<not> ps_countryBanEnabled (at_settings a)"
  shows "cooling k t m \<Longrightarrow> attempt_job a t m = (m, False)"
    and "\<not> (ps_highPingEnabled (at_settings a) \<and> sl_ping (at_line a) \<noteq> None) \<Longrightarrow> attempt_job a t m = (m, False)"
    and "\<not> cooling k t m \<Longrightarrow> ps_highPingEnabled (at_settings a) \<Longrightarrow> sl_ping (at_line a) = Some p \<Longrightarrow>
      (let n = ping_count (at_settings a) p k m; (m', ok) = attempt_job a t m
       in (bad_count k m' = n \<or> bad_count k m' = 0) \<and>
          (ok \<longrightarrow> bad_count k m' = 0 \<and> ps_highPingSamples (at_settings a) \<le> n) \<and>
          (\<not> ok \<longrightarrow> pm_cooldown m' = pm_cooldown m))"
proof -
  have c: "enforce_country env now o' u sid (at_settings a) key l ms = (ms, None)" for env now o' u sid key l ms
    using nc by (simp add: enforce_country_def)
  show "cooling k t m \<Longrightarrow> attempt_job a t m = (m, False)"
    by (simp add: attempt_job_def enforce_line_def Let_def created_def k_def attempt_key_def)
  show "\<not> (ps_highPingEnabled (at_settings a) \<and> sl_ping (at_line a) \<noteq> None) \<Longrightarrow> attempt_job a t m = (m, False)"
    by (auto simp: attempt_job_def enforce_line_def Let_def created_def c split: bool.splits option.splits)
  assume nc: "\<not> cooling k t m" and hp: "ps_highPingEnabled (at_settings a)" and p: "sl_ping (at_line a) = Some p"
  let ?st = "at_settings a" and ?l = "at_line a"
  let ?n = "ping_count ?st p k m"
  let ?m1 = "m\<lparr>pm_badPingSamples := jput (pm_badPingSamples m) k ?n\<rparr>"
  let ?p = "[(''identifier'', JStr (sl_identifier ?l)), (''reason'', JStr (ps_highPingReason ?st @ '' ('' @ int_string p @ '' ms)''))]"
  have k: "line_key (at_server a) ?l = k" by (simp add: k_def attempt_key_def)
  show "let n = ?n; (m', ok) = attempt_job a t m
       in (bad_count k m' = n \<or> bad_count k m' = 0) \<and> (ok \<longrightarrow> bad_count k m' = 0 \<and> ps_highPingSamples ?st \<le> n) \<and>
          (\<not> ok \<longrightarrow> pm_cooldown m' = pm_cooldown m)"
  proof (cases "ps_highPingSamples ?st \<le> ?n")
    case False
    then have "attempt_job a t m = (?m1, False)"
      using nc hp p by (simp add: attempt_job_def enforce_line_def Let_def created_def k c)
    then show ?thesis by (simp add: bad_count_def map_of_jput)
  next
    case True
    show ?thesis
      by (rule punish_cases [of "at_env a" t "at_org a" "at_user a" "at_server a" "''PLAYER_KICK''" ?p k "5 * 60000" "(?m1, at_store a)"])
        (use nc hp p True in \<open>auto simp: attempt_job_def enforce_line_def Let_def created_def k bad_count_def map_of_jput simp del: append.simps\<close>)
  qed
qed

lemma ordered_from_snoc:
  "ordered_from t0 (ys @ [(a, t)]) \<Longrightarrow> ordered_from t0 ys \<and> t0 \<le> t \<and> (\<forall>(b, u) \<in> set ys. u \<le> t)"
  by (induction ys arbitrary: t0) force+

lemma streak_invariant:
  assumes "ordered_from t0 as" and "\<And>a t. (a, t) \<in> set as \<Longrightarrow> attempt_key a = k \<and> at_settings a = st"
    and "\<not> ps_countryBanEnabled st" and "ps_highPingEnabled st"
    and "bad_count k m = 0" and "pm_cooldown m = []" and "\<And>a t. (a, t) \<in> set as \<Longrightarrow> t \<le> stop" and "t0 \<le> stop"
  shows "bad_count k (memory_after as m) \<le> bad_streak (ps_highPingThresholdMs st) (pings as) \<and>
    (cooling k stop (memory_after as m) \<longrightarrow> bad_count k (memory_after as m) = 0)"
  using assms
proof (induction as arbitrary: stop rule: rev_induct)
  case Nil
  then show ?case by (simp add: memory_after_def pings_def map_filter_def)
next
  case (snoc x as)
  obtain a t where x: "x = (a, t)" by fastforce
  have key: "attempt_key a = k" "at_settings a = st" and ts: "t \<le> stop" "t0 \<le> t" "\<And>b u. (b, u) \<in> set as \<Longrightarrow> u \<le> t"
    and o': "ordered_from t0 as"
  proof -
    show "attempt_key a = k" "at_settings a = st" "t \<le> stop" using snoc.prems(2,7) x by auto
    from ordered_from_snoc [of t0 as a t] snoc.prems(1) x
    show "t0 \<le> t" "ordered_from t0 as" "\<And>b u. (b, u) \<in> set as \<Longrightarrow> u \<le> t" by auto
  qed
  let ?m = "memory_after as m" and ?ps = "pings as" and ?thr = "ps_highPingThresholdMs st"
  have keys: "attempt_key b = k \<and> at_settings b = st" if "(b, u) \<in> set as" for b u
    by (rule snoc.prems(2) [of b u]) (use that in simp)
  have "bad_count k ?m \<le> bad_streak ?thr ?ps \<and> (cooling k t ?m \<longrightarrow> bad_count k ?m = 0)"
    by (rule snoc.IH [OF o' _ snoc.prems(3-6) _ ts(2)]) (use keys ts(3) in blast)+
  then have ih1: "bad_count k ?m \<le> bad_streak ?thr ?ps" "cooling k t ?m \<Longrightarrow> bad_count k ?m = 0"
    by blast+
  have m': "memory_after (as @ [x]) m = fst (attempt_job a t ?m)" by (simp add: memory_after_def x)
  note no_country = attempt_no_country [of a, unfolded key, OF snoc.prems(3)]
  have later: "cooling k t m'" if "cooling k stop m'" for m'
    using that ts(1) by (simp add: cooling_def)
  show ?case
  proof (cases "sl_ping (at_line a)")
    case None
    then show ?thesis
      using no_country(2) ih1 later unfolding m' by (simp add: x pings_snoc)
  next
    case (Some p)
    show ?thesis
    proof (cases "cooling k t ?m")
      case True
      then show ?thesis
        using no_country(1) ih1(2) unfolding m' by (simp add: x pings_snoc Some)
    next
      case False
      have n: "ping_count st p k ?m = (if ?thr < p then bad_count k ?m + 1 else 0)"
        by (simp add: ping_count_def bad_count_def)
      obtain m'' ok where j: "attempt_job a t ?m = (m'', ok)" by fastforce
      from no_country(3) [OF False snoc.prems(4) Some] j have
        "bad_count k m'' = ping_count st p k ?m \<or> bad_count k m'' = 0" "ok \<longrightarrow> bad_count k m'' = 0"
        "\<not> ok \<longrightarrow> pm_cooldown m'' = pm_cooldown ?m" by (auto simp: Let_def)
      moreover have "\<not> cooling k stop m''" if "pm_cooldown m'' = pm_cooldown ?m"
        using that False later [of m''] by (auto simp: cooling_def)
      ultimately show ?thesis
        using ih1(1) unfolding m' j by (auto simp: x pings_snoc Some bad_streak_snoc n)
    qed
  qed
qed

section \<open>Properties\<close>

text \<open>
  C29. However often listings arrive, the jobs that kick or ban one player of one server are
  at least five minutes apart.
\<close>

theorem punishments_spaced:
  assumes "ordered_from t0 as"
  shows "spaced 300000 (run_throttle attempt_job attempt_key as m)"
  by (rule punishing.run_spaced [OF assms])


definition sample_env_protection :: protection_env where
  "sample_env_protection = \<lparr>pr_geo = (\<lambda>_. None), pr_fresh = sample_job_ids\<rparr>"

definition sample_attempt :: "int \<Rightarrow> attempt" where
  "sample_attempt ping = \<lparr>at_env = sample_env_protection, at_org = ''o'', at_user = ''u'', at_server = ''s'',
     at_settings = (default_protection ''s'')\<lparr>ps_highPingEnabled := True, ps_highPingSamples := 2\<rparr>,
     at_line = \<lparr>sl_entity = ''7'', sl_identifier = ''7'', sl_ping = Some ping, sl_ip = None\<rparr>,
     at_store = sample_world\<rparr>"

definition empty_protection_mem :: protection_mem where
  "empty_protection_mem = \<lparr>pm_badPingSamples = [], pm_cooldown = [], pm_countryCache = []\<rparr>"

theorem punishments_spaced_witness:
  "spaced 300000 (run_throttle attempt_job attempt_key
     [(sample_attempt 400, 1), (sample_attempt 400, 2), (sample_attempt 400, 3), (sample_attempt 400, 300002),
      (sample_attempt 400, 300003)] empty_protection_mem) \<and>
   run_throttle attempt_job attempt_key
     [(sample_attempt 400, 1), (sample_attempt 400, 2), (sample_attempt 400, 3), (sample_attempt 400, 300002),
      (sample_attempt 400, 300003)] empty_protection_mem = [(''s:7'', 2), (''s:7'', 300003)]"
proof (rule conjI)
  show "spaced 300000 (run_throttle attempt_job attempt_key
     [(sample_attempt 400, 1), (sample_attempt 400, 2), (sample_attempt 400, 3), (sample_attempt 400, 300002),
      (sample_attempt 400, 300003)] empty_protection_mem)"
    by (rule punishments_spaced [of 0]) simp
  show "run_throttle attempt_job attempt_key
     [(sample_attempt 400, 1), (sample_attempt 400, 2), (sample_attempt 400, 3), (sample_attempt 400, 300002),
      (sample_attempt 400, 300003)] empty_protection_mem = [(''s:7'', 2), (''s:7'', 300003)]"
    by code_simp
qed


end
