(* ===== verification/JobReport.thy ===== *)
theory JobReport
  imports Protection
begin

text \<open>
  The job system put together: the player synchronisation that \<open>reportJobResult\<close> runs is
  \<open>reconcilePlayers\<close> followed by \<open>enforceConnectionTools\<close>, the interface \<open>player_sync\<close> is
  interpreted on it, and the properties of jobs, runs and batches follow.
\<close>

section \<open>The synchronisation\<close>

record sync_mem =
  sm_alerts :: alerts_mem
  sm_protection :: protection_mem

record sync_env =
  se_player :: player_env
  se_protection :: protection_env

definition player_list_sync :: "sync_env \<Rightarrow> time \<Rightarrow> sync_mem sync_fun" where
  "player_list_sync env now mem s orgId sid output =
    (let (alerts, s1) = reconcile_players (se_player env) (sm_alerts mem) s now orgId sid output;
         ((prot, s2), err) = enforce_connection_tools (se_protection env) now (sm_protection mem, s1) orgId sid output
     in ((\<lparr>sm_alerts = alerts, sm_protection = prot\<rparr>, s2), err))"

text \<open>The synchronisations of the system: any clock, any answers, fresh job ids.\<close>

definition listing_syncs :: "sync_mem sync_fun set" where
  "listing_syncs = {player_list_sync env now | env now. protection_env_ok (se_protection env)}"

lemma jobs_inv_cong:
  assumes "t_batches s' = t_batches s" and "t_jobs s' = t_jobs s" and "t_runs s' = t_runs s"
  shows "jobs_inv d s' = jobs_inv d s"
proof -
  have "in_batch s' = in_batch s"
    by (intro ext in_batch_jobs assms(2))
  then have "tally s' = tally s"
    by (intro ext) (simp add: tally_def assms(3))
  then show ?thesis
    by (simp add: jobs_inv_def jobs_wf_def batch_ok_def assms)
qed

definition same_jobs :: "store \<Rightarrow> store \<Rightarrow> bool" where
  "same_jobs s s' \<longleftrightarrow> t_batches s' = t_batches s \<and> t_jobs s' = t_jobs s \<and> t_runs s' = t_runs s"

lemma reconcile_fallback_same: "same_jobs s (reconcile_name_fallback s sid key nm st eo)"
  by (simp add: same_jobs_def reconcile_name_fallback_def split: option.splits)

lemma see_player_same: "same_jobs s (see_player env now o' sid l s)"
proof -
  have "same_jobs t (upsert_player env now o' sid l t)" for t
    by (simp add: same_jobs_def upsert_player_def Let_def split: option.splits)
  with reconcile_fallback_same show ?thesis
    unfolding see_player_def same_jobs_def by metis
qed

lemma see_players_same: "same_jobs s (fold (see_player env now o' sid) ls s)"
proof (induction ls arbitrary: s)
  case Nil
  then show ?case by (simp add: same_jobs_def)
next
  case (Cons l ls)
  show ?case
    using Cons [of "see_player env now o' sid l s"] see_player_same [of s env now o' sid l]
    by (simp add: same_jobs_def)
qed

lemma disconnect_players_same: "same_jobs s (snd (disconnect_players env now o' sid nm ps mem s))"
proof (induction ps arbitrary: mem s)
  case Nil
  then show ?case by (simp add: same_jobs_def)
next
  case (Cons p ps)
  obtain mem' s' where m: "send_matching_rules (pe_post env) mem (disconnect_player now p s) now
      ''PLAYER_DISCONNECTED'' (disconnect_context now o' sid nm p) = (mem', s')" by fastforce
  with send_matching_only_audit [of "disconnect_player now p s" "pe_post env" mem now "''PLAYER_DISCONNECTED''"
      "disconnect_context now o' sid nm p"]
  have oa: "only_audit (disconnect_player now p s) s'" by simp
  have "same_jobs s s'"
    by (simp add: same_jobs_def only_audit_tables [OF oa] disconnect_player_def Let_def)
  with Cons [where mem = mem' and s = s'] m show ?case by (simp add: same_jobs_def)
qed

lemma same_jobs_trans: "same_jobs s t \<Longrightarrow> same_jobs t u \<Longrightarrow> same_jobs s u"
  by (simp add: same_jobs_def)

lemma reconcile_same: "same_jobs s (snd (reconcile_players env mem s now o' sid out))"
proof (cases "re_test total_re out")
  case False
  then have "reconcile_players env mem s now o' sid out = (mem, s)"
    unfolding reconcile_players_def by (rule if_P)
  then show ?thesis by (simp add: same_jobs_def)
next
  case True
  then obtain nm ps s1 where "reconcile_players env mem s now o' sid out = disconnect_players env now o' sid nm ps mem s1"
    "s1 = fold (see_player env now o' sid) (listed_players out) s"
    unfolding reconcile_players_def Let_def by (simp only: not_True_eq_False if_False)
  with same_jobs_trans [OF see_players_same disconnect_players_same] show ?thesis by metis
qed

lemma player_list_sync_inv:
  assumes "protection_env_ok (se_protection env)" and inv: "jobs_inv d s"
  shows "jobs_inv d (snd (fst (player_list_sync env now mem s o' sid out)))"
proof -
  obtain al s1 where r: "reconcile_players (se_player env) (sm_alerts mem) s now o' sid out = (al, s1)" by fastforce
  with reconcile_same [of s "se_player env" "sm_alerts mem" now o' sid out] have "same_jobs s s1" by simp
  then have "jobs_inv d s1 = jobs_inv d s"
    by (intro jobs_inv_cong) (simp_all add: same_jobs_def)
  with inv have "jobs_inv d s1" by simp
  with enforce_inv [OF assms(1), of d "(sm_protection mem, s1)"] r show ?thesis
    by (simp add: player_list_sync_def split_beta)
qed

interpretation listing: player_sync listing_syncs
proof unfold_locales
  fix sync :: "sync_mem sync_fun" and d s m oid sid out
  assume "sync \<in> listing_syncs" and inv: "jobs_inv d s"
  then obtain env now where "sync = player_list_sync env now" "protection_env_ok (se_protection env)"
    by (auto simp: listing_syncs_def)
  with player_list_sync_inv [OF _ inv] show "jobs_inv d (snd (fst (sync m s oid sid out)))" by simp
qed

section \<open>A sample batch for the witnesses\<close>

definition sample_sync_env :: sync_env where
  "sample_sync_env = \<lparr>se_player = sample_env, se_protection = sample_env_protection\<rparr>"

definition empty_sync_mem :: sync_mem where
  "empty_sync_mem = \<lparr>sm_alerts = empty_alerts_mem, sm_protection = empty_protection_mem\<rparr>"

definition sample_sync :: "time \<Rightarrow> sync_mem sync_fun" where
  "sample_sync now = player_list_sync sample_sync_env now"

lemma sample_sync_in: "sample_sync now \<in> listing_syncs"
  using sample_job_ids_fresh
  by (auto simp: listing_syncs_def sample_sync_def sample_sync_env_def sample_env_protection_def protection_env_ok_def)

definition sample_batch_ids :: batch_ids where
  "sample_batch_ids = \<lparr>bi_batch = ''b'', bi_job = (\<lambda>i. CHR ''j'' # i), bi_run = (\<lambda>i. CHR ''r'' # i)\<rparr>"

definition sample_batch_dto :: create_batch_dto where
  "sample_batch_dto = \<lparr>cb_type = ''restart_wave'', cb_serverInstanceIds = [''s''], cb_payload = None\<rparr>"

definition sample_success :: report_result_dto where
  "sample_success = \<lparr>rr_status = ''success'', rr_durationMs = None, rr_errorMessage = None,
     rr_output = None, rr_result = None\<rparr>"

text \<open>The world with a batch, with its only run started, and with the batch cancelled.\<close>

definition world_batch :: store where
  "world_batch = (case create_batch sample_batch_ids sample_world 0 ''o'' (Some ''u'') sample_batch_dto of
     Inl e \<Rightarrow> sample_world | Inr (s, b) \<Rightarrow> s)"

definition world_started :: store where
  "world_started = fst (poll fifo_api world_batch 1000 ''h'' None)"

definition world_cancelled :: store where
  "world_cancelled = (case cancel_batch (\<lambda>_. True) world_started 2000 ''o'' ''b'' of
     Inl e \<Rightarrow> world_started | Inr (s, sm, ev) \<Rightarrow> s)"

definition world_reported :: "store" where
  "world_reported = snd (fst (report_job_result (sample_sync 3000) empty_sync_mem world_cancelled 3000 ''h'' ''rs'' sample_success))"

lemma world_batch_eq:
  "\<exists>b. create_batch sample_batch_ids sample_world 0 ''o'' (Some ''u'') sample_batch_dto = Inr (world_batch, b)"
proof -
  have "case create_batch sample_batch_ids sample_world 0 ''o'' (Some ''u'') sample_batch_dto of Inl e \<Rightarrow> False | Inr r \<Rightarrow> True"
    by code_simp
  then show ?thesis by (auto simp: world_batch_def split: sum.splits)
qed

lemma world_cancelled_eq:
  "\<exists>sm ev. cancel_batch (\<lambda>_. True) world_started 2000 ''o'' ''b'' = Inr (world_cancelled, sm, ev)"
proof -
  have "case cancel_batch (\<lambda>_. True) world_started 2000 ''o'' ''b'' of Inl e \<Rightarrow> False | Inr r \<Rightarrow> True"
    by code_simp
  then show ?thesis by (auto simp: world_cancelled_def split: sum.splits)
qed

lemma sample_batch_fresh: "fresh_batch sample_world ''o'' sample_batch_dto sample_batch_ids"
  by (simp add: fresh_batch_def sample_eval sample_batch_ids_def sample_batch_dto_def batch_instances_def Let_def)

lemma sample_batch_dto_ok: "create_batch_dto_ok sample_batch_dto"
  by (simp add: create_batch_dto_ok_def batch_types_def sample_batch_dto_def)

lemma world_batch_reach:
  "job_reach fifo_api listing_syncs False (empty_sync_mem, sample_world) (empty_sync_mem, world_batch)"
proof -
  obtain b where c: "create_batch sample_batch_ids sample_world 0 ''o'' (Some ''u'') sample_batch_dto = Inr (world_batch, b)"
    using world_batch_eq by blast
  have "job_step fifo_api listing_syncs False (empty_sync_mem, sample_world) (empty_sync_mem, world_batch)"
    by (rule job_step.create_batch [OF sample_batch_fresh sample_batch_dto_ok c])
  then show ?thesis unfolding job_reach_def by (rule r_into_rtranclp)
qed

lemma world_started_reach:
  "job_reach fifo_api listing_syncs False (empty_sync_mem, sample_world) (empty_sync_mem, world_started)"
proof -
  have "job_step fifo_api listing_syncs False (empty_sync_mem, world_batch) (empty_sync_mem, world_started)"
    by (rule job_step.poll [where d = "snd (poll fifo_api world_batch 1000 ''h'' None)"])
      (simp add: world_started_def)
  with world_batch_reach show ?thesis unfolding job_reach_def by (rule rtranclp.rtrancl_into_rtrancl)
qed

section \<open>Properties of batches\<close>



text \<open>
  Cancelling a running batch leaves no run of it pending, marks it cancelled, keeps its
  counters exact and returns the stored row.
\<close>

theorem cancel_batch_effect:
  assumes "jobs_inv (\<lambda>_. 0) s" and "cancel_batch rm s now oid bid = Inr (s', sm, ev)"
  shows "tally s' bid Pending = 0 \<and> sm \<in> set (t_batches s') \<and> b_id sm = bid \<and> b_status sm = BCancelled \<and>
    counter sm = tally s' bid"
proof -
  from cancel_batch_spec [OF assms] obtain b where inv: "jobs_inv (\<lambda>_. 0) s'"
    and p: "\<forall>r \<in> set (t_runs s'). in_batch s' bid r \<longrightarrow> r_status r \<noteq> Pending"
    and b: "b \<in> set (t_batches s')" "b_id b = bid" "b_status b = BCancelled" "sm = b" by blast
  have "count_where (\<lambda>r. in_batch s' bid r \<and> r_status r = Pending) (t_runs s') = count_where (\<lambda>_. False) (t_runs s')"
    using p by (intro count_where_cong) auto
  then have "tally s' bid Pending = 0" by (simp add: tally_def count_where_def)
  with jobs_invD(2) [OF inv b(1)] b show ?thesis by (simp add: batch_ok_def)
qed

lemma world_started_inv: "jobs_inv (\<lambda>_. 0) world_started"
  using listing.reach_inv [OF world_started_reach, of "\<lambda>_. 0"] sample_world_inv by simp

theorem cancel_batch_effect_witness:
  "tally world_cancelled ''b'' Pending = 0 \<and> tally world_cancelled ''b'' Running = 1"
proof -
  obtain sm ev where c: "cancel_batch (\<lambda>_. True) world_started 2000 ''o'' ''b'' = Inr (world_cancelled, sm, ev)"
    using world_cancelled_eq by blast
  have "tally world_cancelled ''b'' Running = 1" by code_simp
  with cancel_batch_effect [OF world_started_inv c] show ?thesis by blast
qed

text \<open>
  A cancelled batch does not stay cancelled: a run that was already running when the
  batch was cancelled reports success, and the batch is shown as completed.
\<close>

theorem cancelled_batch_reopens:
  "list_ex (\<lambda>b. b_id b = ''b'' \<and> b_status b = BCancelled) (t_batches world_cancelled) \<and>
   list_ex (\<lambda>b. b_id b = ''b'' \<and> b_status b = BCompleted) (t_batches world_reported)"
  by code_simp

text \<open>
  C37. The sweep of stale runs strands batches: if it fails a running run of a batch, the
  batch never completes, in no continuation of the system with or without further sweeps;
  it keeps counting at least one run as running.
\<close>

theorem stale_sweep_strands_batch:
  assumes inv: "jobs_inv (\<lambda>_. 0) s" and r: "r \<in> set (t_runs s)" "r_status r = Running" "in_batch s bid r" "stale now r"
    and cont: "job_reach api listing_syncs sw (m, fail_stale_running_jobs s now) (m', s')"
  shows "\<exists>b \<in> set (t_batches s'). b_id b = bid \<and> 1 \<le> b_runningCount b \<and>
    b_status b \<noteq> BCompleted \<and> b_status b \<noteq> BCompletedWithFailures"
proof -
  let ?d = "\<lambda>x. 0 + int (count_where (\<lambda>r. r_status r = Running \<and> in_batch s x r \<and> stale now r) (t_runs s))"
  have "0 < count_where (\<lambda>r. r_status r = Running \<and> in_batch s bid r \<and> stale now r) (t_runs s)"
    by (rule count_where_pos [OF r(1)]) (use r in simp)
  then have pos: "1 \<le> ?d bid" by simp
  from listing.reach_sweep_inv [OF cont, of ?d] sweep_all_inv [OF inv, of now]
  obtain d' where d': "jobs_inv d' s'" "1 \<le> d' bid"
    using pos by (metis order_trans snd_conv)
  then obtain b where b: "b \<in> set (t_batches s')" "b_id b = bid"
    using jobs_invD(4) [OF d'(1), of bid] by force
  from jobs_invD(2) [OF d'(1) b(1)] have ok: "counter b = drifted (d' bid) (tally s' bid)" "status_ok b"
    by (simp_all add: batch_ok_def b(2))
  have "counter b Running = tally s' bid Running + d' bid"
    by (simp add: ok(1) drifted_at)
  with d'(2) tally_nonneg [of s' bid Running] have "1 \<le> counter b Running" by linarith
  with ok(2) b show ?thesis
    by (auto simp: status_ok_def counter_def split: batch_status.splits intro!: bexI [of _ b])
qed

theorem stale_sweep_strands_batch_witness:
  "\<exists>b \<in> set (t_batches (fail_stale_running_jobs world_started 999999)). b_id b = ''b'' \<and> 1 \<le> b_runningCount b \<and>
    b_status b \<noteq> BCompleted \<and> b_status b \<noteq> BCompletedWithFailures"
proof -
  have "list_ex (\<lambda>r. r_status r = Running \<and> in_batch world_started ''b'' r \<and> stale 999999 r) (t_runs world_started)"
    by code_simp
  then obtain r where r: "r \<in> set (t_runs world_started)" "r_status r = Running" "in_batch world_started ''b'' r" "stale 999999 r"
    by (auto simp: list_ex_iff)
  have "job_reach fifo_api listing_syncs False (empty_sync_mem, fail_stale_running_jobs world_started 999999)
      (empty_sync_mem, fail_stale_running_jobs world_started 999999)"
    by (simp add: job_reach_def)
  from stale_sweep_strands_batch [OF world_started_inv r this] show ?thesis .
qed

end
