(* ===== verification/JobChecks.thy ===== *)
theory JobChecks
  imports SampleWorld
begin

text \<open>
  Properties of single operations of the job service: what the creation of a job checks and
  queues, uploads and downloads of mods, and which runs the sweep of stale runs touches.
\<close>

section \<open>Lemmas\<close>

lemma insert_job_queue:
  "org_queues (insert_job ids s now oid uid si ty p) = (org_queues s)(oid := enqueue
     \<lparr>q_jobId = ji_job ids, q_jobRunId = ji_run ids, q_hostId = si_hostId si,
      q_serverInstanceId = Some (si_id si), q_type = ty, q_payload = p, q_scheduleId = None\<rparr> (org_queues s oid))"
  by (simp add: insert_job_def add_job_def Let_def)

definition payload_fields :: "(string \<times> json) list option \<Rightarrow> (string \<times> json) list" where
  "payload_fields p = (case p of None \<Rightarrow> [] | Some kvs \<Rightarrow> kvs)"

lemma console_payload_InrD:
  assumes "console_payload p = Inr p'"
  shows "\<exists>c. p' = Some (jput (payload_fields p) ''command'' (JStr c)) \<and> c \<noteq> [] \<and> length c \<le> 512 \<and>
    CHR 0x0D \<notin> set c \<and> CHR 0x0A \<notin> set c"
proof -
  define c where "c = (case map_of (payload_fields p) ''command'' of Some (JStr c) \<Rightarrow> js_trim c | _ \<Rightarrow> [])"
  have "console_payload p = (if c = [] then Inl (BadRequestException ''Console command is required'')
        else if length c > 512 then Inl (BadRequestException ''Console command cannot exceed 512 characters'')
        else if exists_where (\<lambda>c. c = CHR 0x0D \<or> c = CHR 0x0A) c
        then Inl (BadRequestException ''Only one console command may be sent at a time'')
        else Inr (Some (jput (payload_fields p) ''command'' (JStr c))))"
    unfolding console_payload_def Let_def c_def payload_fields_def jspread.simps by (rule refl)
  then have "c \<noteq> [] \<and> \<not> length c > 512 \<and> \<not> exists_where (\<lambda>c. c = CHR 0x0D \<or> c = CHR 0x0A) c \<and>
      p' = Some (jput (payload_fields p) ''command'' (JStr c))"
    using assms by (simp split: if_splits)
  then show ?thesis unfolding exists_where_iff by (intro exI [of _ c]) auto
qed

lemma merged_payload_wins:
  assumes "distinct (map fst kvs)" and "map_of kvs k = Some v"
  shows "jget (merged_payload s si (Some kvs)) k = Some v"
  using assms by (simp add: merged_payload_def map_of_jspread map_add_def)

text \<open>The queue entry of a new run, when the run id is not in the queue yet.\<close>

definition queued_as :: "store \<Rightarrow> store \<Rightarrow> id \<Rightarrow> queue_job \<Rightarrow> bool" where
  "queued_as s s' oid q \<longleftrightarrow> org_queues s' = (org_queues s)(oid := enqueue q (org_queues s oid))"

text \<open>The fold over the runs read at the start, as one map over the table.\<close>

lemma fail_stale_run_rows:
  "t_runs (fail_stale_run now run s) = map (\<lambda>r. if stale now run \<and> r_id r = r_id run \<and> r_status r = Running
     then swept_row now run r else r) (t_runs s)"
  by (auto simp: fail_stale_run_def stale_def update_where_def swept_row_def)

lemma sweep_rows:
  assumes "distinct (map r_id rs)"
  shows "t_runs (fold (fail_stale_run now) rs s) = map (\<lambda>r. case List.find (\<lambda>x. r_id x = r_id r) rs of
      None \<Rightarrow> r | Some x \<Rightarrow> if stale now x \<and> r_status r = Running then swept_row now x r else r) (t_runs s)"
  using assms
proof (induction rs arbitrary: s)
  case Nil
  then show ?case by simp
next
  case (Cons x rs)
  have none: "List.find (\<lambda>y. r_id y = r_id r) rs = None" if "r_id x = r_id r" for r
    using Cons.prems that by (auto simp: find_None_iff' image_iff)
  have "distinct (map r_id rs)" using Cons.prems by simp
  from Cons.IH [OF this, of "fail_stale_run now x s"] show ?case
    by (auto simp: fail_stale_run_rows none)
qed

lemma find_filter_same:
  assumes "distinct (map r_id rows)" and "r \<in> set rows"
  shows "List.find (\<lambda>x. r_id x = r_id r) (filter P rows) = (if P r then Some r else None)"
proof (cases "P r")
  case True
  have "distinct (map r_id (filter P rows))" using assms(1) by (simp add: distinct_map_filter)
  from find_key_distinct [OF this, of r] True assms(2) show ?thesis by simp
next
  case False
  have "x = r" if "x \<in> set rows" "r_id x = r_id r" for x
    using assms that by (auto simp: distinct_map inj_on_def)
  with False show ?thesis by (auto simp: find_None_iff')
qed

lemma sweep_all_rows:
  assumes "distinct (map r_id (t_runs s))"
  shows "t_runs (fail_stale_running_jobs s now) =
    map (\<lambda>r. if r_status r = Running \<and> stale now r then swept_row now r r else r) (t_runs s)"
proof -
  let ?rs = "filter (\<lambda>r. r_status r = Running) (t_runs s)"
  have d: "distinct (map r_id ?rs)" using assms by (simp add: distinct_map_filter)
  show ?thesis
    unfolding fail_stale_running_jobs_def sweep_rows [OF d]
    by (rule map_cong [OF refl]) (simp add: find_filter_same [OF assms])
qed

text \<open>The eleven pieces the pattern of a UUID looks at are the whole string.\<close>

lemma uuid_fields:
  assumes "length u = 36"
  shows "u = field u 0 8 @ field u 8 1 @ field u 9 4 @ field u 13 1 @ field u 14 1 @ field u 15 3 @
    field u 18 1 @ field u 19 1 @ field u 20 3 @ field u 23 1 @ field u 24 12"
proof -
  have d: "drop i u = field u i n @ drop k u" if "k = i + n" for i n k
    unfolding field_def that by (metis append_take_drop_id drop_drop add.commute)
  have "drop 0 u = field u 0 8 @ drop 8 u" "drop 8 u = field u 8 1 @ drop 9 u" "drop 9 u = field u 9 4 @ drop 13 u"
    "drop 13 u = field u 13 1 @ drop 14 u" "drop 14 u = field u 14 1 @ drop 15 u" "drop 15 u = field u 15 3 @ drop 18 u"
    "drop 18 u = field u 18 1 @ drop 19 u" "drop 19 u = field u 19 1 @ drop 20 u" "drop 20 u = field u 20 3 @ drop 23 u"
    "drop 23 u = field u 23 1 @ drop 24 u" "drop 24 u = field u 24 12 @ drop 36 u"
    by (rule d, simp)+
  then have "drop 0 u = field u 0 8 @ field u 8 1 @ field u 9 4 @ field u 13 1 @ field u 14 1 @ field u 15 3 @
      field u 18 1 @ field u 19 1 @ field u 20 3 @ field u 23 1 @ field u 24 12 @ drop 36 u"
    by metis
  with assms show ?thesis by simp
qed

text \<open>A run whose progress was reported at a time is not stale for the next three minutes.\<close>

lemma heartbeat_of_progress:
  assumes "report_job_progress s t hid rid phase msg = Inr s1" and "find_run s1 rid = Some r"
    and "0 \<le> cv_year (civil_of_days (t div ms_day))" and "cv_year (civil_of_days (t div ms_day)) < 10000" and "t \<noteq> 0"
  shows "run_heartbeat r = t \<and> r_status r = Running"
proof -
  let ?kvs = "[(''phase'', JStr phase)] @
     (case msg of None \<Rightarrow> [] | Some m \<Rightarrow> if m = [] then [] else [(''message'', JStr m)]) @ [(''updatedAt'', JStr (iso_string t))]"
  from assms(1) obtain run where run: "find_run s rid = Some run" "r_status run = Running"
    and s1: "s1 = update_run rid (\<lambda>r. r\<lparr>r_result := Some (JObj ?kvs)\<rparr>) s"
    by (auto simp: report_job_progress_def split: option.splits if_splits)
  have "find_run s1 rid = Some (run\<lparr>r_result := Some (JObj ?kvs)\<rparr>)"
    using run(1) find_run_SomeD [OF run(1)] unfolding s1 find_run_def update_run_def
    by (simp add: find_update_where del: append.simps)
  with assms(2) have r: "r = run\<lparr>r_result := Some (JObj ?kvs)\<rparr>" by simp
  have "map_of ?kvs ''updatedAt'' = Some (JStr (iso_string t))"
    by (auto split: option.splits)
  then have "map_of (run_fields r) ''updatedAt'' = Some (JStr (iso_string t))"
    by (simp add: run_fields_def r del: append.simps)
  with js_date_parse_iso [OF assms(3,4)] assms(5) have "run_heartbeat r = t"
    by (simp add: run_heartbeat_def)
  with run(2) r show ?thesis by simp
qed

section \<open>Properties\<close>



text \<open>
  The caller's payload overrides the server's own columns: for any job that is no
  console command, a property the caller sends (\<open>server_instance_id\<close>, \<open>start_command\<close>,
  \<open>install_path\<close> included) is what is stored and queued for the agent.
\<close>

theorem caller_payload_overrides:
  assumes "create_job ids s now oid uid sid ty (Some kvs) = Inr (s', r)" and "distinct (map fst kvs)"
    and "normalize_job_type ty \<notin> {''RCON'', ''SEND_COMMAND''}" and "map_of kvs k = Some v"
  shows "\<exists>q j. queued_as s s' oid q \<and> jget (q_payload q) k = Some v \<and>
    t_jobs s' = t_jobs s @ [j] \<and> j_payload j = Some (q_payload q)"
proof -
  from create_job_InrD [OF assms(1)] assms(3) obtain si where
    "s' = insert_job ids s now oid (Some uid) si (normalize_job_type ty) (merged_payload s si (Some kvs))" by auto
  with merged_payload_wins [OF assms(2,4)] show ?thesis
    by (auto simp: queued_as_def insert_job_queue)
qed

theorem caller_payload_overrides_witness:
  "\<exists>s' r q. create_job (sample_job_ids sample_world) sample_world 0 ''o'' ''v'' ''s'' ''start''
       (Some [(''start_command'', JStr ''rm'')]) = Inr (s', r) \<and> queued_as sample_world s' ''o'' q \<and>
     jget (q_payload q) ''start_command'' = Some (JStr ''rm'')"
proof -
  let ?c = "create_job (sample_job_ids sample_world) sample_world 0 ''o'' ''v'' ''s'' ''start'' (Some [(''start_command'', JStr ''rm'')])"
  have "case ?c of Inl e \<Rightarrow> False | Inr r \<Rightarrow> True" by code_simp
  then obtain s' r where c: "?c = Inr (s', r)" by (auto split: sum.splits)
  have n: "normalize_job_type ''start'' = ''SERVER_START''" by code_simp
  from caller_payload_overrides [OF c, of "''start_command''" "JStr ''rm''"] n show ?thesis
    by (auto simp: c)
qed

text \<open>
  The sweep of stale runs is exact: it changes the runs that are running and whose last
  sign of life is more than three minutes old, each into a failed run with the recovery
  message, and leaves every other run and every other table alone.
\<close>

theorem stale_sweep_exact:
  assumes "distinct (map r_id (t_runs s))"
  shows "fail_stale_running_jobs s now = s\<lparr>t_runs :=
    map (\<lambda>r. if r_status r = Running \<and> run_heartbeat r < now - 180000 then swept_row now r r else r) (t_runs s)\<rparr>"
proof -
  have "\<exists>rows. fold (fail_stale_run now) rs s = s\<lparr>t_runs := rows\<rparr>" for rs
  proof (induction rs rule: rev_induct)
    case Nil
    show ?case by (rule exI [of _ "t_runs s"]) simp
  next
    case (snoc r rs)
    then obtain rows where "fold (fail_stale_run now) rs s = s\<lparr>t_runs := rows\<rparr>" by blast
    moreover have "\<exists>rows'. fail_stale_run now r (s\<lparr>t_runs := rows\<rparr>) = s\<lparr>t_runs := rows'\<rparr>"
      by (simp add: fail_stale_run_def) blast
    ultimately show ?case by simp
  qed
  then have "fold (fail_stale_run now) rs s = s\<lparr>t_runs := t_runs (fold (fail_stale_run now) rs s)\<rparr>" for rs
    by (metis store.select_convs(18) store.surjective store.update_convs(18))
  then have "fail_stale_running_jobs s now = s\<lparr>t_runs := t_runs (fail_stale_running_jobs s now)\<rparr>"
    unfolding fail_stale_running_jobs_def .
  also have "t_runs (fail_stale_running_jobs s now) =
      map (\<lambda>r. if r_status r = Running \<and> run_heartbeat r < now - 180000 then swept_row now r r else r) (t_runs s)"
    by (simp add: sweep_all_rows [OF assms] stale_def)
  finally show ?thesis .
qed

theorem stale_sweep_exact_witness:
  "\<exists>r. find_run (fail_stale_running_jobs (sample_world\<lparr>t_runs := [\<lparr>r_id = ''r'', r_jobId = ''j'', r_hostId = ''h'',
      r_status = Running, r_startedAt = Some 5, r_finishedAt = None, r_result = None, r_createdAt = 0\<rparr>]\<rparr>) 200000) ''r'' = Some r \<and>
    r_status r = Failed"
proof -
  define run where "run = \<lparr>r_id = ''r'', r_jobId = ''j'', r_hostId = ''h'',
      r_status = Running, r_startedAt = Some 5, r_finishedAt = None, r_result = None, r_createdAt = 0\<rparr>"
  have "run_heartbeat run = 5" by (simp add: run_heartbeat_def run_fields_def run_def)
  moreover have "distinct (map r_id (t_runs (sample_world\<lparr>t_runs := [run]\<rparr>)))" by simp
  ultimately have "fail_stale_running_jobs (sample_world\<lparr>t_runs := [run]\<rparr>) 200000 =
      sample_world\<lparr>t_runs := [swept_row 200000 run run]\<rparr>"
    using stale_sweep_exact [of "sample_world\<lparr>t_runs := [run]\<rparr>" 200000] by (simp add: run_def)
  then show ?thesis unfolding run_def [symmetric] by (simp add: find_run_def) (simp add: run_def)
qed

text \<open>
  A run whose agent reports progress is not swept for three minutes, whatever state the
  clock and the other runs are in (the time stamp written by the report is the one the sweep
  reads back).
\<close>

theorem progress_survives_sweep:
  assumes "report_job_progress s t hid rid phase msg = Inr s1" and "distinct (map r_id (t_runs s))"
    and "0 \<le> cv_year (civil_of_days (t div ms_day))" and "cv_year (civil_of_days (t div ms_day)) < 10000" and "t \<noteq> 0"
    and "now \<le> t + 180000"
  shows "find_run (fail_stale_running_jobs s1 now) rid = find_run s1 rid \<and>
    (\<exists>r. find_run s1 rid = Some r \<and> r_status r = Running)"
proof -
  from assms(1) obtain run f where run: "find_run s rid = Some run" and s1: "s1 = update_run rid f s"
    and f: "\<And>x. r_id (f x) = r_id x"
    by (auto simp: report_job_progress_def split: option.splits if_splits)
  then obtain r where r: "find_run s1 rid = Some r"
    by (auto simp: find_run_def update_run_def find_update_where)
  from heartbeat_of_progress [OF assms(1) r assms(3-5)] have hb: "run_heartbeat r = t" "r_status r = Running" by auto
  have "map r_id (t_runs s1) = map r_id (t_runs s)"
    unfolding s1 update_run_tables by (rule map_update_where) (simp add: f)
  with assms(2) have d: "distinct (map r_id (t_runs s1))" by simp
  have "\<not> stale now r" using hb(1) assms(6) by (simp add: stale_def)
  have "List.find (\<lambda>x. r_id x = rid) (map (\<lambda>r. if r_status r = Running \<and> stale now r then swept_row now r r else r) rows) =
      map_option (\<lambda>r. if r_status r = Running \<and> stale now r then swept_row now r r else r) (List.find (\<lambda>x. r_id x = rid) rows)" for rows
    by (induction rows) auto
  with r \<open>\<not> stale now r\<close> have "find_run (fail_stale_running_jobs s1 now) rid = Some r"
    by (simp add: find_run_def sweep_all_rows [OF d])
  with r hb show ?thesis by simp
qed

text \<open>
  C36. A download hands an agent only its own mod archives: a path is returned only for a run
  of the asking host whose job is a mod upload, only for an existing file, and the path is
  the upload directory followed by a name of hexadecimal digits and dashes, so no payload
  can lead outside it.
\<close>

theorem download_stays_inside:
  assumes "download_job_file dir is_file s hid rid = Inr path"
  shows "\<exists>run j u. find_run s rid = Some run \<and> r_hostId run = hid \<and> run_job s run = Some j \<and>
    j_type j = ''MOD_UPLOAD_QUARANTINE'' \<and> path = dir @ ''/'' @ u @ ''.zip'' \<and> length u = 36 \<and>
    list_all (\<lambda>c. is_hex c \<or> c = CHR ''-'') u \<and> is_file path"
proof -
  from assms obtain run j where r: "find_run s rid = Some run" "r_hostId run = hid" "run_job s run = Some j"
    "j_type j = ''MOD_UPLOAD_QUARANTINE''"
    and u: "is_uuid_v4 (payload_string (j_payload j) ''uploadId'')"
    and p: "path = upload_path dir (payload_string (j_payload j) ''uploadId'')" "is_file path"
    by (auto simp: download_job_file_def Let_def split: option.splits if_splits)
  let ?u = "payload_string (j_payload j) ''uploadId''"
  have len: "length ?u = 36" using u by (simp add: is_uuid_v4_def)
  have split: "?u = field ?u 0 8 @ field ?u 8 1 @ field ?u 9 4 @ field ?u 13 1 @ field ?u 14 1 @ field ?u 15 3 @
      field ?u 18 1 @ field ?u 19 1 @ field ?u 20 3 @ field ?u 23 1 @ field ?u 24 12"
    by (rule uuid_fields [OF len])
  have h4: "is_hex (CHR ''4'')" by code_simp
  have l89: "is_hex c" if "lower_char c \<in> set ''89ab''" for c
    using that by (auto simp: is_hex_def)
  have "list_all (\<lambda>c. is_hex c \<or> c = CHR ''-'') ?u"
    using u unfolding is_uuid_v4_def
    by (subst split) (auto simp: list_all_iff l89 h4)
  with r p len show ?thesis by (auto simp: upload_path_def)
qed

section \<open>Witnesses on one running upload\<close>

definition sample_uuid :: string where
  "sample_uuid = ''01234567-89ab-4cde-8f01-23456789abcd''"

definition sample_upload_run :: job_run where
  "sample_upload_run = \<lparr>r_id = ''r'', r_jobId = ''j'', r_hostId = ''h'', r_status = Running,
     r_startedAt = Some 5, r_finishedAt = None, r_result = None, r_createdAt = 0\<rparr>"

definition sample_upload_world :: store where
  "sample_upload_world = sample_world\<lparr>t_runs := [sample_upload_run],
     t_jobs := [\<lparr>j_id = ''j'', j_orgId = ''o'', j_batchId = None, j_serverInstanceId = Some ''s'',
       j_type = ''MOD_UPLOAD_QUARANTINE'', j_payload = Some (JObj [(''uploadId'', JStr sample_uuid)]),
       j_createdById = None, j_createdAt = 0\<rparr>]\<rparr>"

theorem download_stays_inside_witness:
  "\<exists>path u. download_job_file ''/up'' (\<lambda>_. True) sample_upload_world ''h'' ''r'' = Inr path \<and>
     path = ''/up/'' @ u @ ''.zip'' \<and> length u = 36"
proof -
  have "case download_job_file ''/up'' (\<lambda>_. True) sample_upload_world ''h'' ''r'' of Inl e \<Rightarrow> False | Inr r \<Rightarrow> True"
    by code_simp
  then obtain path where p: "download_job_file ''/up'' (\<lambda>_. True) sample_upload_world ''h'' ''r'' = Inr path"
    by (auto split: sum.splits)
  from download_stays_inside [OF this] obtain u where "path = ''/up'' @ ''/'' @ u @ ''.zip''" "length u = 36" by blast
  with p show ?thesis by auto
qed

theorem progress_survives_sweep_witness:
  "\<exists>s1. report_job_progress sample_upload_world 1000 ''h'' ''r'' ''copy'' None = Inr s1 \<and>
     find_run (fail_stale_running_jobs s1 181000) ''r'' = find_run s1 ''r''"
proof -
  have "case report_job_progress sample_upload_world 1000 ''h'' ''r'' ''copy'' None of Inl e \<Rightarrow> False | Inr r \<Rightarrow> True"
    by code_simp
  then obtain s1 where s1: "report_job_progress sample_upload_world 1000 ''h'' ''r'' ''copy'' None = Inr s1"
    by (auto split: sum.splits)
  have "0 \<le> cv_year (civil_of_days (1000 div ms_day)) \<and> cv_year (civil_of_days (1000 div ms_day)) < 10000" by code_simp
  moreover have "distinct (map r_id (t_runs sample_upload_world))" by (simp add: sample_upload_world_def)
  ultimately show ?thesis
    using progress_survives_sweep [OF s1, of 181000] s1 by auto
qed

end
