(* ===== verification/Cron.thy ===== *)
theory Cron
  imports JsValues
begin

text \<open>
  \<open>scheduler/cron-next.ts\<close>: the next time a five-field cron expression matches, searched
  minute by minute, and the execution window of a schedule.  A JavaScript \<open>Set\<close> is the list
  of its elements; an invalid \<open>Date\<close> is None.  The time zone is UTC.
\<close>

section \<open>Fields\<close>

text \<open>\<open>s.split(/\s+/)\<close>\<close>

function split_spaces :: "string \<Rightarrow> string list" where
  "split_spaces s =
    (let word = takeWhile (\<lambda>c. \<not> js_space c) s; rest = dropWhile (\<lambda>c. \<not> js_space c) s
     in if rest = [] then [word] else word # split_spaces (dropWhile js_space rest))"
  by pat_completeness auto
termination
proof (relation "measure length", simp)
  fix s word rest :: string
  assume "rest = dropWhile (\<lambda>c. \<not> js_space c) s" and ne: "rest \<noteq> []"
  then have "length rest \<le> length s" by (simp add: length_dropWhile_le)
  moreover have "js_space (hd rest)"
    using \<open>rest = _\<close> ne hd_dropWhile [of "\<lambda>c. \<not> js_space c" s] by auto
  then have "length (dropWhile js_space rest) < length rest"
    using ne by (cases rest) (auto simp: le_imp_less_Suc length_dropWhile_le)
  ultimately show "(dropWhile js_space rest, s) \<in> measure length" by simp
qed

declare split_spaces.simps [simp del]

text \<open>The values \<open>lo, lo + k, ...\<close> up to \<open>hi\<close>.\<close>

function step_values :: "int \<Rightarrow> int \<Rightarrow> int \<Rightarrow> int list" where
  "step_values lo hi k = (if k < 1 \<or> hi < lo then [] else lo # step_values (lo + k) hi k)"
  by pat_completeness auto
termination by (relation "measure (\<lambda>(lo, hi, k). nat (hi + 1 - lo))") auto

declare step_values.simps [simp del]

definition step_amount :: "string \<Rightarrow> int option" where
  "step_amount s = (let ds = drop 2 s in
     if js_starts_with s ''*/'' \<and> ds \<noteq> [] \<and> list_all is_digit ds then Some (int (digits_value ds)) else None)"

fun parse_parts :: "string \<Rightarrow> int \<Rightarrow> int \<Rightarrow> string list \<Rightarrow> int list result" where
  "parse_parts str lo hi [] = Inr []"
| "parse_parts str lo hi (p # ps) =
    (case (case step_amount p of
       Some k \<Rightarrow> if k < 1 \<or> hi - lo + 1 < k then None else Some (step_values lo hi k)
     | None \<Rightarrow> (case js_parse_int (js_trim p) of
         None \<Rightarrow> None
       | Some n \<Rightarrow> if n < lo \<or> hi < n then None else Some [n])) of
       None \<Rightarrow> Inl (Error (''Invalid cron field: '' @ str))
     | Some vs \<Rightarrow> (case parse_parts str lo hi ps of Inl e \<Rightarrow> Inl e | Inr ws \<Rightarrow> Inr (vs @ ws)))"

text \<open>None stands for the unrestricted field.\<close>

definition parse_set :: "string \<Rightarrow> int \<Rightarrow> int \<Rightarrow> int list option result" where
  "parse_set str lo hi = (if str = ''*'' then Inr None
     else (case parse_parts str lo hi (js_split (CHR '','') str) of Inl e \<Rightarrow> Inl e | Inr vs \<Rightarrow> Inr (Some vs)))"

record cron_spec =
  cs_minutes :: "int list option"
  cs_hours :: "int list option"
  cs_doms :: "int list option"
  cs_months :: "int list option"
  cs_dows :: "int list option"

definition parse_cron :: "string \<Rightarrow> cron_spec result" where
  "parse_cron expr = (case split_spaces (js_trim expr) of
     [minF, hourF, domF, monthF, dowF] \<Rightarrow>
       (case parse_set minF 0 59 of Inl e \<Rightarrow> Inl e | Inr mins \<Rightarrow>
       (case parse_set hourF 0 23 of Inl e \<Rightarrow> Inl e | Inr hs \<Rightarrow>
       (case parse_set domF 1 31 of Inl e \<Rightarrow> Inl e | Inr ds \<Rightarrow>
       (case parse_set monthF 1 12 of Inl e \<Rightarrow> Inl e | Inr ms \<Rightarrow>
       (case parse_set dowF 0 6 of Inl e \<Rightarrow> Inl e | Inr ws \<Rightarrow>
          Inr \<lparr>cs_minutes = mins, cs_hours = hs, cs_doms = ds, cs_months = ms, cs_dows = ws\<rparr>)))))
   | _ \<Rightarrow> Inl (Error ''Invalid cron: expected 5 fields''))"

section \<open>The search\<close>

definition admits :: "int list option \<Rightarrow> int \<Rightarrow> bool" where
  "admits f v = (case f of None \<Rightarrow> True | Some vs \<Rightarrow> v \<in> set vs)"

definition cron_matches :: "cron_spec \<Rightarrow> time \<Rightarrow> bool" where
  "cron_matches c t \<longleftrightarrow> admits (cs_months c) (js_month t) \<and> admits (cs_doms c) (js_date t) \<and>
     admits (cs_dows c) (js_day t) \<and> admits (cs_hours c) (js_hours t) \<and> admits (cs_minutes c) (js_minutes t)"

fun cron_search :: "nat \<Rightarrow> cron_spec \<Rightarrow> time \<Rightarrow> time option" where
  "cron_search 0 c t = None"
| "cron_search (Suc n) c t = (if cron_matches c t then Some t else cron_search n c (t + ms_minute))"

text \<open>Seconds cleared, one minute later; \<open>setMinutes\<close> carries over.\<close>

definition next_minute :: "time \<Rightarrow> time" where
  "next_minute t = t - t mod ms_minute + ms_minute"

definition max_iter :: nat where
  "max_iter = 366 * 24 * 60"

definition get_next_cron_run :: "string \<Rightarrow> time \<Rightarrow> time result" where
  "get_next_cron_run expr start = (case parse_cron expr of
     Inl e \<Rightarrow> Inl e
   | Inr c \<Rightarrow> (case cron_search max_iter c (next_minute start) of
       None \<Rightarrow> Inl (Error ''No next run found'')
     | Some t \<Rightarrow> Inr t))"

section \<open>The execution window\<close>

text \<open>\<open>[a, b] = s.split(':').map(Number)\<close>; None is \<open>NaN\<close> (or a fraction, which is not modelled).\<close>

definition clock_parts :: "string \<Rightarrow> int option \<times> int option" where
  "clock_parts s = (let ps = map js_string_int (js_split (CHR '':'') s)
     in (ps ! 0, if length ps < 2 then None else ps ! 1))"

definition clock_mins :: "int option \<times> int option \<Rightarrow> int option" where
  "clock_mins p = (case p of (Some h, Some m) \<Rightarrow> Some (h * 60 + m) | _ \<Rightarrow> None)"

definition set_hours :: "time \<Rightarrow> int option \<times> int option \<Rightarrow> time option" where
  "set_hours t p = (case p of
     (Some h, Some m) \<Rightarrow> Some (t div ms_day * ms_day + h * 3600000 + m * ms_minute)
   | _ \<Rightarrow> None)"

definition clamp_to_execution_window :: "time \<Rightarrow> string option \<Rightarrow> string option \<Rightarrow> time option" where
  "clamp_to_execution_window date windowStart windowEnd =
    (case (windowStart, windowEnd) of
       (Some ws, Some we) \<Rightarrow>
         if ws = [] \<or> we = [] then Some date
         else
           let start = clock_parts ws;
               nowMins = js_hours date * 60 + js_minutes date;
               tomorrow = set_hours (date + ms_day) start
           in (case (clock_mins start, clock_mins (clock_parts we)) of
                 (Some s, Some e) \<Rightarrow>
                   if s \<le> e \<and> s \<le> nowMins \<and> nowMins \<le> e then Some date
                   else if s \<le> e \<and> nowMins < s then set_hours date start
                   else tomorrow
               | _ \<Rightarrow> tomorrow)
     | _ \<Rightarrow> Some date)"

section \<open>The expressions the web pages build\<close>

text \<open>
  \<open>minutesToCron\<close> and \<open>cronToMinutes\<close> of the world saves page, \<open>simpleCron\<close> of the
  schedules page.  Intervals are at least one minute.
\<close>

definition minutes_to_cron :: "int \<Rightarrow> string" where
  "minutes_to_cron minutes =
    (if minutes < 60 then ''*/'' @ int_string minutes @ '' * * * *''
     else if minutes = 60 then ''0 * * * *''
     else if minutes < 1440 \<and> minutes mod 60 = 0 then ''0 */'' @ int_string (minutes div 60) @ '' * * *''
     else ''0 0 * * *'')"

text \<open>\<open>cron.match(/^...(\d+)...$/)\<close> with literal text before and behind the digits.\<close>

definition digits_between :: "string \<Rightarrow> string \<Rightarrow> string \<Rightarrow> int option" where
  "digits_between before after s =
    (if js_starts_with s before \<and> length before + length after < length s \<and>
        drop (length s - length after) s = after \<and>
        list_all is_digit (take (length s - length before - length after) (drop (length before) s))
     then Some (int (digits_value (take (length s - length before - length after) (drop (length before) s))))
     else None)"

definition cron_to_minutes :: "string \<Rightarrow> int" where
  "cron_to_minutes cron = (case digits_between ''*/'' '' * * * *'' cron of
     Some n \<Rightarrow> n
   | None \<Rightarrow> (case digits_between ''0 */'' '' * * *'' cron of
       Some n \<Rightarrow> n * 60
     | None \<Rightarrow> if cron = ''0 * * * *'' then 60 else if cron = ''0 0 * * *'' then 1440 else 60))"

definition simple_cron :: "int \<Rightarrow> int \<Rightarrow> int \<Rightarrow> string" where
  "simple_cron days hour minute = int_string minute @ '' '' @ int_string hour @ '' '' @
     (if days = 1 then ''*'' else ''*/'' @ int_string days) @ '' * *''"

definition simple_schedule_label :: "int \<Rightarrow> int \<Rightarrow> int \<Rightarrow> string" where
  "simple_schedule_label days hour minute = (let time = pad2 hour @ '':'' @ pad2 minute
     in if days = 1 then ''Every day at '' @ time else ''Every '' @ int_string days @ '' days at '' @ time)"

section \<open>Lemmas\<close>

lemma cron_search_SomeD:
  "cron_search n c t = Some u \<Longrightarrow>
   (\<exists>k < n. u = t + int k * ms_minute \<and> cron_matches c u \<and> (\<forall>j < k. \<not> cron_matches c (t + int j * ms_minute)))"
proof (induction n c t rule: cron_search.induct)
  case (1 c t)
  then show ?case by simp
next
  case (2 n c t)
  show ?case
  proof (cases "cron_matches c t")
    case True
    with 2(2) show ?thesis by (intro exI [of _ 0]) simp
  next
    case False
    with 2 obtain k where k: "k < n" "u = t + ms_minute + int k * ms_minute" "cron_matches c u"
      "\<forall>j < k. \<not> cron_matches c (t + ms_minute + int j * ms_minute)" by auto
    have "\<not> cron_matches c (t + int j * ms_minute)" if "j < Suc k" for j
      using k(4) False that by (cases j) (auto simp: algebra_simps)
    with k show ?thesis by (intro exI [of _ "Suc k"]) (auto simp: algebra_simps)
  qed
qed

lemma cron_search_None: "cron_search n c t = None \<longleftrightarrow> (\<forall>k < n. \<not> cron_matches c (t + int k * ms_minute))"
proof (induction n c t rule: cron_search.induct)
  case (1 c t)
  then show ?case by simp
next
  case (2 n c t)
  have "(\<forall>k < Suc n. P k) \<longleftrightarrow> P 0 \<and> (\<forall>k < n. P (Suc k))" for P :: "nat \<Rightarrow> bool"
    by (metis Suc_less_eq not0_implies_Suc zero_less_Suc)
  with 2 show ?case by (auto simp: algebra_simps)
qed

lemma next_minute_bounds: "t < next_minute t \<and> next_minute t \<le> t + ms_minute \<and> next_minute t mod ms_minute = 0"
proof -
  have "0 \<le> t mod ms_minute" "t mod ms_minute < ms_minute" by (simp_all add: ms_minute_def)
  moreover have "(t - t mod ms_minute + ms_minute) mod ms_minute = 0"
    by (simp add: minus_mod_eq_mult_div)
  ultimately show ?thesis by (simp add: next_minute_def)
qed

lemma step_values_range: "v \<in> set (step_values lo hi k) \<Longrightarrow> lo \<le> v \<and> v \<le> hi"
proof (induction lo hi k rule: step_values.induct)
  case (1 lo hi k)
  then show ?case by (auto simp: step_values.simps [of lo hi k] split: if_splits)
qed

lemma step_values_nonempty: "1 \<le> k \<Longrightarrow> lo \<le> hi \<Longrightarrow> step_values lo hi k \<noteq> []"
  by (simp add: step_values.simps)

text \<open>A field that parses is a non-empty set of values in its range.\<close>

lemma parse_parts_InrD:
  "parse_parts str lo hi ps = Inr vs \<Longrightarrow> lo \<le> hi \<Longrightarrow>
   (\<forall>v \<in> set vs. lo \<le> v \<and> v \<le> hi) \<and> (ps \<noteq> [] \<longrightarrow> vs \<noteq> [])"
proof (induction ps arbitrary: vs)
  case Nil
  then show ?case by simp
next
  case (Cons p ps)
  from Cons.prems(1) obtain us ws where
    us: "(case step_amount p of
       Some k \<Rightarrow> if k < 1 \<or> hi - lo + 1 < k then None else Some (step_values lo hi k)
     | None \<Rightarrow> (case js_parse_int (js_trim p) of
         None \<Rightarrow> None | Some n \<Rightarrow> if n < lo \<or> hi < n then None else Some [n])) = Some us"
    and ws: "parse_parts str lo hi ps = Inr ws" "vs = us @ ws"
    by (auto split: option.splits sum.splits simp del: split_paired_Ex)
  have "(\<forall>v \<in> set us. lo \<le> v \<and> v \<le> hi) \<and> us \<noteq> []"
    using us step_values_range step_values_nonempty [OF _ Cons.prems(2)]
    by (auto split: option.splits if_splits)
  with Cons.IH [OF ws(1) Cons.prems(2)] ws(2) show ?case by auto
qed

lemma parse_set_InrD:
  assumes "parse_set str lo hi = Inr f" and "lo \<le> hi"
  shows "\<exists>v. lo \<le> v \<and> v \<le> hi \<and> admits f v"
proof (cases f)
  case None
  with assms(2) show ?thesis by (intro exI [of _ lo]) (simp add: admits_def)
next
  case (Some vs)
  with assms(1) have "parse_parts str lo hi (js_split (CHR '','') str) = Inr vs"
    by (auto simp: parse_set_def split: if_splits sum.splits)
  from parse_parts_InrD [OF this assms(2)] have "(\<forall>v \<in> set vs. lo \<le> v \<and> v \<le> hi)" "vs \<noteq> []" by auto
  then have "hd vs \<in> set vs" by simp
  with \<open>\<forall>v \<in> set vs. lo \<le> v \<and> v \<le> hi\<close> Some show ?thesis
    by (intro exI [of _ "hd vs"]) (auto simp: admits_def)
qed

lemma base_60:
  fixes a b h m :: int
  assumes "a * 60 + b = h * 60 + m" and "0 \<le> b" and "m \<le> 59" and "0 \<le> m" and "b \<le> 59"
  shows "a = h \<and> b = m"
proof -
  have "a = h" using assms by arith
  with assms(1) show ?thesis by simp
qed

text \<open>Every time of day comes within the next 1440 minutes.\<close>

lemma time_of_day_reached:
  assumes "t mod ms_minute = 0" and "0 \<le> h" and "h \<le> 23" and "0 \<le> m" and "m \<le> 59"
  shows "\<exists>k < 1440. js_hours (t + int k * ms_minute) = h \<and> js_minutes (t + int k * ms_minute) = m"
proof -
  define day where "day = t div ms_day"
  define now where "now = t mod ms_day"
  have t: "t = day * ms_day + now" and now: "0 \<le> now" "now < ms_day"
    by (simp_all add: day_def now_def ms_day_def)
  define n where "n = now div ms_minute"
  have "now mod ms_minute = 0"
    using assms(1) unfolding now_def ms_day_def ms_minute_def by (simp add: mod_mod_cancel)
  then have n: "now = n * ms_minute"
    unfolding n_def by (metis add.right_neutral div_mult_mod_eq)
  have nb: "0 \<le> n" "n < 1440" using now unfolding n ms_minute_def ms_day_def by auto
  define w where "w = h * 60 + m"
  have w: "0 \<le> w" "w < 1440" using assms by (auto simp: w_def)
  define k where "k = (if n \<le> w then w - n else w + 1440 - n)"
  have k: "0 \<le> k" "k < 1440" using nb w by (auto simp: k_def)
  obtain d where d: "t + k * ms_minute = d * ms_day + w * ms_minute"
  proof (cases "n \<le> w")
    case True
    then have "t + k * ms_minute = day * ms_day + w * ms_minute"
      unfolding t n k_def by (simp add: left_diff_distrib)
    then show thesis by (rule that)
  next
    case False
    then have "t + k * ms_minute = (day + 1) * ms_day + w * ms_minute"
      unfolding t n k_def by (simp add: algebra_simps ms_day_def ms_minute_def)
    then show thesis by (rule that)
  qed
  have wd: "(d * ms_day + w * ms_minute) mod ms_day = w * ms_minute"
    using w by (simp add: ms_day_def ms_minute_def)
  have hm: "js_hours (t + k * ms_minute) * 60 + js_minutes (t + k * ms_minute) = w"
    unfolding js_time_of_day d wd by (simp add: ms_minute_def)
  have "js_hours (t + k * ms_minute) = h \<and> js_minutes (t + k * ms_minute) = m"
    using base_60 [OF hm [unfolded w_def]] js_minutes_bounds [of "t + k * ms_minute"] assms(4,5) by blast
  with k show ?thesis by (intro exI [of _ "nat k"]) auto
qed

text \<open>The 367 days from 1 March 2024 contain no 29 February.\<close>

lemma no_leap_day_2025:
  assumes "0 \<le> i" and "i < 367"
  shows "\<not> (cv_month (civil_of_days (19783 + i)) = 2 \<and> cv_day (civil_of_days (19783 + i)) = 29)"
proof
  assume feb: "cv_month (civil_of_days (19783 + i)) = 2 \<and> cv_day (civil_of_days (19783 + i)) = 29"
  let ?md = "march_of_days (19783 + i)"
  have e: "(19783 + i + 719468) mod 146097 = 8766 + i"
    using assms by (intro int_mod_pos_eq [where q = 5]) simp_all
  have c: "(8766 + i) div 36524 = 0" using assms by (intro div_pos_pos_trivial) simp_all
  have r: "(8766 + i) mod 1461 = i" using assms by (intro int_mod_pos_eq [where q = 6]) simp_all
  have "md_doy ?md = i - 365 * min 3 (i div 365)"
    unfolding march_of_days_def Let_def e c by (simp add: r)
  moreover have "i div 365 \<le> 1" using assms by simp
  moreover have "i - 365 * (i div 365) = i mod 365" by (simp add: minus_mult_div_eq_mod)
  moreover have "i mod 365 \<le> 364" using pos_mod_bound [of 365 i] by simp
  ultimately have "md_doy ?md \<le> 364" by (simp add: min_def)
  define mp where "mp = (5 * md_doy ?md + 2) div 153"
  have "cv_month (civil_of_days (19783 + i)) = (if mp < 10 then mp + 3 else mp - 9)"
    "cv_day (civil_of_days (19783 + i)) = md_doy ?md - (153 * mp + 2) div 5 + 1"
    by (simp_all add: civil_of_days_def mp_def Let_def)
  with feb have "mp = 11 \<or> mp = -1" "md_doy ?md - (153 * mp + 2) div 5 + 1 = 29" by (auto split: if_splits)
  moreover have "0 \<le> mp" unfolding mp_def using march_facts [of "19783 + i"]
    by (simp add: pos_imp_zdiv_nonneg_iff)
  ultimately have "md_doy ?md = 365" by auto
  with \<open>md_doy ?md \<le> 364\<close> show False by simp
qed

lemma next_run_later:
  assumes "get_next_cron_run expr start = Inr t"
  shows "start < t"
proof -
  let ?s = "next_minute start"
  from assms obtain c where c: "cron_search max_iter c ?s = Some t"
    by (auto simp: get_next_cron_run_def split: sum.splits option.splits)
  from cron_search_SomeD [OF c] obtain k where k: "t = ?s + int k * ms_minute" by blast
  have "start < ?s" using next_minute_bounds [of start] by blast
  moreover have "0 \<le> int k * ms_minute" by (simp add: ms_minute_def)
  ultimately show ?thesis unfolding k by (rule less_le_trans [OF _ le_add_same_cancel1 [THEN iffD2]])
qed

lemma daily_next_run:
  assumes "parse_cron expr = Inr c" and "cs_doms c = None" and "cs_months c = None" and "cs_dows c = None"
  shows "\<exists>t. get_next_cron_run expr start = Inr t \<and> t \<le> start + ms_day"
proof -
  let ?s = "next_minute start"
  note b = next_minute_bounds [of start]
  from assms(1) obtain mf hf where "parse_set mf 0 59 = Inr (cs_minutes c)" "parse_set hf 0 23 = Inr (cs_hours c)"
    by (auto simp: parse_cron_def split: list.splits sum.splits)
  from parse_set_InrD [OF this(1)] parse_set_InrD [OF this(2)] obtain m h where
    mh: "0 \<le> m" "m \<le> 59" "admits (cs_minutes c) m" "0 \<le> h" "h \<le> 23" "admits (cs_hours c) h" by auto
  from time_of_day_reached [of ?s h m] b mh obtain k where k: "k < 1440"
    "js_hours (?s + int k * ms_minute) = h" "js_minutes (?s + int k * ms_minute) = m" by blast
  have match: "cron_matches c (?s + int k * ms_minute)"
    using assms(2-4) mh k by (simp add: cron_matches_def admits_def)
  have "k < max_iter" using k(1) by (simp add: max_iter_def)
  with match obtain t where t: "cron_search max_iter c ?s = Some t"
    using cron_search_None [of max_iter c ?s] by blast
  from cron_search_SomeD [OF t] obtain j where j: "t = ?s + int j * ms_minute"
    "\<forall>i < j. \<not> cron_matches c (?s + int i * ms_minute)" by blast
  with match have "j \<le> k" by (meson not_le)
  with k(1) have "int j * ms_minute \<le> 1439 * ms_minute" by (simp add: ms_minute_def)
  with j(1) b have "t \<le> start + ms_day" by (simp add: ms_minute_def ms_day_def)
  with t assms(1) show ?thesis by (simp add: get_next_cron_run_def)
qed

section \<open>Properties\<close>

text \<open>
  C12. The next run of a cron expression is right and minimal: it is a full minute after the
  given time that matches all five fields, and no earlier full minute after the given time
  does.
\<close>

theorem cron_next_least:
  assumes "get_next_cron_run expr start = Inr t"
  shows "start < t \<and> t mod ms_minute = 0 \<and>
    (\<exists>c. parse_cron expr = Inr c \<and> cron_matches c t \<and>
      (\<forall>u. start < u \<and> u < t \<and> u mod ms_minute = 0 \<longrightarrow> \<not> cron_matches c u))"
proof -
  let ?s = "next_minute start"
  from assms obtain c where c: "parse_cron expr = Inr c" "cron_search max_iter c ?s = Some t"
    by (auto simp: get_next_cron_run_def split: sum.splits option.splits)
  from cron_search_SomeD [OF c(2)] obtain k where k: "t = ?s + int k * ms_minute" "cron_matches c t"
    "\<forall>j < k. \<not> cron_matches c (?s + int j * ms_minute)" by blast
  note b = next_minute_bounds [of start]
  have gt: "start < t" by (rule next_run_later [OF assms])
  have none: "\<not> cron_matches c u" if u: "start < u" "u < t" "u mod ms_minute = 0" for u
  proof -
    have dvd: "ms_minute dvd u - ?s" using u(3) b by (simp add: mod_0_imp_dvd dvd_diff)
    then obtain q where q: "u - ?s = ms_minute * q" by blast
    have p: "0 < ms_minute" by (simp add: ms_minute_def)
    have "- ms_minute < ms_minute * q" using u(1) b q by linarith
    then have "-1 < q" using p by (metis mult_less_cancel_left_pos mult_minus1_right)
    moreover have "ms_minute * q < ms_minute * int k"
      using u(2) q unfolding k(1) mult.commute [of "int k"] by linarith
    then have "q < int k" using p by simp
    ultimately have "u = ?s + int (nat q) * ms_minute" "nat q < k"
      using q by (auto simp: mult.commute)
    with k(3) show ?thesis by blast
  qed
  have "t mod ms_minute = 0" unfolding k(1) using b by simp
  moreover have "\<forall>u. start < u \<and> u < t \<and> u mod ms_minute = 0 \<longrightarrow> \<not> cron_matches c u"
    by (intro allI impI, elim conjE) (rule none)
  ultimately show ?thesis using gt c(1) k(2) by (intro conjI exI [of _ c]) assumption+
qed

text \<open>
  C31. A daily expression always has a next run, within a day: if the three date fields are
  unrestricted and the expression parses, the search ends with a result at most 24 hours
  later.
\<close>

theorem cron_daily_returns:
  assumes "parse_cron expr = Inr c" and "cs_doms c = None" and "cs_months c = None" and "cs_dows c = None"
  shows "\<exists>t. get_next_cron_run expr start = Inr t \<and> t \<le> start + ms_day"
  by (rule daily_next_run [OF assms])

text \<open>
  A leap-day schedule is rejected in three years of four: on 1 March 2024 the expression
  for midnight on 29 February, which matches on that day of 2028, has no next run, because
  the search stops after 366 days.
\<close>

theorem leap_day_cron_rejected:
  "get_next_cron_run ''0 0 29 2 *'' (19783 * ms_day) = Inl (Error ''No next run found'') \<and>
   (\<exists>c. parse_cron ''0 0 29 2 *'' = Inr c \<and> cron_matches c (21243 * ms_day))"
proof -
  let ?c = "\<lparr>cs_minutes = Some [0], cs_hours = Some [0], cs_doms = Some [29], cs_months = Some [2], cs_dows = None\<rparr>"
  have c: "parse_cron ''0 0 29 2 *'' = Inr ?c" by code_simp
  have m: "cron_matches ?c (21243 * ms_day)" by code_simp
  let ?s = "next_minute (19783 * ms_day)"
  have s: "?s = 19783 * ms_day + ms_minute" by (simp add: next_minute_def ms_day_def ms_minute_def)
  have "\<not> cron_matches ?c (?s + int k * ms_minute)" if "k < max_iter" for k
  proof -
    let ?u = "?s + int k * ms_minute"
    have "19783 * ms_day \<le> ?u" "?u < (19783 + 367) * ms_day"
      using that unfolding s by (simp_all add: ms_day_def ms_minute_def max_iter_def)
    then have "0 \<le> ?u div ms_day - 19783" "?u div ms_day - 19783 < 367"
      by (simp_all add: ms_day_def div_less_iff_less_mult pos_imp_zdiv_pos_iff zdiv_mono1 [of "19783 * 86400000" _ 86400000, simplified])
    from no_leap_day_2025 [OF this] show ?thesis
      by (auto simp: cron_matches_def admits_def js_month_def js_date_def)
  qed
  then have "cron_search max_iter ?c ?s = None" unfolding cron_search_None by blast
  with c m show ?thesis by (auto simp: get_next_cron_run_def)
qed

text \<open>
  Sunday as day 7 is rejected, although the user guide documents days of week from 0
  to 7; and a range such as 1-5 is read as its first number instead of being rejected.
\<close>

theorem cron_dow_divergence:
  "get_next_cron_run ''0 3 * * 7'' 0 = Inl (Error ''Invalid cron field: 7'') \<and>
   parse_cron ''0 3 * * 1-5'' = parse_cron ''0 3 * * 1'' \<and>
   (\<exists>c. parse_cron ''0 3 * * 1'' = Inr c)"
proof (intro conjI)
  have "parse_cron ''0 3 * * 7'' = Inl (Error ''Invalid cron field: 7'')" by code_simp
  then show "get_next_cron_run ''0 3 * * 7'' 0 = Inl (Error ''Invalid cron field: 7'')"
    by (simp add: get_next_cron_run_def)
  show "parse_cron ''0 3 * * 1-5'' = parse_cron ''0 3 * * 1''" by code_simp
  have "case parse_cron ''0 3 * * 1'' of Inl e \<Rightarrow> False | Inr c \<Rightarrow> True" by code_simp
  then show "\<exists>c. parse_cron ''0 3 * * 1'' = Inr c" by (auto split: sum.splits)
qed

text \<open>
  The backup intervals the saves page offers survive the trip through a cron expression:
  each reads back as itself, and the scheduler's parser accepts the expression.
\<close>

theorem backup_intervals_roundtrip:
  "list_all (\<lambda>m. cron_to_minutes (minutes_to_cron m) = m \<and>
     (case parse_cron (minutes_to_cron m) of Inl e \<Rightarrow> False | Inr c \<Rightarrow> True)) [15, 30, 60, 120, 360, 720, 1440]"
  by code_simp

text \<open>
  The schedule labelled "Every 2 days" runs on two days in a row where an odd month ends: its
  expression counts the days of the month, and the 31st and the first are both odd.
\<close>

theorem every_two_days_at_month_end:
  "simple_schedule_label 2 4 0 = ''Every 2 days at 04:00'' \<and>
   (case parse_cron (simple_cron 2 4 0) of Inl e \<Rightarrow> False
    | Inr c \<Rightarrow> cron_matches c (30 * ms_day + 240 * ms_minute) \<and> cron_matches c (31 * ms_day + 240 * ms_minute))"
  by code_simp

text \<open>The minute of the day.\<close>

definition day_minute :: "time \<Rightarrow> int" where
  "day_minute t = js_hours t * 60 + js_minutes t"

lemma day_minute_eq: "day_minute t = (t mod ms_day) div ms_minute"
  unfolding day_minute_def by (rule js_time_of_day)

lemma day_minute_at:
  assumes "0 \<le> r" and "r < ms_day"
  shows "day_minute (d * ms_day + r) = r div ms_minute"
proof -
  have "(d * ms_day + r) mod ms_day = r" using assms by simp
  then show ?thesis by (simp add: day_minute_eq)
qed

lemma set_hours_start:
  assumes "clock_mins p = Some w"
  shows "set_hours t p = Some (t div ms_day * ms_day + w * ms_minute)"
  using assms by (auto simp: clock_mins_def set_hours_def ms_minute_def split: prod.splits option.splits)

text \<open>Before the start of a window on a day the minute of the day is smaller than the window's.\<close>

lemma before_window:
  assumes "0 \<le> s * ms_minute" and "s * ms_minute < ms_day" and "0 \<le> x" and "x < s * ms_minute"
  shows "day_minute (d * ms_day + x) < s"
proof -
  have "day_minute (d * ms_day + x) = x div ms_minute" using assms by (intro day_minute_at) simp_all
  also have "\<dots> < s" using assms(4) by (simp add: ms_minute_def div_less_iff_less_mult)
  finally show ?thesis .
qed

text \<open>Between the end of a window and its start on the next day lies no minute of the window.\<close>

lemma after_window:
  assumes "0 \<le> s * ms_minute" and "s * ms_minute < ms_day" and "e < day_minute date"
    and "date \<le> u" and "u < (date div ms_day + 1) * ms_day + s * ms_minute"
  shows "day_minute u < s \<or> e < day_minute u"
proof (cases "u < (date div ms_day + 1) * ms_day")
  case True
  define x where "x = u - date div ms_day * ms_day"
  have u: "u = date div ms_day * ms_day + x" by (simp add: x_def)
  have x: "0 \<le> x" "x < ms_day" "date mod ms_day \<le> x"
    using True assms(4) div_mult_mod_eq [of date ms_day] pos_mod_sign [of ms_day date]
    unfolding x_def distrib_right by (simp_all only: ms_day_def)
  have "day_minute u = x div ms_minute" unfolding u by (rule day_minute_at [OF x(1,2)])
  moreover have "date mod ms_day div ms_minute \<le> x div ms_minute"
    using x(3) by (intro zdiv_mono1) (simp_all add: ms_minute_def)
  ultimately show ?thesis using assms(3) by (simp add: day_minute_eq)
next
  case False
  with before_window [OF assms(1,2), of "u - (date div ms_day + 1) * ms_day" "date div ms_day + 1"] assms(5)
  show ?thesis by simp
qed

text \<open>
  C32. The clamp to an execution window within a day is right: for a window from \<open>s\<close> to \<open>e\<close>
  minutes with \<open>s \<le> e\<close>, the result is not before the given time, lies in the window, and
  no time between the two does.
\<close>

theorem clamp_least:
  assumes "ws \<noteq> []" and "we \<noteq> []" and "clock_mins (clock_parts ws) = Some s" and "clock_mins (clock_parts we) = Some e"
    and "0 \<le> s" and "s \<le> e" and "e < 1440"
  shows "\<exists>t. clamp_to_execution_window date (Some ws) (Some we) = Some t \<and> date \<le> t \<and>
    s \<le> day_minute t \<and> day_minute t \<le> e \<and>
    (\<forall>u. date \<le> u \<and> u < t \<longrightarrow> \<not> (s \<le> day_minute u \<and> day_minute u \<le> e))"
proof -
  have s: "0 \<le> s * ms_minute" "s * ms_minute < ms_day" using assms(5-7) by (simp_all add: ms_minute_def ms_day_def)
  have at_s: "day_minute (d * ms_day + s * ms_minute) = s" for d
    using day_minute_at [OF s] by (simp add: ms_minute_def)
  have date: "date = date div ms_day * ms_day + date mod ms_day" "0 \<le> date mod ms_day" "date mod ms_day < ms_day"
    by (simp_all add: ms_day_def)
  consider "s \<le> day_minute date \<and> day_minute date \<le> e" | "day_minute date < s" | "e < day_minute date" by linarith
  then show ?thesis
  proof cases
    case 1
    then have "clamp_to_execution_window date (Some ws) (Some we) = Some date"
      using assms by (simp add: clamp_to_execution_window_def Let_def day_minute_def)
    with 1 show ?thesis by (intro exI [of _ date]) auto
  next
    case 2
    let ?t = "date div ms_day * ms_day + s * ms_minute"
    have t: "clamp_to_execution_window date (Some ws) (Some we) = Some ?t"
      using 2 assms set_hours_start [OF assms(3), of date]
      by (simp add: clamp_to_execution_window_def Let_def day_minute_def [symmetric])
    have "date mod ms_day < s * ms_minute"
      using 2 by (simp add: day_minute_eq ms_minute_def div_less_iff_less_mult)
    then have "date \<le> ?t" using date(1) by linarith
    moreover have "day_minute u < s" if "date \<le> u" "u < ?t" for u
      using before_window [OF s, of "u - date div ms_day * ms_day" "date div ms_day"] that date by simp
    ultimately show ?thesis using t at_s [of "date div ms_day"] assms(6) by (intro exI [of _ ?t]) fastforce
  next
    case 3
    let ?t = "(date div ms_day + 1) * ms_day + s * ms_minute"
    have "(date + ms_day) div ms_day = date div ms_day + 1" by (simp add: ms_day_def)
    then have t: "clamp_to_execution_window date (Some ws) (Some we) = Some ?t"
      using 3 assms set_hours_start [OF assms(3), of "date + ms_day"]
      by (simp add: clamp_to_execution_window_def Let_def day_minute_def [symmetric])
    have "date \<le> ?t" using date s unfolding distrib_right by linarith
    with after_window [OF s 3] t at_s [of "date div ms_day + 1"] assms(6) show ?thesis
      by (intro exI [of _ ?t]) fastforce
  qed
qed

text \<open>
  A window over midnight never holds: if it starts later in the day than it ends, every
  time is moved to the start of the window on the following day, the times inside the window
  and those before its start on the same day included.
\<close>

theorem clamp_overnight_skips:
  assumes "ws \<noteq> []" and "we \<noteq> []" and "clock_mins (clock_parts ws) = Some s" and "clock_mins (clock_parts we) = Some e"
    and "e < s"
  shows "clamp_to_execution_window date (Some ws) (Some we) = Some (date div ms_day * ms_day + ms_day + s * ms_minute)"
proof -
  have "(date + ms_day) div ms_day = date div ms_day + 1" by (simp add: ms_day_def)
  then show ?thesis
    using assms set_hours_start [OF assms(3), of "date + ms_day"]
    by (simp add: clamp_to_execution_window_def Let_def distrib_right)
qed

section \<open>Witnesses\<close>

lemma sample_cron: "parse_cron ''30 2 * * *'' = Inr \<lparr>cs_minutes = Some [30], cs_hours = Some [2],
    cs_doms = None, cs_months = None, cs_dows = None\<rparr>"
  by code_simp

theorem cron_daily_returns_witness:
  "\<exists>t. get_next_cron_run ''30 2 * * *'' 0 = Inr t \<and> t \<le> 0 + ms_day"
  by (rule cron_daily_returns [OF sample_cron]) simp_all

lemma sample_next: "cron_search (Suc (Suc n)) \<lparr>cs_minutes = Some [2], cs_hours = None,
    cs_doms = None, cs_months = None, cs_dows = None\<rparr> 60000 = Some 120000"
proof -
  let ?c = "\<lparr>cs_minutes = Some [2], cs_hours = None, cs_doms = None, cs_months = None, cs_dows = None\<rparr>"
  have "\<not> cron_matches ?c 60000" "cron_matches ?c 120000" by code_simp+
  then show ?thesis by (simp add: ms_minute_def)
qed

theorem cron_next_least_witness:
  "get_next_cron_run ''2 * * * *'' 0 = Inr 120000 \<and> (0 :: time) < 120000 \<and> (120000 :: time) mod ms_minute = 0"
proof -
  have "parse_cron ''2 * * * *'' = Inr \<lparr>cs_minutes = Some [2], cs_hours = None,
    cs_doms = None, cs_months = None, cs_dows = None\<rparr>" by code_simp
  moreover have "max_iter = Suc (Suc (max_iter - 2))" by (simp add: max_iter_def)
  ultimately have r: "get_next_cron_run ''2 * * * *'' 0 = Inr 120000"
    using sample_next [of "max_iter - 2"] by (simp add: get_next_cron_run_def next_minute_def ms_minute_def)
  from cron_next_least [OF r] r show ?thesis by blast
qed

lemma sample_windows: "clock_mins (clock_parts ''02:00'') = Some 120" "clock_mins (clock_parts ''22:00'') = Some 1320"
  by code_simp+

theorem clamp_least_witness:
  "\<exists>t. clamp_to_execution_window 0 (Some ''02:00'') (Some ''22:00'') = Some t \<and> 120 \<le> day_minute t \<and> day_minute t \<le> 1320"
  using clamp_least [OF _ _ sample_windows, of 0] by auto

theorem clamp_overnight_skips_witness:
  "clamp_to_execution_window (23 * 3600000) (Some ''22:00'') (Some ''02:00'') = Some (ms_day + 22 * 3600000)"
  using clamp_overnight_skips [OF _ _ sample_windows(2,1), of "23 * 3600000"] by (simp add: ms_day_def ms_minute_def)

end
