(* ===== verification/Scheduler.thy ===== *)
theory Scheduler
  imports SampleWorld Cron
begin

text \<open>
  \<open>scheduler/scheduler.service.ts\<close> and \<open>scheduler/scheduler.controller.ts\<close>: the delayed
  firings, what a firing does, and the schedules' endpoints.  The scheduler's BullMQ queue is
  \<open>fire_queue\<close>: a job's id is made of the schedule and the due time, adding under an id
  that is present (finished jobs are kept) has no effect, and removing frees the id.  A
  failing database or Redis call inside a firing is the argument \<open>fault\<close>; the calls of its
  \<open>catch\<close> block succeed.  No operation writes the columns of the execution window; one that
  is not \<open>HH:mm\<close> counts as no next run.
\<close>

section \<open>The queue of firings\<close>

definition add_fire :: "id \<Rightarrow> time \<Rightarrow> store \<Rightarrow> store" where
  "add_fire sid at s =
    (if exists_where (\<lambda>f. f_scheduleId f = sid \<and> f_at f = at) (fire_queue s) then s
     else s\<lparr>fire_queue := fire_queue s @ [\<lparr>f_scheduleId = sid, f_at = at, f_done = False\<rparr>]\<rparr>)"

definition remove_fire :: "id \<Rightarrow> time \<Rightarrow> store \<Rightarrow> store" where
  "remove_fire sid at s =
     s\<lparr>fire_queue := delete_where (\<lambda>f. f_scheduleId f = sid \<and> f_at f = at) (fire_queue s)\<rparr>"

definition update_schedule_row :: "id \<Rightarrow> (schedule \<Rightarrow> schedule) \<Rightarrow> store \<Rightarrow> store" where
  "update_schedule_row sid f s = s\<lparr>t_schedules := update_where (\<lambda>x. sch_id x = sid) f (t_schedules s)\<rparr>"

definition compute_next_run :: "schedule \<Rightarrow> time \<Rightarrow> time option" where
  "compute_next_run sc start = (case get_next_cron_run (sch_cronExpression sc) start of
     Inl e \<Rightarrow> None
   | Inr next \<Rightarrow> clamp_to_execution_window next (sch_executionWindowStart sc) (sch_executionWindowEnd sc))"

definition queue_next :: "id \<Rightarrow> time option \<Rightarrow> store \<Rightarrow> store" where
  "queue_next sid next s = (case next of None \<Rightarrow> s | Some t \<Rightarrow> add_fire sid t s)"

definition hydrate_schedule :: "time \<Rightarrow> schedule \<Rightarrow> store \<Rightarrow> store" where
  "hydrate_schedule now sc s = (case compute_next_run sc now of
     None \<Rightarrow> s
   | Some t \<Rightarrow> update_schedule_row (sch_id sc) (\<lambda>x. x\<lparr>sch_nextRunAt := Some t\<rparr>) (add_fire (sch_id sc) t s))"

definition hydrate_schedules :: "store \<Rightarrow> time \<Rightarrow> store" where
  "hydrate_schedules s now = fold (hydrate_schedule now) (filter sch_enabled (t_schedules s)) s"

section \<open>A firing\<close>

definition scheduled_type :: "store \<Rightarrow> schedule \<Rightarrow> server_instance \<Rightarrow> string" where
  "scheduled_type s sc si =
    (if game_slug s (si_gameTypeId si) = ''7dtd'' \<and> js_upper (sch_jobType sc) = ''SERVER_RESTART''
     then ''SERVER_SAFE_RESTART'' else sch_jobType sc)"

text \<open>The properties a JSON value contributes when it is spread into an object.\<close>

definition spread_fields :: "json option \<Rightarrow> (string \<times> json) list" where
  "spread_fields v = (case v of
     Some (JObj kvs) \<Rightarrow> kvs
   | Some (JArr xs) \<Rightarrow> map (\<lambda>i. (nat_string i, xs ! i)) [0..<length xs]
   | Some (JStr x) \<Rightarrow> map (\<lambda>i. (nat_string i, JStr [x ! i])) [0..<length x]
   | _ \<Rightarrow> [])"

definition scheduled_payload :: "store \<Rightarrow> schedule \<Rightarrow> server_instance \<Rightarrow> json" where
  "scheduled_payload s sc si = JObj (jspread
     (server_fields s si @ [(''schedule_id'', JStr (sch_id sc))]) (spread_fields (sch_payload sc)))"

text \<open>The run that makes a firing step aside: of the same server, type and schedule, not finished.\<close>

definition active_for :: "store \<Rightarrow> id \<Rightarrow> string \<Rightarrow> id \<Rightarrow> job_run \<Rightarrow> bool" where
  "active_for s serverInstanceId ty sid r \<longleftrightarrow> (r_status r = Pending \<or> r_status r = Running) \<and>
     (case run_job s r of None \<Rightarrow> False
      | Some j \<Rightarrow> j_serverInstanceId j = Some serverInstanceId \<and> j_type j = ty \<and>
          (case j_payload j of None \<Rightarrow> False | Some p \<Rightarrow> jget p ''schedule_id'' = Some (JStr sid)))"

datatype fire_fault = NoFault | JobFails | RunFails | QueueFails | UpdateFails | RequeueFails

definition scheduled_job :: "job_ids \<Rightarrow> time \<Rightarrow> schedule \<Rightarrow> string \<Rightarrow> json \<Rightarrow> job" where
  "scheduled_job ids now sc ty payload =
     \<lparr>j_id = ji_job ids, j_orgId = sch_orgId sc, j_batchId = None,
      j_serverInstanceId = Some (sch_serverInstanceId sc), j_type = ty, j_payload = Some payload,
      j_createdById = None, j_createdAt = now\<rparr>"

definition scheduled_run :: "job_ids \<Rightarrow> time \<Rightarrow> id \<Rightarrow> job_run" where
  "scheduled_run ids now hostId =
     \<lparr>r_id = ji_run ids, r_jobId = ji_job ids, r_hostId = hostId, r_status = Pending,
      r_startedAt = None, r_finishedAt = None, r_result = None, r_createdAt = now\<rparr>"

definition scheduled_queue_job :: "job_ids \<Rightarrow> id \<Rightarrow> schedule \<Rightarrow> string \<Rightarrow> json \<Rightarrow> queue_job" where
  "scheduled_queue_job ids hostId sc ty payload =
     \<lparr>q_jobId = ji_job ids, q_jobRunId = ji_run ids, q_hostId = hostId,
      q_serverInstanceId = Some (sch_serverInstanceId sc), q_type = ty, q_payload = payload,
      q_scheduleId = Some (sch_id sc)\<rparr>"

definition succeeded :: "time \<Rightarrow> time option \<Rightarrow> id \<Rightarrow> schedule \<Rightarrow> schedule" where
  "succeeded now next jobId x = x\<lparr>sch_lastRunAt := Some now, sch_lastRunStatus := Some ''success'',
     sch_lastRunJobId := Some jobId, sch_runCount := sch_runCount x + 1,
     sch_nextRunAt := or_else next (sch_nextRunAt x)\<rparr>"

definition scheduler_failed :: "time \<Rightarrow> time option \<Rightarrow> id option \<Rightarrow> schedule \<Rightarrow> schedule" where
  "scheduler_failed now next jobId x = x\<lparr>sch_lastRunAt := Some now, sch_lastRunStatus := Some ''scheduler_failed'',
     sch_lastRunJobId := jobId, sch_failureCount := sch_failureCount x + 1,
     sch_nextRunAt := or_else next (sch_nextRunAt x)\<rparr>"

definition skipped_busy :: "time \<Rightarrow> time option \<Rightarrow> schedule \<Rightarrow> schedule" where
  "skipped_busy now next x = x\<lparr>sch_lastRunAt := Some now, sch_lastRunStatus := Some ''skipped_busy'',
     sch_nextRunAt := or_else next (sch_nextRunAt x)\<rparr>"

text \<open>
  The body of the \<open>try\<close>: the state it leaves behind, the \<open>createdJobId\<close> the \<open>catch\<close> block
  sees, and whether it ran to its end.
\<close>

definition start_scheduled ::
  "fire_fault \<Rightarrow> job_ids \<Rightarrow> store \<Rightarrow> time \<Rightarrow> schedule \<Rightarrow> server_instance \<Rightarrow> time option \<Rightarrow> store \<times> id option \<times> bool" where
  "start_scheduled fault ids s now sc si next =
    (let ty = scheduled_type s sc si;
         payload = scheduled_payload s sc si;
         s1 = s\<lparr>t_jobs := t_jobs s @ [scheduled_job ids now sc ty payload]\<rparr>;
         s2 = s1\<lparr>t_runs := t_runs s1 @ [scheduled_run ids now (si_hostId si)]\<rparr>;
         s3 = add_job s2 (sch_orgId sc) (scheduled_queue_job ids (si_hostId si) sc ty payload);
         s4 = update_schedule_row (sch_id sc) (succeeded now next (ji_job ids)) s3
     in if fault = JobFails then (s, None, False)
        else if fault = RunFails then (s1, None, False)
        else if fault = QueueFails then (s2, Some (ji_job ids), False)
        else if fault = UpdateFails then (s3, Some (ji_job ids), False)
        else if fault = RequeueFails \<and> next \<noteq> None then (s4, Some (ji_job ids), False)
        else (queue_next (sch_id sc) next s4, Some (ji_job ids), True))"

definition process_schedule_fire ::
  "fire_fault \<Rightarrow> job_ids \<Rightarrow> store \<Rightarrow> time \<Rightarrow> id \<Rightarrow> store \<times> bool" where
  "process_schedule_fire fault ids s now sid = (case find_schedule s sid of
     None \<Rightarrow> (s, True)
   | Some sc \<Rightarrow>
       if \<not> sch_enabled sc then (s, True)
       else (case find_server s (sch_serverInstanceId sc) of
         None \<Rightarrow> (s, True)
       | Some si \<Rightarrow>
           let next = compute_next_run sc now
           in if exists_where (active_for s (sch_serverInstanceId sc) (scheduled_type s sc si) sid) (t_runs s)
              then (queue_next sid next (update_schedule_row sid (skipped_busy now next) s), True)
              else (case start_scheduled fault ids s now sc si next of
                (s', created, True) \<Rightarrow> (s', True)
              | (s', created, False) \<Rightarrow>
                  (queue_next sid next (update_schedule_row sid (scheduler_failed now next created) s'), False))))"

definition handle_worker_failure :: "store \<Rightarrow> id \<Rightarrow> store" where
  "handle_worker_failure s sid = update_schedule_row sid (\<lambda>x. x\<lparr>sch_lastRunStatus := Some ''scheduler_failed'',
     sch_failureCount := sch_failureCount x + 1\<rparr>) s"

text \<open>The worker takes a due firing, runs it, and keeps it as finished.\<close>

definition finish_fire :: "fire_job \<Rightarrow> store \<Rightarrow> store" where
  "finish_fire f s = s\<lparr>fire_queue := update_where (\<lambda>x. x = f) (\<lambda>x. x\<lparr>f_done := True\<rparr>) (fire_queue s)\<rparr>"

definition run_fire :: "fire_fault \<Rightarrow> job_ids \<Rightarrow> store \<Rightarrow> time \<Rightarrow> fire_job \<Rightarrow> store" where
  "run_fire fault ids s now f =
    (case process_schedule_fire fault ids (finish_fire f s) now (f_scheduleId f) of
       (s', ok) \<Rightarrow> if ok then s' else handle_worker_failure s' (f_scheduleId f))"

section \<open>The endpoints\<close>

record schedule_view =
  sv_id :: id
  sv_orgId :: id
  sv_serverInstanceId :: id
  sv_name :: string
  sv_cronExpression :: string
  sv_jobType :: string
  sv_payload :: "json option"
  sv_enabled :: bool
  sv_nextRunAt :: "string option"
  sv_lastRunAt :: "string option"
  sv_lastRunStatus :: "string option"
  sv_createdAt :: string

definition schedule_dto :: "schedule \<Rightarrow> schedule_view" where
  "schedule_dto x = \<lparr>sv_id = sch_id x, sv_orgId = sch_orgId x, sv_serverInstanceId = sch_serverInstanceId x,
     sv_name = sch_name x, sv_cronExpression = sch_cronExpression x, sv_jobType = sch_jobType x,
     sv_payload = sch_payload x, sv_enabled = sch_enabled x,
     sv_nextRunAt = map_option iso_string (sch_nextRunAt x),
     sv_lastRunAt = map_option iso_string (sch_lastRunAt x), sv_lastRunStatus = sch_lastRunStatus x,
     sv_createdAt = iso_string (sch_createdAt x)\<rparr>"

definition list_schedules :: "store \<Rightarrow> id \<Rightarrow> schedule_view list" where
  "list_schedules s orgId = map schedule_dto (rev (filter (\<lambda>x. sch_orgId x = orgId) (t_schedules s)))"

record schedule_body =
  sb_name :: string
  sb_serverInstanceId :: id
  sb_cronExpression :: string
  sb_jobType :: string
  sb_payload :: "json option"
  sb_enabled :: "bool option"

definition new_schedule :: "id \<Rightarrow> time \<Rightarrow> id \<Rightarrow> id \<Rightarrow> schedule_body \<Rightarrow> time \<Rightarrow> schedule" where
  "new_schedule new_id now orgId userId d nextRunAt =
     \<lparr>sch_id = new_id, sch_orgId = orgId, sch_serverInstanceId = sb_serverInstanceId d, sch_name = sb_name d,
      sch_cronExpression = sb_cronExpression d, sch_jobType = sb_jobType d, sch_payload = sb_payload d,
      sch_enabled = (case sb_enabled d of None \<Rightarrow> True | Some b \<Rightarrow> b),
      sch_executionWindowStart = None, sch_executionWindowEnd = None, sch_retryPolicy = None,
      sch_lastRunAt = None, sch_nextRunAt = Some nextRunAt, sch_lastRunStatus = None,
      sch_lastRunJobId = None, sch_runCount = 0, sch_failureCount = 0,
      sch_createdById = Some userId, sch_createdAt = now\<rparr>"

text \<open>The foreign key on the server is the database's own check.\<close>

definition create_schedule ::
  "id \<Rightarrow> store \<Rightarrow> time \<Rightarrow> id \<Rightarrow> id \<Rightarrow> schedule_body \<Rightarrow> (store \<times> schedule_view) result" where
  "create_schedule new_id s now orgId userId d = (case get_next_cron_run (sb_cronExpression d) now of
     Inl e \<Rightarrow> Inl (Error (''Invalid cron expression: '' @ sb_cronExpression d))
   | Inr nextRunAt \<Rightarrow>
       if find_server s (sb_serverInstanceId d) = None then Inl (Error ''Foreign key constraint violated'')
       else let sc = new_schedule new_id now orgId userId d nextRunAt;
                s1 = s\<lparr>t_schedules := t_schedules s @ [sc]\<rparr>
            in Inr (if sch_enabled sc then add_fire new_id nextRunAt s1 else s1, schedule_dto sc))"

definition create_schedule_request ::
  "id \<Rightarrow> store \<Rightarrow> time \<Rightarrow> id \<Rightarrow> id \<Rightarrow> schedule_body \<Rightarrow> (store \<times> schedule_view) result" where
  "create_schedule_request new_id s now orgId userId d =
    (if sb_name d = [] \<or> sb_serverInstanceId d = [] \<or> sb_cronExpression d = [] \<or> sb_jobType d = []
     then Inl (BadRequestException ''name, serverInstanceId, cronExpression, and jobType are required'')
     else (case create_schedule new_id s now orgId userId d of
       Inl (Error msg) \<Rightarrow> Inl (BadRequestException msg)
     | r \<Rightarrow> r))"

record schedule_patch =
  sp_enabled :: "bool option"
  sp_name :: "string option"
  sp_cronExpression :: "string option"
  sp_jobType :: "string option"
  sp_payload :: "json option"

definition patch_schedule :: "schedule_patch \<Rightarrow> time option \<Rightarrow> schedule \<Rightarrow> schedule" where
  "patch_schedule p nextRunAt x = x\<lparr>
     sch_name := (case sp_name p of None \<Rightarrow> sch_name x | Some n \<Rightarrow> n),
     sch_cronExpression := (case sp_cronExpression p of None \<Rightarrow> sch_cronExpression x | Some c \<Rightarrow> c),
     sch_nextRunAt := (if sp_cronExpression p = None then sch_nextRunAt x else nextRunAt),
     sch_jobType := (case sp_jobType p of None \<Rightarrow> sch_jobType x | Some t \<Rightarrow> t),
     sch_payload := (case sp_payload p of None \<Rightarrow> sch_payload x | Some v \<Rightarrow> Some v),
     sch_enabled := (case sp_enabled p of None \<Rightarrow> sch_enabled x | Some b \<Rightarrow> b)\<rparr>"

definition patched_next_run :: "schedule_patch \<Rightarrow> time \<Rightarrow> schedule \<Rightarrow> time option result" where
  "patched_next_run p now existing = (case sp_cronExpression p of
     None \<Rightarrow> Inr (sch_nextRunAt existing)
   | Some c \<Rightarrow>
       if c = [] then Inr (sch_nextRunAt existing)
       else (case get_next_cron_run c now of
         Inl e \<Rightarrow> Inl (Error (''Invalid cron expression: '' @ c))
       | Inr t \<Rightarrow> Inr (Some t)))"

definition find_schedule_in_org :: "store \<Rightarrow> id \<Rightarrow> id \<Rightarrow> schedule option" where
  "find_schedule_in_org s sid orgId =
     List.find (\<lambda>x. sch_id x = sid \<and> sch_orgId x = orgId) (t_schedules s)"

definition update_schedule ::
  "store \<Rightarrow> time \<Rightarrow> id \<Rightarrow> id \<Rightarrow> schedule_patch \<Rightarrow> (store \<times> schedule_view) result" where
  "update_schedule s now orgId sid p = (case find_schedule_in_org s sid orgId of
     None \<Rightarrow> Inl (Error ''Schedule not found'')
   | Some existing \<Rightarrow> (case patched_next_run p now existing of
       Inl e \<Rightarrow> Inl e
     | Inr nextRunAt \<Rightarrow>
         let updated = patch_schedule p nextRunAt existing;
             s1 = update_schedule_row sid (patch_schedule p nextRunAt) s;
             s2 = (case sch_nextRunAt existing of None \<Rightarrow> s1 | Some t \<Rightarrow> remove_fire sid t s1)
         in Inr (if sch_enabled updated then queue_next sid (sch_nextRunAt updated) s2 else s2,
                 schedule_dto updated)))"

definition update_schedule_request ::
  "store \<Rightarrow> time \<Rightarrow> id \<Rightarrow> id \<Rightarrow> schedule_patch \<Rightarrow> (store \<times> schedule_view) result" where
  "update_schedule_request s now orgId sid p = plain_error_handler (update_schedule s now orgId sid p)"

definition delete_schedule :: "store \<Rightarrow> id \<Rightarrow> id \<Rightarrow> store result" where
  "delete_schedule s orgId sid = (case find_schedule_in_org s sid orgId of
     None \<Rightarrow> Inl (Error ''Schedule not found'')
   | Some _ \<Rightarrow> Inr (s\<lparr>t_schedules := delete_where (\<lambda>x. sch_id x = sid) (t_schedules s)\<rparr>))"

definition delete_schedule_request :: "store \<Rightarrow> id \<Rightarrow> id \<Rightarrow> store result" where
  "delete_schedule_request s orgId sid = plain_error_handler (delete_schedule s orgId sid)"

section \<open>Runs of the scheduler\<close>

text \<open>
  The transitions: time passes, the service starts up and reads the schedules, a due firing is
  processed, a schedule is created, changed or deleted, and everything the rest of the
  system does, which leaves the firings alone, may delete schedules with their server, and
  starts no run in the name of a schedule.  \<open>ok\<close> restricts the payloads users give their
  schedules.
\<close>

definition active_count :: "store \<Rightarrow> id \<Rightarrow> string \<Rightarrow> id \<Rightarrow> nat" where
  "active_count s srv ty sid = count_where (active_for s srv ty sid) (t_runs s)"

text \<open>The new job id is neither a row nor referred to.\<close>

definition unused_job :: "store \<Rightarrow> job_ids \<Rightarrow> bool" where
  "unused_job s ids \<longleftrightarrow> fresh_job s ids \<and> ji_job ids \<notin> r_jobId ` set (t_runs s)"

definition elsewhere :: "store \<Rightarrow> store \<Rightarrow> bool" where
  "elsewhere s s' \<longleftrightarrow> fire_queue s' = fire_queue s \<and>
     (\<exists>P. t_schedules s' = filter P (t_schedules s)) \<and>
     (\<forall>x \<in> set (t_schedules s'). find_server s' (sch_serverInstanceId x) \<noteq> None) \<and>
     (\<forall>srv ty sid. active_count s' srv ty sid \<le> active_count s srv ty sid)"

inductive sched_step :: "(json option \<Rightarrow> bool) \<Rightarrow> time \<times> store \<Rightarrow> time \<times> store \<Rightarrow> bool"
  for ok :: "json option \<Rightarrow> bool" where
  tick: "now \<le> now' \<Longrightarrow> sched_step ok (now, s) (now', s)"
| start: "sched_step ok (now, s) (now, hydrate_schedules s now)"
| fire: "f \<in> set (fire_queue s) \<Longrightarrow> \<not> f_done f \<Longrightarrow> f_at f \<le> now \<Longrightarrow> unused_job s ids \<Longrightarrow>
    sched_step ok (now, s) (now, run_fire fault ids s now f)"
| create: "new_id \<notin> sch_id ` set (t_schedules s) \<Longrightarrow> new_id \<notin> f_scheduleId ` set (fire_queue s) \<Longrightarrow>
    ok (sb_payload d) \<Longrightarrow> create_schedule new_id s now oid uid d = Inr (s', v) \<Longrightarrow> sched_step ok (now, s) (now, s')"
| update: "(sp_payload p \<noteq> None \<Longrightarrow> ok (sp_payload p)) \<Longrightarrow> update_schedule s now oid sid p = Inr (s', v) \<Longrightarrow>
    sched_step ok (now, s) (now, s')"
| delete: "delete_schedule s oid sid = Inr s' \<Longrightarrow> sched_step ok (now, s) (now, s')"
| other: "elsewhere s s' \<Longrightarrow> sched_step ok (now, s) (now, s')"

inductive_cases sched_stepE: "sched_step ok x y"

definition sched_reach :: "(json option \<Rightarrow> bool) \<Rightarrow> time \<times> store \<Rightarrow> time \<times> store \<Rightarrow> bool" where
  "sched_reach ok = (sched_step ok)\<^sup>*\<^sup>*"

section \<open>Every live schedule is armed\<close>

text \<open>
  A schedule is live when it is enabled and its expression always has a next run; it is
  armed when a firing waits at the time its row announces.
\<close>

definition always_next :: "string \<Rightarrow> bool" where
  "always_next expr \<longleftrightarrow> (\<forall>t. \<exists>u. get_next_cron_run expr t = Inr u)"

definition armed :: "store \<Rightarrow> schedule \<Rightarrow> bool" where
  "armed s x \<longleftrightarrow> (\<exists>f \<in> set (fire_queue s). f_scheduleId f = sch_id x \<and> \<not> f_done f \<and> sch_nextRunAt x = Some (f_at f))"

definition sched_inv :: "time \<Rightarrow> store \<Rightarrow> bool" where
  "sched_inv now s \<longleftrightarrow> distinct (map sch_id (t_schedules s)) \<and>
     (\<forall>f \<in> set (fire_queue s). f_done f \<longrightarrow> f_at f \<le> now) \<and>
     (\<forall>x \<in> set (t_schedules s). sch_executionWindowStart x = None \<and> sch_nextRunAt x \<noteq> None \<and>
        find_server s (sch_serverInstanceId x) \<noteq> None \<and>
        (sch_enabled x \<and> always_next (sch_cronExpression x) \<longrightarrow> armed s x))"

text \<open>The parts of the store a firing or an endpoint of this service touches.\<close>

lemma fire_tables [simp]:
  "t_schedules (add_fire sid at s) = t_schedules s"
  "t_serverInstances (add_fire sid at s) = t_serverInstances s"
  "t_jobs (add_fire sid at s) = t_jobs s" "t_runs (add_fire sid at s) = t_runs s"
  "t_schedules (remove_fire sid at s) = t_schedules s"
  "t_serverInstances (remove_fire sid at s) = t_serverInstances s"
  "t_jobs (remove_fire sid at s) = t_jobs s" "t_runs (remove_fire sid at s) = t_runs s"
  "fire_queue (remove_fire sid at s) = delete_where (\<lambda>f. f_scheduleId f = sid \<and> f_at f = at) (fire_queue s)"
  "t_schedules (update_schedule_row sid g s) = update_where (\<lambda>x. sch_id x = sid) g (t_schedules s)"
  "t_serverInstances (update_schedule_row sid g s) = t_serverInstances s"
  "t_jobs (update_schedule_row sid g s) = t_jobs s" "t_runs (update_schedule_row sid g s) = t_runs s"
  "fire_queue (update_schedule_row sid g s) = fire_queue s"
  "t_schedules (finish_fire f s) = t_schedules s" "t_serverInstances (finish_fire f s) = t_serverInstances s"
  "t_jobs (finish_fire f s) = t_jobs s" "t_runs (finish_fire f s) = t_runs s"
  by (simp_all add: add_fire_def remove_fire_def update_schedule_row_def finish_fire_def)

lemma queue_next_tables [simp]:
  "t_schedules (queue_next sid next s) = t_schedules s"
  "t_serverInstances (queue_next sid next s) = t_serverInstances s"
  "t_jobs (queue_next sid next s) = t_jobs s" "t_runs (queue_next sid next s) = t_runs s"
  by (simp_all add: queue_next_def split: option.split)

lemma find_server_cong: "t_serverInstances s' = t_serverInstances s \<Longrightarrow> find_server s' = find_server s"
  by (simp add: find_server_def fun_eq_iff)

lemma set_add_fire: "set (fire_queue s) \<subseteq> set (fire_queue (add_fire sid at s))"
  by (auto simp: add_fire_def)

lemma add_fire_done:
  "f \<in> set (fire_queue (add_fire sid at s)) \<Longrightarrow> f_done f \<Longrightarrow> f \<in> set (fire_queue s)"
  by (auto simp: add_fire_def split: if_splits)

text \<open>Adding under an id no finished job holds leaves a waiting job under it.\<close>

lemma add_fire_waits:
  assumes "\<And>f. f \<in> set (fire_queue s) \<Longrightarrow> f_done f \<Longrightarrow> \<not> (f_scheduleId f = sid \<and> f_at f = at)"
  shows "\<exists>f \<in> set (fire_queue (add_fire sid at s)). f_scheduleId f = sid \<and> f_at f = at \<and> \<not> f_done f"
  using assms by (fastforce simp: add_fire_def exists_where_iff)

lemma compute_next_run_later:
  "compute_next_run sc now = Some t \<Longrightarrow> sch_executionWindowStart sc = None \<Longrightarrow> now < t"
  by (auto simp: compute_next_run_def clamp_to_execution_window_def dest: next_run_later split: sum.splits)

lemma compute_next_run_always:
  "always_next (sch_cronExpression sc) \<Longrightarrow> sch_executionWindowStart sc = None \<Longrightarrow> \<exists>t. compute_next_run sc now = Some t"
  by (auto simp: always_next_def compute_next_run_def clamp_to_execution_window_def split: sum.splits)
    (metis sum.distinct(1))

text \<open>
  The step all operations share: the row of one schedule changes, and a firing is added at the
  time the new row announces.
\<close>

lemma sched_invD:
  assumes "sched_inv now s" and "x \<in> set (t_schedules s)"
  shows "sch_executionWindowStart x = None" "sch_nextRunAt x \<noteq> None"
    "find_server s (sch_serverInstanceId x) \<noteq> None"
    "sch_enabled x \<Longrightarrow> always_next (sch_cronExpression x) \<Longrightarrow> armed s x"
  using assms by (auto simp: sched_inv_def)

lemma sched_inv_row:
  assumes inv: "sched_inv now s"
    and rows: "t_schedules s' = update_where (\<lambda>x. sch_id x = sid) g (t_schedules s)"
    and servers: "t_serverInstances s' = t_serverInstances s"
    and keep: "\<And>f. f \<in> set (fire_queue s) \<Longrightarrow> f_scheduleId f \<noteq> sid \<Longrightarrow> f \<in> set (fire_queue s')"
    and old: "\<And>f. f \<in> set (fire_queue s') \<Longrightarrow> f_done f \<Longrightarrow> f_at f \<le> now"
    and g: "\<And>x. x \<in> set (t_schedules s) \<Longrightarrow> sch_id x = sid \<Longrightarrow> sch_id (g x) = sid \<and>
      sch_executionWindowStart (g x) = None \<and> sch_nextRunAt (g x) \<noteq> None \<and>
      sch_serverInstanceId (g x) = sch_serverInstanceId x \<and>
      (sch_enabled (g x) \<and> always_next (sch_cronExpression (g x)) \<longrightarrow> armed s' (g x))"
  shows "sched_inv now s'"
proof -
  have "map sch_id (t_schedules s') = map sch_id (t_schedules s)"
    unfolding rows update_where_def map_map by (rule map_cong [OF refl]) (use g in auto)
  moreover have "sch_executionWindowStart y = None \<and> sch_nextRunAt y \<noteq> None \<and>
      find_server s' (sch_serverInstanceId y) \<noteq> None \<and>
      (sch_enabled y \<and> always_next (sch_cronExpression y) \<longrightarrow> armed s' y)" if "y \<in> set (t_schedules s')" for y
  proof -
    from that obtain x where x: "x \<in> set (t_schedules s)" "y = (if sch_id x = sid then g x else x)"
      by (auto simp: rows set_update_where)
    note ix = sched_invD [OF inv x(1)]
    show ?thesis
    proof (cases "sch_id x = sid")
      case True
      with x g [OF x(1)] ix(3) show ?thesis by (simp add: find_server_cong [OF servers])
    next
      case False
      have "armed s x \<Longrightarrow> armed s' x"
        using False keep by (fastforce simp: armed_def)
      with False x ix show ?thesis by (auto simp: find_server_cong [OF servers])
    qed
  qed
  ultimately show ?thesis using inv old by (simp add: sched_inv_def)
qed

lemma sched_inv_hydrate_one:
  assumes inv: "sched_inv now s" and win: "sch_executionWindowStart sc = None"
  shows "sched_inv now (hydrate_schedule now sc s)"
proof (cases "compute_next_run sc now")
  case None
  with inv show ?thesis by (simp add: hydrate_schedule_def)
next
  case (Some t)
  let ?s = "add_fire (sch_id sc) t s"
  have t: "now < t" by (rule compute_next_run_later [OF Some win])
  have fin: "f_at f \<le> now" if "f \<in> set (fire_queue s)" "f_done f" for f
    using inv that by (auto simp: sched_inv_def)
  have "\<exists>f \<in> set (fire_queue ?s). f_scheduleId f = sch_id sc \<and> f_at f = t \<and> \<not> f_done f"
    by (rule add_fire_waits) (use fin t in force)
  then have armed: "armed (hydrate_schedule now sc s) (x\<lparr>sch_nextRunAt := Some t\<rparr>)" if "sch_id x = sch_id sc" for x
    using that Some by (auto simp: armed_def hydrate_schedule_def)
  show ?thesis
  proof (rule sched_inv_row [OF inv, where sid = "sch_id sc" and g = "\<lambda>x. x\<lparr>sch_nextRunAt := Some t\<rparr>"])
    show "f \<in> set (fire_queue (hydrate_schedule now sc s))" if "f \<in> set (fire_queue s)" for f
      using that set_add_fire [of s "sch_id sc" t] Some by (auto simp: hydrate_schedule_def)
    show "f_at f \<le> now" if "f \<in> set (fire_queue (hydrate_schedule now sc s))" "f_done f" for f
      using that fin add_fire_done [of f "sch_id sc" t s] Some by (auto simp: hydrate_schedule_def)
  qed (use Some armed inv in \<open>auto simp: hydrate_schedule_def sched_inv_def\<close>)
qed

lemma sched_inv_hydrate:
  assumes "sched_inv now s"
  shows "sched_inv now (hydrate_schedules s now)"
proof -
  have all: "sched_inv now (fold (hydrate_schedule now) xs s)"
    if "sched_inv now s" "\<forall>x \<in> set xs. sch_executionWindowStart x = None" for xs s
    using that by (induction xs arbitrary: s) (simp_all add: sched_inv_hydrate_one)
  have "\<forall>x \<in> set (filter sch_enabled (t_schedules s)). sch_executionWindowStart x = None"
    using sched_invD(1) [OF assms] by simp
  then show ?thesis unfolding hydrate_schedules_def by (rule all [OF assms])
qed

text \<open>What a firing does to the row of its schedule and to the queue of firings.\<close>

lemma queue_next_queue:
  "fire_queue s' = fire_queue s \<Longrightarrow> fire_queue (queue_next sid next s') = fire_queue (queue_next sid next s)"
  by (auto simp: queue_next_def add_fire_def split: option.split)

definition advances :: "time option \<Rightarrow> (schedule \<Rightarrow> schedule) \<Rightarrow> bool" where
  "advances next g \<longleftrightarrow> (\<forall>x. sch_id (g x) = sch_id x \<and> sch_enabled (g x) = sch_enabled x \<and>
     sch_cronExpression (g x) = sch_cronExpression x \<and> sch_serverInstanceId (g x) = sch_serverInstanceId x \<and>
     sch_executionWindowStart (g x) = sch_executionWindowStart x \<and> sch_payload (g x) = sch_payload x \<and>
     sch_nextRunAt (g x) = or_else next (sch_nextRunAt x))"

lemma update_where_twice:
  "(\<And>x. P x \<Longrightarrow> P (f x)) \<Longrightarrow> update_where P g (update_where P f rows) = update_where P (\<lambda>x. g (f x)) rows"
  by (induction rows) auto

lemma advances_simps:
  "advances next (skipped_busy now next)" "advances next (succeeded now next jid)"
  "advances next (scheduler_failed now next created)"
  "advances next (\<lambda>x. scheduler_failed now next created (succeeded now next jid x))"
  by (auto simp: advances_def skipped_busy_def succeeded_def scheduler_failed_def or_else_def split: option.splits)

lemma add_job_schedules [simp]: "t_schedules (add_job s oid d) = t_schedules s"
  "fire_queue (add_job s oid d) = fire_queue s"
  by (simp_all add: add_job_def)

lemma start_scheduled_spec:
  assumes "start_scheduled fault ids s now sc si next = (s', created, ok)"
  shows "t_serverInstances s' = t_serverInstances s \<and>
    (if ok then t_schedules s' = update_where (\<lambda>x. sch_id x = sch_id sc) (succeeded now next (ji_job ids)) (t_schedules s) \<and>
       fire_queue s' = fire_queue (queue_next (sch_id sc) next s)
     else fire_queue s' = fire_queue s \<and> (t_schedules s' = t_schedules s \<or>
       t_schedules s' = update_where (\<lambda>x. sch_id x = sch_id sc) (succeeded now next (ji_job ids)) (t_schedules s)))"
  using assms by (auto simp: start_scheduled_def Let_def intro!: queue_next_queue split: if_splits)

lemma process_fire_spec:
  assumes "process_schedule_fire fault ids s now sid = (s', ok)"
  shows "(s' = s \<and> ok \<and> (\<forall>sc. find_schedule s sid = Some sc \<longrightarrow> sch_enabled sc \<longrightarrow> find_server s (sch_serverInstanceId sc) = None)) \<or>
    (\<exists>sc g. find_schedule s sid = Some sc \<and> sch_enabled sc \<and> t_serverInstances s' = t_serverInstances s \<and>
       t_schedules s' = update_where (\<lambda>x. sch_id x = sid) g (t_schedules s) \<and> advances (compute_next_run sc now) g \<and>
       fire_queue s' = fire_queue (queue_next sid (compute_next_run sc now) s))"
proof (cases "\<exists>sc si. find_schedule s sid = Some sc \<and> sch_enabled sc \<and> find_server s (sch_serverInstanceId sc) = Some si")
  case False
  with assms show ?thesis by (auto simp: process_schedule_fire_def split: option.splits if_splits)
next
  case True
  then obtain sc si where sc: "find_schedule s sid = Some sc" "sch_enabled sc"
    and si: "find_server s (sch_serverInstanceId sc) = Some si" by blast
  note id = find_schedule_SomeD [OF sc(1)]
  let ?next = "compute_next_run sc now"
  let ?P = "\<lambda>x. sch_id x = sid"
  have "\<exists>g. t_serverInstances s' = t_serverInstances s \<and> t_schedules s' = update_where ?P g (t_schedules s) \<and>
      advances ?next g \<and> fire_queue s' = fire_queue (queue_next sid ?next s)"
  proof (cases "exists_where (active_for s (sch_serverInstanceId sc) (scheduled_type s sc si) sid) (t_runs s)")
    case True
    with assms sc si have "s' = queue_next sid ?next (update_schedule_row sid (skipped_busy now ?next) s)"
      by (simp add: process_schedule_fire_def Let_def)
    then show ?thesis by (auto intro!: exI [of _ "skipped_busy now ?next"] advances_simps queue_next_queue)
  next
    case False
    obtain s1 created started where st: "start_scheduled fault ids s now sc si ?next = (s1, created, started)"
      by (metis prod_cases3)
    note spec = start_scheduled_spec [OF st]
    let ?suc = "succeeded now ?next (ji_job ids)"
    show ?thesis
    proof (cases started)
      case started: True
      with assms sc si st False have "s' = s1" by (simp add: process_schedule_fire_def Let_def)
      with spec started id show ?thesis by (auto intro!: exI [of _ ?suc] advances_simps)
    next
      case failed: False
      let ?fail = "scheduler_failed now ?next created"
      from assms sc si st False failed have s': "s' = queue_next sid ?next (update_schedule_row sid ?fail s1)"
        by (simp add: process_schedule_fire_def Let_def)
      have "update_where ?P ?fail (update_where ?P ?suc (t_schedules s)) = update_where ?P (\<lambda>x. ?fail (?suc x)) (t_schedules s)"
        by (rule update_where_twice) (simp add: succeeded_def)
      moreover have q: "fire_queue s' = fire_queue (queue_next sid ?next s)"
        unfolding s' by (rule queue_next_queue) (use spec failed in simp)
      moreover have "t_schedules s' = update_where ?P ?fail (t_schedules s1)" "t_serverInstances s' = t_serverInstances s"
        unfolding s' using spec by simp_all
      moreover have "t_schedules s1 = t_schedules s \<or> t_schedules s1 = update_where ?P ?suc (t_schedules s)"
        using spec failed id by auto
      ultimately show ?thesis
        using advances_simps(3,4) [of ?next now created] by metis
    qed
  qed
  with sc show ?thesis by blast
qed

text \<open>The row of a schedule, with its firing queued at a later time.\<close>

lemma sched_inv_fire:
  assumes inv: "sched_inv now s" and f: "f_at f \<le> now" and run: "s' = run_fire fault ids s now f"
  shows "sched_inv now s'"
proof -
  let ?sid = "f_scheduleId f" and ?s = "finish_fire f s"
  obtain s1 ok where p: "process_schedule_fire fault ids ?s now ?sid = (s1, ok)" by fastforce
  have find: "find_schedule ?s = find_schedule s" "find_server ?s = find_server s"
    by (simp_all add: find_schedule_def find_server_def fun_eq_iff)
  have dist: "distinct (map sch_id (t_schedules s))" using inv by (simp add: sched_inv_def)
  have fin: "f_at x \<le> now" if "x \<in> set (fire_queue ?s)" "f_done x" for x
    using that f inv by (auto simp: finish_fire_def set_update_where sched_inv_def)
  have keep: "x \<in> set (fire_queue ?s)" if "x \<in> set (fire_queue s)" "f_scheduleId x \<noteq> ?sid" for x
    using that by (force simp: finish_fire_def set_update_where)
  from process_fire_spec [OF p] show ?thesis
  proof (elim disjE exE conjE)
    assume s1: "s1 = ?s" "ok"
      and idle: "\<forall>sc. find_schedule ?s ?sid = Some sc \<longrightarrow> sch_enabled sc \<longrightarrow> find_server ?s (sch_serverInstanceId sc) = None"
    have s': "s' = ?s" by (simp add: run run_fire_def p s1)
    show ?thesis unfolding s'
    proof (rule sched_inv_row [OF inv, where sid = ?sid and g = "\<lambda>x. x"])
      fix x assume x: "x \<in> set (t_schedules s)" "sch_id x = ?sid"
      from find_key_distinct [OF dist x] have "find_schedule s ?sid = Some x" by (simp add: find_schedule_def)
      with idle find sched_invD(3) [OF inv x(1)] have "\<not> sch_enabled x" by simp
      with x sched_invD [OF inv x(1)] show "sch_id x = ?sid \<and> sch_executionWindowStart x = None \<and> sch_nextRunAt x \<noteq> None \<and>
        sch_serverInstanceId x = sch_serverInstanceId x \<and> (sch_enabled x \<and> always_next (sch_cronExpression x) \<longrightarrow> armed ?s x)"
        by simp
    qed (use keep fin in \<open>simp_all add: update_where_def\<close>)
  next
    fix sc g
    let ?next = "compute_next_run sc now"
    assume sc: "find_schedule ?s ?sid = Some sc" "sch_enabled sc"
      and servers: "t_serverInstances s1 = t_serverInstances ?s"
      and rows: "t_schedules s1 = update_where (\<lambda>x. sch_id x = ?sid) g (t_schedules ?s)"
      and g: "advances ?next g" and q: "fire_queue s1 = fire_queue (queue_next ?sid ?next ?s)"
    from sc find have sc': "sc \<in> set (t_schedules s)" "sch_id sc = ?sid" using find_schedule_SomeD by simp_all
    note win = sched_invD(1) [OF inv sc'(1)]
    have queue: "fire_queue s' = fire_queue (queue_next ?sid ?next ?s)" "t_serverInstances s' = t_serverInstances s"
      using q servers by (simp_all add: run run_fire_def p handle_worker_failure_def)
    have "\<exists>h. advances ?next h \<and> t_schedules s' = update_where (\<lambda>x. sch_id x = ?sid) h (t_schedules s)"
    proof (cases ok)
      case True
      with rows g show ?thesis by (auto simp: run run_fire_def p)
    next
      case False
      let ?e = "\<lambda>x. x\<lparr>sch_lastRunStatus := Some ''scheduler_failed'', sch_failureCount := sch_failureCount x + 1\<rparr>"
      have "t_schedules s' = update_where (\<lambda>x. sch_id x = ?sid) (\<lambda>x. ?e (g x)) (t_schedules s)"
        using False rows g by (simp add: run run_fire_def p handle_worker_failure_def)
          (rule update_where_twice, simp add: advances_def)
      moreover have "advances ?next (\<lambda>x. ?e (g x))" using g by (simp add: advances_def)
      ultimately show ?thesis by blast
    qed
    then obtain h where h: "advances ?next h" "t_schedules s' = update_where (\<lambda>x. sch_id x = ?sid) h (t_schedules s)" by blast
    have later: "now < t" if "?next = Some t" for t by (rule compute_next_run_later [OF that win])
    show ?thesis
    proof (rule sched_inv_row [OF inv h(2) queue(2)])
      show "x \<in> set (fire_queue s')" if "x \<in> set (fire_queue s)" "f_scheduleId x \<noteq> ?sid" for x
        unfolding queue(1) using keep [OF that] set_add_fire [of ?s] by (auto simp: queue_next_def split: option.split)
      show "f_at x \<le> now" if "x \<in> set (fire_queue s')" "f_done x" for x
        using that fin add_fire_done [of x _ _ ?s] unfolding queue(1)
        by (auto simp: queue_next_def split: option.splits)
      fix x assume x: "x \<in> set (t_schedules s)" "sch_id x = ?sid"
      from find_key_distinct [OF dist x] sc find have "sc = x" by (simp add: find_schedule_def)
      note ix = sched_invD [OF inv x(1)]
      have "armed s' (h x)" if "always_next (sch_cronExpression x)"
      proof -
        from compute_next_run_always [of x now] that ix(1) \<open>sc = x\<close> obtain t where t: "?next = Some t" by blast
        have "\<exists>y \<in> set (fire_queue (add_fire ?sid t ?s)). f_scheduleId y = ?sid \<and> f_at y = t \<and> \<not> f_done y"
          by (rule add_fire_waits) (use fin later [OF t] in force)
        with h(1) t x show ?thesis
          by (auto simp: armed_def queue queue_next_def advances_def or_else_def)
      qed
      with h(1) ix x show "sch_id (h x) = ?sid \<and> sch_executionWindowStart (h x) = None \<and> sch_nextRunAt (h x) \<noteq> None \<and>
        sch_serverInstanceId (h x) = sch_serverInstanceId x \<and>
        (sch_enabled (h x) \<and> always_next (sch_cronExpression (h x)) \<longrightarrow> armed s' (h x))"
        by (auto simp: advances_def or_else_def split: option.splits)
    qed
  qed
qed

lemma find_server_SomeI: "find_server s sid \<noteq> None \<Longrightarrow> t_serverInstances s' = t_serverInstances s \<Longrightarrow> find_server s' sid \<noteq> None"
  by (simp add: find_server_def)

lemma create_schedule_InrD:
  assumes "create_schedule new_id s now oid uid d = Inr (s', v)"
  shows "\<exists>t. get_next_cron_run (sb_cronExpression d) now = Inr t \<and> find_server s (sb_serverInstanceId d) \<noteq> None \<and>
    s' = (let sc = new_schedule new_id now oid uid d t; s1 = s\<lparr>t_schedules := t_schedules s @ [sc]\<rparr>
       in if sch_enabled sc then add_fire new_id t s1 else s1)"
  using assms by (auto simp: create_schedule_def Let_def split: sum.splits if_splits)

lemma sched_inv_create:
  assumes inv: "sched_inv now s" and fresh: "new_id \<notin> sch_id ` set (t_schedules s)" "new_id \<notin> f_scheduleId ` set (fire_queue s)"
    and c: "create_schedule new_id s now oid uid d = Inr (s', v)"
  shows "sched_inv now s'"
proof -
  from create_schedule_InrD [OF c] obtain t where t: "get_next_cron_run (sb_cronExpression d) now = Inr t"
    "find_server s (sb_serverInstanceId d) \<noteq> None"
    and s': "s' = (let sc = new_schedule new_id now oid uid d t; s1 = s\<lparr>t_schedules := t_schedules s @ [sc]\<rparr>
       in if sch_enabled sc then add_fire new_id t s1 else s1)" by blast
  let ?sc = "new_schedule new_id now oid uid d t"
  have rows: "t_schedules s' = t_schedules s @ [?sc]" "t_serverInstances s' = t_serverInstances s"
    by (simp_all add: s' Let_def)
  have sub: "set (fire_queue s) \<subseteq> set (fire_queue s')"
    using set_add_fire [of "s\<lparr>t_schedules := t_schedules s @ [?sc]\<rparr>" new_id t] by (simp add: s' Let_def)
  have fin: "f \<in> set (fire_queue s)" if "f \<in> set (fire_queue s')" "f_done f" for f
    using that add_fire_done [of f new_id t "s\<lparr>t_schedules := t_schedules s @ [?sc]\<rparr>"] by (simp add: s' Let_def split: if_splits)
  have "armed s' ?sc" if "sch_enabled ?sc"
  proof -
    have "\<exists>f \<in> set (fire_queue (add_fire new_id t (s\<lparr>t_schedules := t_schedules s @ [?sc]\<rparr>))).
        f_scheduleId f = new_id \<and> f_at f = t \<and> \<not> f_done f"
      by (rule add_fire_waits) (use fresh(2) in auto)
    with that show ?thesis by (auto simp: armed_def s' Let_def new_schedule_def)
  qed
  moreover have "armed s' x" if "armed s x" for x using that sub by (auto simp: armed_def)
  moreover have "find_server s' = find_server s" by (simp add: find_server_def rows fun_eq_iff)
  ultimately show ?thesis
    using inv fresh(1) t(2) fin unfolding sched_inv_def rows
    by (auto simp: new_schedule_def)
qed

lemma find_schedule_in_org_SomeD:
  "find_schedule_in_org s sid oid = Some x \<Longrightarrow> x \<in> set (t_schedules s) \<and> sch_id x = sid"
  by (auto simp: find_schedule_in_org_def dest: find_SomeD)

lemma no_next_empty: "\<not> always_next []"
proof -
  have "parse_cron [] = Inl (Error ''Invalid cron: expected 5 fields'')" by code_simp
  then show ?thesis by (simp add: always_next_def get_next_cron_run_def)
qed

lemma sched_inv_update:
  assumes inv: "sched_inv now s" and u: "update_schedule s now oid sid p = Inr (s', v)"
  shows "sched_inv now s'"
proof -
  from u obtain x n where x: "find_schedule_in_org s sid oid = Some x" and n: "patched_next_run p now x = Inr n"
    by (auto simp: update_schedule_def split: option.splits sum.splits)
  let ?g = "patch_schedule p n"
  note xs = find_schedule_in_org_SomeD [OF x]
  note ix = sched_invD [OF inv xs [THEN conjunct1]]
  obtain T where T: "sch_nextRunAt x = Some T" using ix(2) by blast
  let ?s = "remove_fire sid T (update_schedule_row sid ?g s)"
  from u x n T have s': "s' = (if sch_enabled (?g x) then queue_next sid (sch_nextRunAt (?g x)) ?s else ?s)"
    by (auto simp: update_schedule_def Let_def)
  have fin: "f_at f \<le> now" if "f \<in> set (fire_queue s)" "f_done f" for f
    using inv that by (auto simp: sched_inv_def)
  have queue: "f \<in> set (fire_queue s)" if "f \<in> set (fire_queue s')" "f_done f" for f
    using that add_fire_done [of f sid _ ?s] unfolding s'
    by (auto simp: queue_next_def set_delete_where split: if_splits option.splits)
  have next_some: "sch_nextRunAt (?g x) \<noteq> None"
    using n ix(2) by (auto simp: patched_next_run_def patch_schedule_def split: option.splits if_splits sum.splits) metis
  show ?thesis
  proof (rule sched_inv_row [OF inv, where sid = sid and g = ?g])
    show "t_schedules s' = update_where (\<lambda>x. sch_id x = sid) ?g (t_schedules s)"
      "t_serverInstances s' = t_serverInstances s" by (simp_all add: s')
    show "f \<in> set (fire_queue s')" if "f \<in> set (fire_queue s)" "f_scheduleId f \<noteq> sid" for f
    proof -
      have "f \<in> set (fire_queue ?s)" using that by (simp add: set_delete_where)
      then show ?thesis using set_add_fire [of ?s] by (auto simp: s' queue_next_def split: option.split)
    qed
    show "f_at f \<le> now" if "f \<in> set (fire_queue s')" "f_done f" for f
      using fin queue that by blast
    fix y assume y: "y \<in> set (t_schedules s)" "sch_id y = sid"
    have "distinct (map sch_id (t_schedules s))" using inv by (simp add: sched_inv_def)
    with y xs have "y = x" by (metis eq_key_imp_eq_value map_of_eq_Some_iff option.inject find_key_distinct)
    have "armed s' (?g x)" if en: "sch_enabled (?g x)" and al: "always_next (sch_cronExpression (?g x))"
    proof -
      obtain t where t: "sch_nextRunAt (?g x) = Some t" using next_some by blast
      have free: "\<not> (f_scheduleId f = sid \<and> f_at f = t)" if f: "f \<in> set (fire_queue ?s)" "f_done f" for f
      proof (cases "t = T")
        case True
        with f show ?thesis by (auto simp: set_delete_where)
      next
        case False
        with t T n al no_next_empty have "now < t"
          by (auto simp: patched_next_run_def patch_schedule_def dest: next_run_later split: option.splits if_splits sum.splits)
        with f fin show ?thesis by (force simp: set_delete_where)
      qed
      from add_fire_waits [of ?s sid t] free
      have "\<exists>f \<in> set (fire_queue (add_fire sid t ?s)). f_scheduleId f = sid \<and> f_at f = t \<and> \<not> f_done f" by blast
      with en t xs show ?thesis by (auto simp: armed_def s' queue_next_def patch_schedule_def)
    qed
    with \<open>y = x\<close> xs ix next_some show "sch_id (?g y) = sid \<and> sch_executionWindowStart (?g y) = None \<and> sch_nextRunAt (?g y) \<noteq> None \<and>
      sch_serverInstanceId (?g y) = sch_serverInstanceId y \<and>
      (sch_enabled (?g y) \<and> always_next (sch_cronExpression (?g y)) \<longrightarrow> armed s' (?g y))"
      by (simp add: patch_schedule_def)
  qed
qed

lemma sched_inv_filter:
  assumes inv: "sched_inv now s" and rows: "t_schedules s' = filter P (t_schedules s)" and q: "fire_queue s' = fire_queue s"
    and servers: "\<And>x. x \<in> set (t_schedules s') \<Longrightarrow> find_server s' (sch_serverInstanceId x) \<noteq> None"
  shows "sched_inv now s'"
  using inv servers unfolding sched_inv_def rows q armed_def
  by (simp add: distinct_map_filter)

lemma sched_inv_step:
  assumes step: "sched_step ok x y" and inv: "sched_inv (fst x) (snd x)"
  shows "sched_inv (fst y) (snd y)"
  using step inv
proof cases
  case (tick now now' s)
  with inv show ?thesis by (fastforce simp: sched_inv_def)
next
  case (start now s)
  with inv show ?thesis by (simp add: sched_inv_hydrate)
next
  case (fire f s now ids fault)
  with inv show ?thesis by (simp add: sched_inv_fire [OF _ _ refl])
next
  case (create new_id s d now oid uid s' v)
  with inv show ?thesis by (simp add: sched_inv_create [of now s])
next
  case (update p s now oid sid s' v)
  with inv show ?thesis by (simp add: sched_inv_update [of now s])
next
  case (delete s oid sid s' now)
  then have s': "s' = s\<lparr>t_schedules := delete_where (\<lambda>x. sch_id x = sid) (t_schedules s)\<rparr>"
    by (auto simp: delete_schedule_def split: option.splits)
  have i: "sched_inv now s" using inv delete by simp
  have "sched_inv now s'"
    by (rule sched_inv_filter [OF i, where P = "\<lambda>x. sch_id x \<noteq> sid"])
      (use sched_invD(3) [OF i] in \<open>auto simp: s' delete_where_def find_server_def\<close>)
  with delete show ?thesis by simp
next
  case (other s s' now)
  then obtain P where "t_schedules s' = filter P (t_schedules s)" "fire_queue s' = fire_queue s"
    "\<forall>x \<in> set (t_schedules s'). find_server s' (sch_serverInstanceId x) \<noteq> None" by (auto simp: elsewhere_def)
  with other inv show ?thesis by (auto intro: sched_inv_filter [of now s])
qed

lemma sched_inv_reach:
  assumes "sched_reach ok x y" and "sched_inv (fst x) (snd x)"
  shows "sched_inv (fst y) (snd y)"
  using assms unfolding sched_reach_def
  by (induction rule: rtranclp_induct) (auto intro: sched_inv_step)

section \<open>No firing stacks work\<close>

definition plain_payload :: "json option \<Rightarrow> bool" where
  "plain_payload v \<longleftrightarrow> ''schedule_id'' \<notin> fst ` set (spread_fields v)"

definition stack_inv :: "store \<Rightarrow> bool" where
  "stack_inv s \<longleftrightarrow> (\<forall>srv ty sid. active_count s srv ty sid \<le> 1) \<and> (\<forall>x \<in> set (t_schedules s). plain_payload (sch_payload x))"

lemma scheduled_payload_id:
  assumes "plain_payload (sch_payload sc)"
  shows "jget (scheduled_payload s sc si) ''schedule_id'' = Some (JStr (sch_id sc))"
proof -
  let ?base = "server_fields s si @ [(''schedule_id'', JStr (sch_id sc))]"
  have "map_of (jspread ?base (spread_fields (sch_payload sc))) ''schedule_id'' = map_of ?base ''schedule_id''"
    by (rule map_of_jspread_other) (rule assms [unfolded plain_payload_def])
  also have "\<dots> = Some (JStr (sch_id sc))"
    by (simp add: server_fields_def jopt_def map_add_def split: option.split)
  finally show ?thesis unfolding scheduled_payload_def jget.simps .
qed

text \<open>The rows of jobs and runs a firing leaves.\<close>

lemma process_fire_jobs:
  assumes "process_schedule_fire fault ids s now sid = (s', ok)"
  shows "(t_jobs s' = t_jobs s \<and> t_runs s' = t_runs s) \<or>
    (\<exists>sc si. find_schedule s sid = Some sc \<and> sch_enabled sc \<and> find_server s (sch_serverInstanceId sc) = Some si \<and>
       \<not> exists_where (active_for s (sch_serverInstanceId sc) (scheduled_type s sc si) sid) (t_runs s) \<and>
       t_jobs s' = t_jobs s @ [scheduled_job ids now sc (scheduled_type s sc si) (scheduled_payload s sc si)] \<and>
       (t_runs s' = t_runs s \<or> t_runs s' = t_runs s @ [scheduled_run ids now (si_hostId si)]))"
proof (cases "\<exists>sc si. find_schedule s sid = Some sc \<and> sch_enabled sc \<and> find_server s (sch_serverInstanceId sc) = Some si \<and>
    \<not> exists_where (active_for s (sch_serverInstanceId sc) (scheduled_type s sc si) sid) (t_runs s)")
  case False
  with assms show ?thesis
    by (auto simp: process_schedule_fire_def Let_def split: option.splits if_splits)
next
  case True
  then obtain sc si where sc: "find_schedule s sid = Some sc" "sch_enabled sc"
    "find_server s (sch_serverInstanceId sc) = Some si"
    "\<not> exists_where (active_for s (sch_serverInstanceId sc) (scheduled_type s sc si) sid) (t_runs s)" by blast
  obtain s1 created started where st: "start_scheduled fault ids s now sc si (compute_next_run sc now) = (s1, created, started)"
    by (metis prod_cases3)
  from assms sc st have same: "t_jobs s' = t_jobs s1" "t_runs s' = t_runs s1"
    by (auto simp: process_schedule_fire_def Let_def split: if_splits bool.splits)
  have "(t_jobs s1 = t_jobs s \<and> t_runs s1 = t_runs s) \<or>
      (t_jobs s1 = t_jobs s @ [scheduled_job ids now sc (scheduled_type s sc si) (scheduled_payload s sc si)] \<and>
       (t_runs s1 = t_runs s \<or> t_runs s1 = t_runs s @ [scheduled_run ids now (si_hostId si)]))"
    using st by (auto simp: start_scheduled_def Let_def add_job_def split: if_splits)
  then show ?thesis
  proof
    assume "t_jobs s1 = t_jobs s \<and> t_runs s1 = t_runs s"
    with same show ?thesis by simp
  next
    assume "t_jobs s1 = t_jobs s @ [scheduled_job ids now sc (scheduled_type s sc si) (scheduled_payload s sc si)] \<and>
      (t_runs s1 = t_runs s \<or> t_runs s1 = t_runs s @ [scheduled_run ids now (si_hostId si)])"
    with sc same show ?thesis by (intro disjI2 exI [of _ sc] exI [of _ si]) simp
  qed
qed

lemma active_for_cong: "t_jobs s' = t_jobs s \<Longrightarrow> active_for s' = active_for s"
  by (simp add: active_for_def run_job_def find_job_def fun_eq_iff)

lemma active_count_cong: "t_jobs s' = t_jobs s \<Longrightarrow> t_runs s' = t_runs s \<Longrightarrow> active_count s' = active_count s"
  by (simp add: active_count_def active_for_cong [of s' s] fun_eq_iff)

lemma active_for_append:
  assumes "j_id j \<notin> r_jobId ` set (t_runs s)" and "r \<in> set (t_runs s)" and "t_jobs s' = t_jobs s @ [j]"
  shows "active_for s' srv ty sid r = active_for s srv ty sid r"
proof -
  have "run_job s' r = run_job s r"
    using assms by (auto simp: run_job_def find_job_def find_append split: option.splits)
  then show ?thesis by (simp add: active_for_def)
qed

lemma fire_stack_inv:
  assumes inv: "stack_inv s" and ids: "unused_job s ids" and p: "process_schedule_fire fault ids s now sid = (s', ok)"
  shows "active_count s' srv ty k \<le> 1"
proof (cases "t_jobs s' = t_jobs s \<and> t_runs s' = t_runs s")
  case True
  with active_count_cong [of s' s] inv show ?thesis by (simp add: stack_inv_def)
next
  case False
  with process_fire_jobs [OF p] obtain sc si where sc: "find_schedule s sid = Some sc"
    and free: "\<not> exists_where (active_for s (sch_serverInstanceId sc) (scheduled_type s sc si) sid) (t_runs s)"
    and jobs: "t_jobs s' = t_jobs s @ [scheduled_job ids now sc (scheduled_type s sc si) (scheduled_payload s sc si)]"
    and runs: "t_runs s' = t_runs s \<or> t_runs s' = t_runs s @ [scheduled_run ids now (si_hostId si)]" by blast
  let ?ty = "scheduled_type s sc si"
  let ?j = "scheduled_job ids now sc ?ty (scheduled_payload s sc si)"
  let ?r = "scheduled_run ids now (si_hostId si)"
  note xs = find_schedule_SomeD [OF sc]
  have jid: "j_id ?j = ji_job ids" by (simp add: scheduled_job_def)
  have old: "count_where (active_for s' srv ty k) (t_runs s) = active_count s srv ty k"
    unfolding active_count_def
    by (rule count_where_cong, rule active_for_append [OF _ _ jobs]) (use ids in \<open>auto simp: unused_job_def jid\<close>)
  have "List.find (\<lambda>j. j_id j = ji_job ids) (t_jobs s) = None"
    by (rule find_fresh) (use ids in \<open>simp add: unused_job_def fresh_job_def\<close>)
  then have "find_job s' (ji_job ids) = Some ?j"
    using jid by (simp add: find_job_def jobs find_append)
  then have new: "active_for s' srv ty k ?r \<longleftrightarrow> srv = sch_serverInstanceId sc \<and> ty = ?ty \<and> k = sid"
    using scheduled_payload_id [of sc s si] inv xs
    by (auto simp: active_for_def run_job_def scheduled_run_def scheduled_job_def stack_inv_def)
  have "active_count s (sch_serverInstanceId sc) ?ty sid = 0"
    using free by (auto simp: active_count_def count_where_def exists_where_iff filter_empty_conv)
  then have "active_count s srv ty k + (if active_for s' srv ty k ?r then 1 else 0) \<le> 1"
    using inv new by (auto simp: stack_inv_def)
  with runs old show ?thesis
    by (auto simp: active_count_def split: if_splits)
qed

lemma run_fire_rows:
  assumes "s' = run_fire fault ids s now f"
  shows "\<exists>s1 ok. process_schedule_fire fault ids (finish_fire f s) now (f_scheduleId f) = (s1, ok) \<and>
    t_jobs s' = t_jobs s1 \<and> t_runs s' = t_runs s1"
  using assms by (auto simp: run_fire_def handle_worker_failure_def split: prod.splits)

text \<open>No operation of the service changes the payload of a schedule by itself.\<close>

definition payloads :: "store \<Rightarrow> json option set" where
  "payloads s = sch_payload ` set (t_schedules s)"

lemma stack_inv_payloads:
  "stack_inv s \<longleftrightarrow> (\<forall>srv ty sid. active_count s srv ty sid \<le> 1) \<and> (\<forall>v \<in> payloads s. plain_payload v)"
  by (simp add: stack_inv_def payloads_def)

lemma payloads_update:
  assumes "\<And>x. sch_payload (g x) = sch_payload x" and rows: "t_schedules s' = update_where P g (t_schedules s)"
  shows "payloads s' = payloads s"
  unfolding payloads_def rows set_update_where image_image by (rule image_cong) (simp_all add: assms(1))

lemma payloads_hydrate: "payloads (hydrate_schedules s now) = payloads s"
proof -
  have one: "payloads (hydrate_schedule now sc s) = payloads s" for sc s
    by (cases "compute_next_run sc now")
      (auto simp: hydrate_schedule_def intro!: payloads_update [where g = "\<lambda>x. x\<lparr>sch_nextRunAt := Some _\<rparr>"])
  have "payloads (fold (hydrate_schedule now) xs s) = payloads s" for xs s
    by (induction xs arbitrary: s) (simp_all add: one)
  then show ?thesis by (simp add: hydrate_schedules_def)
qed

lemma hydrate_rows: "t_jobs (hydrate_schedules s now) = t_jobs s" "t_runs (hydrate_schedules s now) = t_runs s"
proof -
  have "t_jobs (fold (hydrate_schedule now) xs s) = t_jobs s \<and> t_runs (fold (hydrate_schedule now) xs s) = t_runs s" for xs s
    by (induction xs arbitrary: s) (simp_all add: hydrate_schedule_def split: option.split)
  then show "t_jobs (hydrate_schedules s now) = t_jobs s" "t_runs (hydrate_schedules s now) = t_runs s"
    by (simp_all add: hydrate_schedules_def)
qed

lemma payloads_fire: "payloads (run_fire fault ids s now f) = payloads s"
proof -
  obtain s1 ok where p: "process_schedule_fire fault ids (finish_fire f s) now (f_scheduleId f) = (s1, ok)" by fastforce
  have "payloads s1 = payloads (finish_fire f s)"
    using process_fire_spec [OF p]
  proof (elim disjE exE conjE)
    fix sc g
    assume "t_schedules s1 = update_where (\<lambda>x. sch_id x = f_scheduleId f) g (t_schedules (finish_fire f s))"
      "advances (compute_next_run sc now) g"
    then show ?thesis by (intro payloads_update [where g = g]) (simp_all add: advances_def)
  qed simp
  moreover have "payloads (finish_fire f s) = payloads s" by (simp add: payloads_def)
  moreover have "payloads (handle_worker_failure s1 sid) = payloads s1" for sid
    by (rule payloads_update [where g = "\<lambda>x. x\<lparr>sch_lastRunStatus := Some ''scheduler_failed'', sch_failureCount := sch_failureCount x + 1\<rparr>"])
      (simp_all add: handle_worker_failure_def)
  ultimately show ?thesis by (simp add: run_fire_def p)
qed

lemma stack_inv_step:
  assumes step: "sched_step plain_payload x y" and inv: "stack_inv (snd x)"
  shows "stack_inv (snd y)"
  using step inv
proof cases
  case (start now s)
  have "payloads (snd y) = payloads (snd x)" "active_count (snd y) = active_count (snd x)"
    using start active_count_cong [OF hydrate_rows, of s now] by (simp_all add: payloads_hydrate)
  with inv show ?thesis by (simp add: stack_inv_payloads)
next
  case (fire f s now ids fault)
  then have y: "snd y = run_fire fault ids s now f" and s: "snd x = s" by simp_all
  have "stack_inv (finish_fire f s)" "unused_job (finish_fire f s) ids"
    using inv fire active_count_cong [of "finish_fire f s" s]
    by (simp_all add: stack_inv_def unused_job_def fresh_job_def)
  note ok = this
  obtain s1 r where p: "process_schedule_fire fault ids (finish_fire f s) now (f_scheduleId f) = (s1, r)"
    and same: "t_jobs (snd y) = t_jobs s1" "t_runs (snd y) = t_runs s1" using run_fire_rows [OF y] by blast
  have "active_count (snd y) srv ty k \<le> 1" for srv ty k
    unfolding active_count_cong [OF same] by (rule fire_stack_inv [OF ok p])
  moreover have "payloads (snd y) = payloads (snd x)" by (simp add: y s payloads_fire)
  ultimately show ?thesis using inv by (simp add: stack_inv_payloads)
next
  case (create new_id s d now oid uid s' v)
  from create_schedule_InrD [OF create(6)] obtain t where s': "s' = (let sc = new_schedule new_id now oid uid d t;
      s1 = s\<lparr>t_schedules := t_schedules s @ [sc]\<rparr> in if sch_enabled sc then add_fire new_id t s1 else s1)" by blast
  have "active_count s' = active_count s" by (rule active_count_cong) (simp_all add: s' Let_def)
  moreover have "t_schedules s' = t_schedules s @ [new_schedule new_id now oid uid d t]" by (simp add: s' Let_def)
  ultimately show ?thesis using create inv by (simp add: stack_inv_def) (simp add: new_schedule_def)
next
  case (update p s now oid sid s' v)
  then obtain n where rows: "t_schedules s' = update_where (\<lambda>x. sch_id x = sid) (patch_schedule p n) (t_schedules s)"
    and same: "t_jobs s' = t_jobs s" "t_runs s' = t_runs s"
    by (auto simp: update_schedule_def Let_def split: sum.splits option.splits if_splits)
  note count = active_count_cong [OF same]
  have "plain_payload (sch_payload z)" if z: "z \<in> set (t_schedules s')" for z
  proof -
    from z obtain x0 where "x0 \<in> set (t_schedules s)" "sch_payload z = sch_payload x0 \<or> (\<exists>v. sp_payload p = Some v \<and> sch_payload z = Some v)"
      by (auto simp: rows set_update_where patch_schedule_def split: option.splits if_splits)
    with inv update show ?thesis by (auto simp: stack_inv_def)
  qed
  with count inv update show ?thesis by (simp add: stack_inv_def)
next
  case (delete s oid sid s' now)
  then have s': "s' = s\<lparr>t_schedules := delete_where (\<lambda>x. sch_id x = sid) (t_schedules s)\<rparr>"
    by (auto simp: delete_schedule_def split: option.splits)
  have "active_count s' = active_count s" by (rule active_count_cong) (simp_all add: s')
  with delete inv s' show ?thesis by (auto simp: stack_inv_def set_delete_where)
next
  case (other s s' now)
  then obtain P where "t_schedules s' = filter P (t_schedules s)"
    and le: "\<And>srv ty sid. active_count s' srv ty sid \<le> active_count s srv ty sid" by (auto simp: elsewhere_def)
  with other inv show ?thesis by (auto simp: stack_inv_def intro: order_trans [OF le])
qed simp

text \<open>A firing that nothing hinders.\<close>

lemma fire_started:
  assumes "find_schedule s sid = Some sc" and "sch_enabled sc" and "find_server s (sch_serverInstanceId sc) = Some si"
    and "\<not> exists_where (active_for s (sch_serverInstanceId sc) (scheduled_type s sc si) sid) (t_runs s)"
    and "ji_run ids \<notin> q_jobRunId ` set (org_queues s (sch_orgId sc))"
    and "process_schedule_fire NoFault ids s now sid = (s', ok)"
  shows "ok \<and> t_jobs s' = t_jobs s @ [scheduled_job ids now sc (scheduled_type s sc si) (scheduled_payload s sc si)] \<and>
    t_runs s' = t_runs s @ [scheduled_run ids now (si_hostId si)] \<and>
    org_queues s' (sch_orgId sc) = org_queues s (sch_orgId sc) @
      [scheduled_queue_job ids (si_hostId si) sc (scheduled_type s sc si) (scheduled_payload s sc si)] \<and>
    t_schedules s' = update_where (\<lambda>x. sch_id x = sid) (succeeded now (compute_next_run sc now) (ji_job ids)) (t_schedules s) \<and>
    jget (scheduled_payload s sc si) ''schedule_id'' \<noteq> None \<and>
    (game_slug s (si_gameTypeId si) = ''7dtd'' \<longrightarrow> scheduled_type s sc si \<noteq> ''SERVER_RESTART'')"
proof -
  note xs = find_schedule_SomeD [OF assms(1)]
  have q: "org_queues (queue_next i n x) = org_queues x" "org_queues (update_schedule_row i g x) = org_queues x" for i n g x
    by (simp_all add: queue_next_def add_fire_def update_schedule_row_def split: option.split)
  have new: "\<not> exists_where (\<lambda>x. q_jobRunId x = ji_run ids) (org_queues s (sch_orgId sc))"
    using assms(5) by (force simp: exists_where_iff image_iff)
  have "js_upper ''SERVER_RESTART'' = ''SERVER_RESTART''" by code_simp
  then have ty: "game_slug s (si_gameTypeId si) = ''7dtd'' \<longrightarrow> scheduled_type s sc si \<noteq> ''SERVER_RESTART''"
    by (auto simp: scheduled_type_def)
  have keep: "map_of base k \<noteq> None \<Longrightarrow> map_of (jspread base kvs) k \<noteq> None" for base kvs and k :: string
    by (induction base kvs rule: jspread.induct) (auto simp: map_of_jput)
  have "jget (scheduled_payload s sc si) ''schedule_id'' \<noteq> None"
    unfolding scheduled_payload_def jget.simps by (rule keep) (simp add: map_add_def split: option.split)
  let ?next = "compute_next_run sc now" and ?p = "scheduled_payload s sc si" and ?ty = "scheduled_type s sc si"
  let ?s = "s\<lparr>t_jobs := t_jobs s @ [scheduled_job ids now sc ?ty ?p], t_runs := t_runs s @ [scheduled_run ids now (si_hostId si)]\<rparr>"
  have s': "s' = queue_next sid ?next (update_schedule_row sid (succeeded now ?next (ji_job ids))
      (add_job ?s (sch_orgId sc) (scheduled_queue_job ids (si_hostId si) sc ?ty ?p)))" and ok
    using assms(6) xs by (simp_all add: process_schedule_fire_def assms(1-4) start_scheduled_def Let_def)
  have "org_queues s' (sch_orgId sc) = org_queues s (sch_orgId sc) @ [scheduled_queue_job ids (si_hostId si) sc ?ty ?p]"
    using new by (simp add: s' q add_job_def enqueue_def) (simp add: scheduled_queue_job_def)
  with ty \<open>ok\<close> \<open>jget ?p ''schedule_id'' \<noteq> None\<close> show ?thesis by (simp add: s')
qed

text \<open>The expression that matches every minute, for the witnesses.\<close>

lemma every_minute: "get_next_cron_run ''* * * * *'' t = Inr (next_minute t)"
proof -
  let ?c = "\<lparr>cs_minutes = None, cs_hours = None, cs_doms = None, cs_months = None, cs_dows = None\<rparr>"
  have "parse_cron ''* * * * *'' = Inr ?c" by code_simp
  moreover have "cron_matches ?c u" for u by (simp add: cron_matches_def admits_def)
  moreover have "max_iter = Suc (max_iter - 1)" by (simp add: max_iter_def)
  then have "cron_search max_iter ?c u = Some u" if "cron_matches ?c u" for u
    using that by (metis cron_search.simps(2))
  ultimately show ?thesis by (simp add: get_next_cron_run_def)
qed

section \<open>Properties\<close>





text \<open>
  A schedule reaches into another organisation: the endpoint does not compare the server's
  organisation with the caller's.  A member of any organisation can schedule a job on any
  server whose id they know; its first firing files a job under the caller's organisation
  whose payload carries the server's telnet password, which the caller's job list shows.
\<close>

theorem schedule_reads_foreign_server:
  assumes "find_server s (sb_serverInstanceId d) = Some si" and "si_orgId si \<noteq> oid" and "si_telnetPassword si = Some pw"
    and "get_next_cron_run (sb_cronExpression d) now = Inr t" and "sb_payload d = None" and "sb_enabled d = None"
    and "new_id \<notin> sch_id ` set (t_schedules s)"
    and "\<And>ty. \<not> exists_where (active_for s (sb_serverInstanceId d) ty new_id) (t_runs s)"
    and "ji_run ids \<notin> q_jobRunId ` set (org_queues s oid)"
  shows "\<exists>s' v s'' j. create_schedule new_id s now oid uid d = Inr (s', v) \<and>
    process_schedule_fire NoFault ids s' t new_id = (s'', True) \<and>
    j \<in> set (t_jobs s'') \<and> j_orgId j = oid \<and> j_serverInstanceId j = Some (sb_serverInstanceId d) \<and>
    (\<exists>p. j_payload j = Some p \<and> jget p ''telnet_password'' = Some (JStr pw))"
proof -
  let ?sc = "new_schedule new_id now oid uid d t"
  let ?s = "add_fire new_id t (s\<lparr>t_schedules := t_schedules s @ [?sc]\<rparr>)"
  have create: "create_schedule new_id s now oid uid d = Inr (?s, schedule_dto ?sc)"
    using assms(1,4,6) by (simp add: create_schedule_def Let_def) (simp add: new_schedule_def)
  have "List.find (\<lambda>x. sch_id x = new_id) (t_schedules s) = None" by (rule find_fresh [OF assms(7)])
  then have row: "find_schedule ?s new_id = Some ?sc"
    by (simp add: find_schedule_def find_append) (simp add: new_schedule_def)
  have srv: "sch_serverInstanceId ?sc = sb_serverInstanceId d" "sch_orgId ?sc = oid" "sch_enabled ?sc" "sch_payload ?sc = None"
    using assms(5,6) by (simp_all add: new_schedule_def)
  have si: "find_server ?s (sch_serverInstanceId ?sc) = Some si" using assms(1) by (simp add: srv find_server_def)
  have act: "active_for ?s = active_for s" by (rule active_for_cong) simp
  have q: "org_queues ?s = org_queues s" by (simp add: add_fire_def)
  obtain s'' ok where fire: "process_schedule_fire NoFault ids ?s t new_id = (s'', ok)" by fastforce
  have free: "\<not> exists_where (active_for ?s (sch_serverInstanceId ?sc) (scheduled_type ?s ?sc si) new_id) (t_runs ?s)"
    unfolding act srv using assms(8) by simp
  from fire_started [OF row srv(3) si free _ fire] q srv(2) assms(9)
  have ok: ok and jobs: "t_jobs s'' = t_jobs s @ [scheduled_job ids t ?sc (scheduled_type ?s ?sc si) (scheduled_payload ?s ?sc si)]"
    by simp_all
  have "jget (scheduled_payload ?s ?sc si) ''telnet_password'' = Some (JStr pw)"
    using assms(3) by (simp add: scheduled_payload_def srv spread_fields_def server_fields_def jopt_def map_add_def split: option.split)
  with create fire ok jobs srv show ?thesis
    by (intro exI [of _ ?s] exI [of _ "schedule_dto ?sc"] exI [of _ s'']
        exI [of _ "scheduled_job ids t ?sc (scheduled_type ?s ?sc si) (scheduled_payload ?s ?sc si)"])
      (simp add: scheduled_job_def)
qed

text \<open>
  Enabling a schedule again fires it at once: the row still announces the time at which it
  was to run when it was disabled, and the update queues a firing at that time, however long
  ago it was.
\<close>

theorem reenabling_fires_at_once:
  assumes "find_schedule_in_org s sid oid = Some x" and "\<not> sch_enabled x" and "sch_nextRunAt x = Some T" and "T \<le> now"
  shows "\<exists>s' v. update_schedule s now oid sid
      \<lparr>sp_enabled = Some True, sp_name = None, sp_cronExpression = None, sp_jobType = None, sp_payload = None\<rparr> = Inr (s', v) \<and>
    \<lparr>f_scheduleId = sid, f_at = T, f_done = False\<rparr> \<in> set (fire_queue s')"
proof -
  let ?p = "\<lparr>sp_enabled = Some True, sp_name = None, sp_cronExpression = None, sp_jobType = None, sp_payload = None\<rparr>"
  let ?s = "remove_fire sid T (update_schedule_row sid (patch_schedule ?p (Some T)) s)"
  have "update_schedule s now oid sid ?p = Inr (add_fire sid T ?s, schedule_dto (patch_schedule ?p (Some T) x))"
    using assms by (simp add: update_schedule_def patched_next_run_def patch_schedule_def [of _ _ x] queue_next_def Let_def)
  moreover have "\<lparr>f_scheduleId = sid, f_at = T, f_done = False\<rparr> \<in> set (fire_queue (add_fire sid T ?s))"
    by (auto simp: add_fire_def exists_where_iff set_delete_where)
  ultimately show ?thesis by blast
qed

section \<open>Witnesses\<close>

definition sample_body :: schedule_body where
  "sample_body = \<lparr>sb_name = ''n'', sb_serverInstanceId = ''s'', sb_cronExpression = ''* * * * *'',
     sb_jobType = ''SERVER_RESTART'', sb_payload = None, sb_enabled = None\<rparr>"

definition sample_schedule :: schedule where
  "sample_schedule = new_schedule ''c'' 0 ''o'' ''u'' sample_body 60000"

definition sample_scheduled :: store where
  "sample_scheduled = add_fire ''c'' 60000 (sample_world\<lparr>t_schedules := [sample_schedule]\<rparr>)"

lemma sample_minute: "get_next_cron_run (sb_cronExpression sample_body) 0 = Inr 60000"
  by (simp add: sample_body_def every_minute next_minute_def ms_minute_def)

lemma sample_always: "always_next ''* * * * *''"
  by (simp add: always_next_def every_minute)

lemma sample_server_found: "find_server sample_world ''s'' = Some sample_server"
  "find_server sample_scheduled ''s'' = Some sample_server"
  by (simp_all add: find_server_def sample_scheduled_def) (simp_all add: sample_eval)

lemma sample_scheduled_rows:
  "t_schedules sample_scheduled = [sample_schedule]" "t_runs sample_scheduled = []" "t_jobs sample_scheduled = []"
  "fire_queue sample_scheduled = [\<lparr>f_scheduleId = ''c'', f_at = 60000, f_done = False\<rparr>]"
  "org_queues sample_scheduled = (\<lambda>_. [])"
  by (simp_all add: sample_scheduled_def) (simp_all add: add_fire_def exists_where_def sample_eval)

lemma sample_schedule_fields:
  "sch_id sample_schedule = ''c''" "sch_enabled sample_schedule" "sch_serverInstanceId sample_schedule = ''s''"
  "sch_cronExpression sample_schedule = ''* * * * *''" "sch_payload sample_schedule = None" "sch_orgId sample_schedule = ''o''"
  "sch_nextRunAt sample_schedule = Some 60000"
  by (simp_all add: sample_schedule_def new_schedule_def sample_body_def)

lemma sample_found: "find_schedule sample_scheduled ''c'' = Some sample_schedule"
  by (simp add: find_schedule_def sample_scheduled_rows sample_schedule_fields)

lemma sample_idle: "\<not> exists_where (active_for s srv ty sid) (t_runs sample_scheduled)"
  by (simp add: sample_scheduled_rows exists_where_def)

lemma sample_unused: "unused_job sample_scheduled \<lparr>ji_job = ''j'', ji_run = ''r''\<rparr>"
  by (simp add: unused_job_def fresh_job_def sample_scheduled_rows)

lemma sample_created: "sched_reach plain_payload (0, sample_world) (60000, sample_scheduled)"
proof -
  have "create_schedule ''c'' sample_world 0 ''o'' ''u'' sample_body = Inr (sample_scheduled, schedule_dto sample_schedule)"
    using sample_minute sample_server_found(1)
    by (simp add: create_schedule_def sample_schedule_def Let_def)
      (simp add: sample_body_def new_schedule_def sample_scheduled_def sample_schedule_def sample_eval)
  then have "sched_step plain_payload (0, sample_world) (0, sample_scheduled)"
    by (rule sched_step.create [rotated 3])
      (simp_all add: sample_eval plain_payload_def sample_body_def spread_fields_def)
  moreover have "sched_step plain_payload (0, sample_scheduled) (60000, sample_scheduled)" by (rule sched_step.tick) simp
  ultimately show ?thesis unfolding sched_reach_def
    by (rule converse_rtranclp_into_rtranclp [OF _ r_into_rtranclp])
qed





theorem schedule_reads_foreign_server_witness:
  "\<exists>s' v s'' j. create_schedule ''c'' (sample_world\<lparr>t_serverInstances := [sample_server\<lparr>si_telnetPassword := Some ''pw''\<rparr>]\<rparr>)
      0 ''evil'' ''m'' sample_body = Inr (s', v) \<and>
    process_schedule_fire NoFault \<lparr>ji_job = ''j'', ji_run = ''r''\<rparr> s' 60000 ''c'' = (s'', True) \<and>
    j \<in> set (t_jobs s'') \<and> j_orgId j = ''evil'' \<and>
    (\<exists>p. j_payload j = Some p \<and> jget p ''telnet_password'' = Some (JStr ''pw''))"
proof -
  let ?s = "sample_world\<lparr>t_serverInstances := [sample_server\<lparr>si_telnetPassword := Some ''pw''\<rparr>]\<rparr>"
  have "find_server ?s (sb_serverInstanceId sample_body) = Some (sample_server\<lparr>si_telnetPassword := Some ''pw''\<rparr>)"
    by (simp add: find_server_def sample_body_def sample_server_def)
  from schedule_reads_foreign_server [OF this _ _ sample_minute, of "''evil''" "''pw''" "''c''" "\<lparr>ji_job = ''j'', ji_run = ''r''\<rparr>" "''m''"]
  have "\<exists>s' v s'' j. create_schedule ''c'' ?s 0 ''evil'' ''m'' sample_body = Inr (s', v) \<and>
      process_schedule_fire NoFault \<lparr>ji_job = ''j'', ji_run = ''r''\<rparr> s' 60000 ''c'' = (s'', True) \<and>
      j \<in> set (t_jobs s'') \<and> j_orgId j = ''evil'' \<and> j_serverInstanceId j = Some (sb_serverInstanceId sample_body) \<and>
      (\<exists>p. j_payload j = Some p \<and> jget p ''telnet_password'' = Some (JStr ''pw''))"
    by (simp add: sample_body_def sample_eval exists_where_def)
  then show ?thesis by blast
qed

theorem reenabling_fires_at_once_witness:
  "\<exists>s' v. update_schedule (sample_world\<lparr>t_schedules := [sample_schedule\<lparr>sch_enabled := False\<rparr>]\<rparr>) 900000 ''o'' ''c''
      \<lparr>sp_enabled = Some True, sp_name = None, sp_cronExpression = None, sp_jobType = None, sp_payload = None\<rparr> = Inr (s', v) \<and>
    \<lparr>f_scheduleId = ''c'', f_at = 60000, f_done = False\<rparr> \<in> set (fire_queue s')"
  by (rule reenabling_fires_at_once [where x = "sample_schedule\<lparr>sch_enabled := False\<rparr>"])
    (simp_all add: find_schedule_in_org_def sample_schedule_fields)

end
