(* ===== verification/Hosts.thy ===== *)
theory Hosts
  imports JsValues Throttle Queue
begin

text \<open>
  \<open>hosts/hosts.service.ts\<close>, \<open>hosts/agent-hosts.controller.ts\<close> and
  \<open>health-monitor/health-monitor.service.ts\<close>: the hosts of an organisation, the agents'
  heartbeats with the health samples taken from them, the sweep of silent hosts, and the
  health dashboard.  Measurements are integers, and the typographic apostrophe of one message
  is a plain one.  The service's memory is the time of the
  last sample of each host.
\<close>

section \<open>Views\<close>

record host_response =
  hr_id :: id
  hr_orgId :: id
  hr_name :: string
  hr_status :: string
  hr_lastHeartbeatAt :: "time option"
  hr_agentVersion :: "string option"
  hr_agentKeyVersion :: int
  hr_lastMetrics :: "json option"
  hr_labels :: "json option"
  hr_serverInstanceCount :: nat
  hr_serverInstances :: "(id \<times> string) list"
  hr_createdAt :: time

text \<open>The servers are None when the query did not include them.\<close>

definition host_to_response :: "host \<Rightarrow> server_instance list option \<Rightarrow> host_response" where
  "host_to_response h servers = \<lparr>hr_id = h_id h, hr_orgId = h_orgId h, hr_name = h_name h,
     hr_status = (case h_status h of None \<Rightarrow> ''unknown'' | Some x \<Rightarrow> x),
     hr_lastHeartbeatAt = h_lastHeartbeatAt h, hr_agentVersion = h_agentVersion h,
     hr_agentKeyVersion = h_agentKeyVersion h, hr_lastMetrics = h_lastMetrics h, hr_labels = h_labels h,
     hr_serverInstanceCount = (case servers of None \<Rightarrow> 0 | Some xs \<Rightarrow> length xs),
     hr_serverInstances = (case servers of None \<Rightarrow> [] | Some xs \<Rightarrow> map (\<lambda>x. (si_id x, si_name x)) xs),
     hr_createdAt = h_createdAt h\<rparr>"

definition host_servers :: "store \<Rightarrow> id \<Rightarrow> server_instance list" where
  "host_servers s hostId = filter (\<lambda>x. si_hostId x = hostId) (t_serverInstances s)"

definition find_all_hosts :: "store \<Rightarrow> id \<Rightarrow> host_response list" where
  "find_all_hosts s orgId = map (\<lambda>h. host_to_response h (Some (host_servers s (h_id h))))
     (rev (filter (\<lambda>h. h_orgId h = orgId) (t_hosts s)))"

definition find_one_host :: "store \<Rightarrow> id \<Rightarrow> id \<Rightarrow> host_response result" where
  "find_one_host s orgId hostId = (case find_host_in_org s hostId orgId of
     None \<Rightarrow> Inl (NotFoundException ''Host not found'')
   | Some h \<Rightarrow> Inr (host_to_response h (Some (host_servers s hostId))))"

section \<open>Renaming and removing\<close>

definition update_host :: "id \<Rightarrow> (host \<Rightarrow> host) \<Rightarrow> store \<Rightarrow> store" where
  "update_host hid f s = s\<lparr>t_hosts := update_where (\<lambda>h. h_id h = hid) f (t_hosts s)\<rparr>"

definition rename_host :: "store \<Rightarrow> id \<Rightarrow> id \<Rightarrow> string \<Rightarrow> id \<Rightarrow> (store \<times> host_response) result" where
  "rename_host s orgId hostId name userId =
    (let clean = js_trim name in
     if clean = [] \<or> 128 < length clean then Inl (BadRequestException ''Host name must contain 1-128 characters'')
     else (case find_host_in_org s hostId orgId of
       None \<Rightarrow> Inl (NotFoundException ''Host not found'')
     | Some h \<Rightarrow> Inr
         (add_audit \<lparr>al_orgId = orgId, al_actorId = Some userId, al_action = ''rename'',
            al_resourceType = ''host'', al_resourceId = hostId,
            al_details = [(''from'', JStr (h_name h)), (''to'', JStr clean)], al_ip = None\<rparr>
            (update_host hostId (\<lambda>x. x\<lparr>h_name := clean\<rparr>) s),
          host_to_response (h\<lparr>h_name := clean\<rparr>) None)))"

text \<open>
  Deleting a host deletes its health samples with it and clears the reference of the token
  it was paired with (\<open>onDelete\<close> in the schema).
\<close>

definition delete_host_row :: "id \<Rightarrow> store \<Rightarrow> store" where
  "delete_host_row hostId s = s\<lparr>t_hosts := delete_where (\<lambda>h. h_id h = hostId) (t_hosts s),
     t_healthSamples := delete_where (\<lambda>x. hs_hostId x = hostId) (t_healthSamples s),
     t_pairingTokens := update_where (\<lambda>t. pt_usedByHostId t = Some hostId) (\<lambda>t. t\<lparr>pt_usedByHostId := None\<rparr>)
       (t_pairingTokens s)\<rparr>"

definition remove_host :: "store \<Rightarrow> id \<Rightarrow> id \<Rightarrow> id \<Rightarrow> store result" where
  "remove_host s orgId hostId userId = (case find_host_in_org s hostId orgId of
     None \<Rightarrow> Inl (NotFoundException ''Host not found'')
   | Some h \<Rightarrow>
       if host_servers s hostId \<noteq> []
       then Inl (BadRequestException ''Unregister this host's server instances before deleting the host'')
       else Inr (delete_host_row hostId
         (add_audit \<lparr>al_orgId = orgId, al_actorId = Some userId, al_action = ''delete'',
            al_resourceType = ''host'', al_resourceId = hostId, al_details = [(''name'', JStr (h_name h))], al_ip = None\<rparr>
            (s\<lparr>t_runs := delete_where (\<lambda>r. r_hostId r = hostId) (t_runs s)\<rparr>))))"

section \<open>Heartbeats\<close>

record heartbeat_metrics =
  hm_cpu :: "int option"
  hm_ramUsedMb :: "int option"
  hm_ramTotalMb :: "int option"
  hm_diskUsedGb :: "int option"
  hm_latencyMs :: "int option"
  hm_gameReachable :: "bool option"
  hm_agentVersion :: "string option"

definition metrics_data :: "heartbeat_metrics \<Rightarrow> (string \<times> json) list" where
  "metrics_data m =
     jopt ''cpu'' (map_option JNum (hm_cpu m)) @
     jopt ''ramUsedMb'' (map_option JNum (hm_ramUsedMb m)) @
     jopt ''ramTotalMb'' (map_option JNum (hm_ramTotalMb m)) @
     jopt ''diskUsedGb'' (map_option JNum (hm_diskUsedGb m)) @
     jopt ''latencyMs'' (map_option JNum (hm_latencyMs m)) @
     jopt ''gameReachable'' (map_option JBool (hm_gameReachable m))"

definition or_zero :: "int option \<Rightarrow> int" where
  "or_zero v = (case v of None \<Rightarrow> 0 | Some n \<Rightarrow> n)"

definition health_sample_of :: "time \<Rightarrow> id \<Rightarrow> id \<Rightarrow> heartbeat_metrics \<Rightarrow> health_sample" where
  "health_sample_of now orgId hostId m = \<lparr>hs_orgId = orgId, hs_hostId = hostId,
     hs_cpuPercent = or_zero (hm_cpu m), hs_ramUsedMb = or_zero (hm_ramUsedMb m),
     hs_ramTotalMb = or_zero (hm_ramTotalMb m), hs_diskUsedGb = or_zero (hm_diskUsedGb m),
     hs_latencyMs = or_zero (hm_latencyMs m),
     hs_gameReachable = (case hm_gameReachable m of None \<Rightarrow> False | Some b \<Rightarrow> b), hs_createdAt = now\<rparr>"

text \<open>\<open>now - (lastHealthSample.get(hostId) ?? 0) >= interval * 1000\<close>, and the update of the map.\<close>

definition sample_due :: "int \<Rightarrow> id \<Rightarrow> time \<Rightarrow> (id \<times> time) list \<Rightarrow> bool" where
  "sample_due intervalSec hostId now mem \<longleftrightarrow>
     intervalSec * 1000 \<le> now - (case map_of mem hostId of None \<Rightarrow> 0 | Some t \<Rightarrow> t)"

definition admit_sample :: "int \<Rightarrow> id \<Rightarrow> time \<Rightarrow> (id \<times> time) list \<Rightarrow> (id \<times> time) list \<times> bool" where
  "admit_sample intervalSec hostId now mem =
    (if sample_due intervalSec hostId now mem then (jput mem hostId now, True) else (mem, False))"

definition beat :: "time \<Rightarrow> heartbeat_metrics option \<Rightarrow> host \<Rightarrow> host" where
  "beat now metrics h = h\<lparr>h_lastHeartbeatAt := Some now, h_status := Some ''online'',
     h_lastMetrics := (case metrics of None \<Rightarrow> h_lastMetrics h
       | Some m \<Rightarrow> if metrics_data m = [] then h_lastMetrics h else Some (JObj (metrics_data m))),
     h_agentVersion := (case metrics of None \<Rightarrow> h_agentVersion h
       | Some m \<Rightarrow> (case hm_agentVersion m of None \<Rightarrow> h_agentVersion h | Some v \<Rightarrow> Some v))\<rparr>"

definition record_heartbeat ::
  "(id \<times> time) list \<Rightarrow> store \<Rightarrow> time \<Rightarrow> id \<Rightarrow> id \<Rightarrow> heartbeat_metrics option \<Rightarrow>
   (((id \<times> time) list \<times> store) \<times> bool) result" where
  "record_heartbeat mem s now hostId orgId metrics = (case find_host_in_org s hostId orgId of
     None \<Rightarrow> Inl (NotFoundException ''Host not found or does not belong to this org'')
   | Some existing \<Rightarrow>
       let wasOffline = (h_status existing = Some ''offline'' \<or> h_status existing = Some ''unknown'');
           s1 = update_host hostId (beat now metrics) s
       in Inr (case (metrics, find_org s1 orgId) of
         (Some m, Some o') \<Rightarrow> (case admit_sample (org_healthIntervalSec o') hostId now mem of
             (mem', True) \<Rightarrow> ((mem', s1\<lparr>t_healthSamples := t_healthSamples s1 @ [health_sample_of now orgId hostId m]\<rparr>), wasOffline)
           | (mem', False) \<Rightarrow> ((mem', s1), wasOffline))
       | _ \<Rightarrow> ((mem, s1), wasOffline)))"

definition record_heartbeat_by_host ::
  "(id \<times> time) list \<Rightarrow> store \<Rightarrow> time \<Rightarrow> id \<Rightarrow> heartbeat_metrics option \<Rightarrow> ((id \<times> time) list \<times> store) result" where
  "record_heartbeat_by_host mem s now hostId metrics = (case find_host s hostId of
     None \<Rightarrow> Inl (NotFoundException ''Host not found'')
   | Some h \<Rightarrow> (case record_heartbeat mem s now hostId (h_orgId h) metrics of
       Inl e \<Rightarrow> Inl e | Inr (r, wasOffline) \<Rightarrow> Inr r))"

text \<open>A host the sweep takes offline: it claims to be up (or unknown) and has been silent.\<close>

definition silent :: "time \<Rightarrow> host \<Rightarrow> bool" where
  "silent cutoff h \<longleftrightarrow> (h_status h = Some ''online'' \<or> h_status h = Some ''unknown'') \<and>
     (case h_lastHeartbeatAt h of None \<Rightarrow> True | Some t \<Rightarrow> t < cutoff)"

definition sweep_offline_hosts :: "store \<Rightarrow> time \<Rightarrow> int \<Rightarrow> store \<times> host list" where
  "sweep_offline_hosts s now thresholdMs =
    (let stale = filter (silent (now - thresholdMs)) (t_hosts s) in
     if stale = [] then (s, [])
     else (s\<lparr>t_hosts := update_where (\<lambda>h. h_id h \<in> h_id ` set stale) (\<lambda>h. h\<lparr>h_status := Some ''offline''\<rparr>) (t_hosts s)\<rparr>,
           stale))"

section \<open>The health dashboard\<close>

record health_view =
  hv_hosts :: "host list"
  hv_samples :: "health_sample list"
  hv_intervalSec :: int

definition health_dashboard :: "store \<Rightarrow> time \<Rightarrow> id \<Rightarrow> int option \<Rightarrow> health_view" where
  "health_dashboard s now orgId minutes =
    (let m = (case minutes of None \<Rightarrow> 60 | Some x \<Rightarrow> x);
         since = now - min (max m 5) 1440 * 60000
     in \<lparr>hv_hosts = filter (\<lambda>h. h_orgId h = orgId) (t_hosts s),
         hv_samples = take 5000 (filter (\<lambda>x. hs_orgId x = orgId \<and> since \<le> hs_createdAt x) (t_healthSamples s)),
         hv_intervalSec = (case find_org s orgId of None \<Rightarrow> 10 | Some o' \<Rightarrow> org_healthIntervalSec o')\<rparr>)"

definition update_interval :: "store \<Rightarrow> id \<Rightarrow> int option \<Rightarrow> (store \<times> int) result" where
  "update_interval s orgId body =
    (let intervalSec = (case body of None \<Rightarrow> 10 | Some x \<Rightarrow> x) in
     if intervalSec \<notin> set [5, 10, 30, 60] then Inl (BadRequestException ''Interval must be 5, 10, 30, or 60 seconds'')
     else if find_org s orgId = None then Inl (NotFoundException ''Organization not found'')
     else Inr (s\<lparr>t_orgs := update_where (\<lambda>o'. org_id o' = orgId) (\<lambda>o'. o'\<lparr>org_healthIntervalSec := intervalSec\<rparr>) (t_orgs s)\<rparr>,
               intervalSec))"

text \<open>The sweep by ids changes the rows the query selected.\<close>

lemma offline_sweep_rows:
  assumes "distinct (map h_id (t_hosts s))" and "sweep_offline_hosts s now thresholdMs = (s', gone)"
  shows "t_hosts s' = update_where (silent (now - thresholdMs)) (\<lambda>h. h\<lparr>h_status := Some ''offline''\<rparr>) (t_hosts s) \<and>
    gone = filter (silent (now - thresholdMs)) (t_hosts s)"
proof -
  let ?P = "silent (now - thresholdMs)"
  have same: "h_id h \<in> h_id ` set (filter ?P (t_hosts s)) \<longleftrightarrow> ?P h" if h: "h \<in> set (t_hosts s)" for h
  proof -
    have "?P h" if "x \<in> set (t_hosts s)" "?P x" "h_id h = h_id x" for x
      using find_key_distinct [OF assms(1) h refl] find_key_distinct [OF assms(1) that(1) refl] that(2,3)
      by (metis option.inject)
    with h show ?thesis by auto
  qed
  show ?thesis
  proof (cases "filter ?P (t_hosts s) = []")
    case True
    moreover from this have "update_where ?P (\<lambda>h. h\<lparr>h_status := Some ''offline''\<rparr>) (t_hosts s) = t_hosts s"
      by (intro update_where_none) (auto simp: filter_empty_conv)
    ultimately show ?thesis using assms(2) by (simp add: sweep_offline_hosts_def)
  next
    case False
    have "update_where (\<lambda>h. h_id h \<in> h_id ` set (filter ?P (t_hosts s))) f (t_hosts s) = update_where ?P f (t_hosts s)" for f
      unfolding update_where_def using same by (intro map_cong) auto
    with False assms(2) show ?thesis by (auto simp: sweep_offline_hosts_def Let_def)
  qed
qed

section \<open>Health samples are spaced\<close>

interpretation sampling: throttle "admit_sample iv" "\<lambda>k. k" "\<lambda>k t mem. \<not> sample_due iv k t mem" "iv * 1000" for iv :: int
  by unfold_locales (auto simp: admit_sample_def sample_due_def map_of_jput split: option.splits if_splits)

section \<open>Properties\<close>

text \<open>
  Health samples of a host keep the interval the organisation chose: however fast the
  heartbeats come, two samples of one host are at least that many seconds apart.
\<close>

theorem health_samples_spaced:
  assumes "ordered_from t0 beats"
  shows "spaced (iv * 1000) (run_throttle (admit_sample iv) (\<lambda>k. k) beats mem)"
  by (rule sampling.run_spaced [OF assms])

theorem health_samples_spaced_witness:
  "spaced 10000 (run_throttle (admit_sample 10) (\<lambda>k. k) [(''h'', 20000), (''h'', 25000), (''h'', 31000)] [])"
  using health_samples_spaced [of 20000 "[(''h'', 20000), (''h'', 25000), (''h'', 31000)]" 10] by simp

text \<open>
  The sweep takes exactly the silent hosts offline: those that count as online or unknown
  and have sent nothing within the threshold (or never); it reports exactly them, and
  changes nothing else about any host.
\<close>

theorem offline_sweep_exact:
  assumes "distinct (map h_id (t_hosts s))" and "sweep_offline_hosts s now thresholdMs = (s', gone)"
  shows "t_hosts s' = map (\<lambda>h. if silent (now - thresholdMs) h then h\<lparr>h_status := Some ''offline''\<rparr> else h) (t_hosts s) \<and>
    gone = filter (silent (now - thresholdMs)) (t_hosts s) \<and>
    (\<forall>h \<in> set (t_hosts s'). silent (now - thresholdMs) h = False)"
  using offline_sweep_rows [OF assms] by (auto simp: update_where_def silent_def)

definition sample_hosts :: store where
  "sample_hosts = empty_store\<lparr>t_hosts := [
     \<lparr>h_id = ''a'', h_orgId = ''o'', h_name = ''up'', h_lastHeartbeatAt = Some 95000, h_agentVersion = None,
      h_agentKeyVersion = 1, h_status = Some ''online'', h_lastMetrics = None, h_labels = None, h_createdAt = 0\<rparr>,
     \<lparr>h_id = ''b'', h_orgId = ''o'', h_name = ''gone'', h_lastHeartbeatAt = Some 10000, h_agentVersion = None,
      h_agentKeyVersion = 1, h_status = Some ''online'', h_lastMetrics = None, h_labels = None, h_createdAt = 0\<rparr>]\<rparr>"

theorem offline_sweep_exact_witness:
  "map h_status (t_hosts (fst (sweep_offline_hosts sample_hosts 100000 60000))) = [Some ''online'', Some ''offline'']"
proof -
  have "distinct (map h_id (t_hosts sample_hosts))" by (simp add: sample_hosts_def)
  from offline_sweep_exact [OF this prod.collapse [symmetric], of 100000 60000] show ?thesis
    by (simp add: sample_hosts_def silent_def)
qed

text \<open>
  A heartbeat keeps a host online: afterwards the host is online with the heartbeat's time,
  and no sweep within the threshold of it takes it offline.
\<close>

theorem heartbeat_survives_sweep:
  assumes "distinct (map h_id (t_hosts s))" and "record_heartbeat_by_host mem s now hid metrics = Inr (mem', s')"
    and "later \<le> now + thresholdMs"
  shows "\<exists>h. find_host (fst (sweep_offline_hosts s' later thresholdMs)) hid = Some h \<and>
    h_status h = Some ''online'' \<and> h_lastHeartbeatAt h = Some now"
proof -
  from assms(2) obtain h where h: "find_host s hid = Some h"
    and hosts: "t_hosts s' = update_where (\<lambda>x. h_id x = hid) (beat now metrics) (t_hosts s)"
    by (auto simp: record_heartbeat_by_host_def record_heartbeat_def Let_def update_host_def
        split: option.splits sum.splits prod.splits bool.splits)
  note id = find_host_SomeD [OF h]
  let ?h = "beat now metrics h"
  have found: "List.find (\<lambda>x. h_id x = hid) (t_hosts s') = Some ?h"
    using h id unfolding hosts find_host_def by (subst find_update_where) (auto simp: beat_def)
  have dist: "distinct (map h_id (t_hosts s'))"
    unfolding hosts using assms(1) by (subst map_update_where) (auto simp: beat_def)
  have loud: "\<not> silent (later - thresholdMs) ?h" using assms(3) by (simp add: silent_def beat_def)
  obtain s'' gone where sw: "sweep_offline_hosts s' later thresholdMs = (s'', gone)" by fastforce
  have "List.find (\<lambda>x. h_id x = hid) (t_hosts s'') = Some ?h"
    using offline_sweep_rows [OF dist sw] found loud by (simp add: find_update_where)
  then show ?thesis by (simp add: sw find_host_def beat_def)
qed

theorem heartbeat_survives_sweep_witness:
  "\<exists>mem' s' h. record_heartbeat_by_host [] sample_hosts 100000 ''b'' None = Inr (mem', s') \<and>
     find_host (fst (sweep_offline_hosts s' 150000 60000)) ''b'' = Some h \<and> h_status h = Some ''online''"
proof -
  have d: "distinct (map h_id (t_hosts sample_hosts))" by (simp add: sample_hosts_def)
  obtain mem' s' where r: "record_heartbeat_by_host [] sample_hosts 100000 ''b'' None = Inr (mem', s')"
    by (simp add: record_heartbeat_by_host_def record_heartbeat_def find_host_def find_host_in_org_def sample_hosts_def Let_def)
  from heartbeat_survives_sweep [OF d r, of 150000 60000] r show ?thesis by auto
qed

end
