(* ===== verification/ServerInstances.thy ===== *)
theory ServerInstances
  imports JsValues Queue
begin

text \<open>
  \<open>server-instances/server-instances.service.ts\<close>, its data transfer objects and its
  controller, and \<open>game-types/game-types.service.ts\<close>: the game servers of an organisation
  and the discovery of the 7DTD servers an agent finds on its host.
\<close>

section \<open>Game types\<close>

record game_type_view =
  gv_id :: id
  gv_slug :: string
  gv_name :: string
  gv_capabilities :: "string list"

definition parse_capabilities :: "json option \<Rightarrow> string list" where
  "parse_capabilities cap = (case cap of
     Some (JArr vs) \<Rightarrow> concat (map (\<lambda>v. case v of JStr c \<Rightarrow> [c] | _ \<Rightarrow> []) vs)
   | _ \<Rightarrow> [])"

definition game_type_dto :: "game_type \<Rightarrow> game_type_view" where
  "game_type_dto gt = \<lparr>gv_id = gt_id gt, gv_slug = gt_slug gt, gv_name = gt_name gt,
     gv_capabilities = parse_capabilities (gt_capabilities gt)\<rparr>"

text \<open>Ordered by the slug.\<close>

fun insert_slug :: "game_type \<Rightarrow> game_type list \<Rightarrow> game_type list" where
  "insert_slug g [] = [g]"
| "insert_slug g (h # hs) = (if string_le (gt_slug g) (gt_slug h) then g # h # hs else h # insert_slug g hs)"

definition find_all_game_types :: "store \<Rightarrow> game_type_view list" where
  "find_all_game_types s = map game_type_dto (foldr insert_slug (t_gameTypes s) [])"

definition find_game_type_by_slug :: "store \<Rightarrow> string \<Rightarrow> game_type_view option" where
  "find_game_type_by_slug s slug =
     map_option game_type_dto (List.find (\<lambda>g. gt_slug g = slug) (t_gameTypes s))"

section \<open>Checks\<close>

definition get_game_type_id_by_slug :: "store \<Rightarrow> string \<Rightarrow> id result" where
  "get_game_type_id_by_slug s slug = (case List.find (\<lambda>g. gt_slug g = js_lower slug) (t_gameTypes s) of
     None \<Rightarrow> Inl (BadRequestException (''Game type \"'' @ slug @ ''\" is not registered. Seed game_types with slug \"'' @
               slug @ ''\".''))
   | Some g \<Rightarrow> Inr (gt_id g))"

definition assert_host_in_org :: "store \<Rightarrow> id \<Rightarrow> id \<Rightarrow> unit result" where
  "assert_host_in_org s hostId orgId = (if find_host_in_org s hostId orgId = None
     then Inl (BadRequestException ''Host not found or does not belong to this org'') else Inr ())"

section \<open>Views\<close>

record server_view =
  sr_server :: server_instance
  sr_gameType :: string
  sr_capabilities :: "json list"
  sr_telnetPassword :: "string option option"

text \<open>
  The columns of the row without the password; \<open>sr_telnetPassword\<close> is None when the field is
  left out of the answer.
\<close>

definition server_to_response :: "store \<Rightarrow> server_instance \<Rightarrow> bool \<Rightarrow> server_view" where
  "server_to_response s row includePassword =
    (let gt = List.find (\<lambda>g. gt_id g = si_gameTypeId row) (t_gameTypes s) in
     \<lparr>sr_server = row\<lparr>si_telnetPassword := None, si_config := None\<rparr>,
      sr_gameType = (case gt of None \<Rightarrow> ''7dtd'' | Some g \<Rightarrow> gt_slug g),
      sr_capabilities = (case gt of None \<Rightarrow> [] | Some g \<Rightarrow> (case gt_capabilities g of Some (JArr vs) \<Rightarrow> vs | _ \<Rightarrow> [])),
      sr_telnetPassword = (if includePassword then Some (si_telnetPassword row) else None)\<rparr>)"

definition find_all_servers :: "store \<Rightarrow> id \<Rightarrow> server_view list" where
  "find_all_servers s orgId =
     map (\<lambda>x. server_to_response s x False) (rev (filter (\<lambda>x. si_orgId x = orgId) (t_serverInstances s)))"

definition find_one_server :: "store \<Rightarrow> id \<Rightarrow> id \<Rightarrow> bool \<Rightarrow> server_view result" where
  "find_one_server s orgId sid includePassword = (case find_server_in_org s sid orgId of
     None \<Rightarrow> Inl (NotFoundException ''Server instance not found'')
   | Some x \<Rightarrow> Inr (server_to_response s x includePassword))"

definition audit_server :: "id \<Rightarrow> id \<Rightarrow> string \<Rightarrow> id \<Rightarrow> (string \<times> json) list \<Rightarrow> string option \<Rightarrow> store \<Rightarrow> store" where
  "audit_server orgId actorId action resourceId details ip = add_audit \<lparr>al_orgId = orgId, al_actorId = Some actorId,
     al_action = action, al_resourceType = ''server_instance'', al_resourceId = resourceId, al_details = details, al_ip = ip\<rparr>"

text \<open>The client address: the first entry of \<open>x-forwarded-for\<close>, else the socket's.\<close>

definition client_ip :: "string option \<Rightarrow> string option \<Rightarrow> string option" where
  "client_ip forwarded ip = (case forwarded of
     None \<Rightarrow> ip | Some f \<Rightarrow> or_else (or_null (js_trim (hd (js_split (CHR '','') f)))) ip)"

section \<open>Creating\<close>

record create_server_dto =
  cs_name :: string
  cs_hostId :: id
  cs_gameType :: string
  cs_installPath :: "string option"
  cs_startCommand :: "string option"
  cs_telnetHost :: "string option"
  cs_telnetPort :: "int option"
  cs_telnetPassword :: "string option"

definition at_most :: "nat \<Rightarrow> string option \<Rightarrow> bool" where
  "at_most n v = (case v of None \<Rightarrow> True | Some x \<Rightarrow> length x \<le> n)"

text \<open>\<open>/^[\w.-]+$/\<close>\<close>

definition host_char :: "char \<Rightarrow> bool" where
  "host_char c \<longleftrightarrow> (let n = of_char c :: nat in 48 \<le> n \<and> n \<le> 57 \<or> 65 \<le> n \<and> n \<le> 90 \<or> 97 \<le> n \<and> n \<le> 122 \<or>
     n = 95 \<or> n = 46 \<or> n = 45)"

definition telnet_host_ok :: "string option \<Rightarrow> bool" where
  "telnet_host_ok v = (case v of None \<Rightarrow> True | Some x \<Rightarrow> x \<noteq> [] \<and> length x \<le> 255 \<and> list_all host_char x)"

definition telnet_port_ok :: "int option \<Rightarrow> bool" where
  "telnet_port_ok v = (case v of None \<Rightarrow> True | Some p \<Rightarrow> 1 \<le> p \<and> p \<le> 65535)"

definition game_type_ok :: "string \<Rightarrow> bool" where
  "game_type_ok g \<longleftrightarrow> js_lower g = ''7dtd'' \<or> js_lower g = ''minecraft''"

definition create_server_dto_ok :: "create_server_dto \<Rightarrow> bool" where
  "create_server_dto_ok d \<longleftrightarrow> cs_name d \<noteq> [] \<and> length (cs_name d) \<le> 128 \<and> cs_hostId d \<noteq> [] \<and>
     game_type_ok (cs_gameType d) \<and> at_most 2048 (cs_installPath d) \<and> at_most 2048 (cs_startCommand d) \<and>
     telnet_host_ok (cs_telnetHost d) \<and> telnet_port_ok (cs_telnetPort d) \<and> at_most 256 (cs_telnetPassword d)"

definition create_server ::
  "id \<Rightarrow> store \<Rightarrow> time \<Rightarrow> id \<Rightarrow> id \<Rightarrow> create_server_dto \<Rightarrow> string option \<Rightarrow> (store \<times> server_view) result" where
  "create_server new_id s now orgId userId d clientIp = (case assert_host_in_org s (cs_hostId d) orgId of
     Inl e \<Rightarrow> Inl e
   | Inr _ \<Rightarrow> (case get_game_type_id_by_slug s (cs_gameType d) of
       Inl e \<Rightarrow> Inl e
     | Inr gameTypeId \<Rightarrow>
         let x = \<lparr>si_id = new_id, si_orgId = orgId, si_hostId = cs_hostId d, si_gameTypeId = gameTypeId,
               si_name = js_trim (cs_name d), si_installPath = trim_or_null (cs_installPath d),
               si_startCommand = trim_or_null (cs_startCommand d), si_telnetHost = trim_or_null (cs_telnetHost d),
               si_telnetPort = cs_telnetPort d, si_telnetPassword = cs_telnetPassword d,
               si_config = None, si_createdAt = now\<rparr>;
             s1 = s\<lparr>t_serverInstances := t_serverInstances s @ [x]\<rparr>;
             v = server_to_response s1 x True
         in Inr (audit_server orgId userId ''create'' new_id
                   [(''name'', JStr (si_name x)), (''hostId'', JStr (si_hostId x)), (''gameType'', JStr (sr_gameType v))]
                   clientIp s1, v)))"

section \<open>Changing and deleting\<close>

text \<open>
  A field of the body is None when absent; the columns that can be cleared also accept
  \<open>null\<close>.
\<close>

record update_server_dto =
  us_name :: "string option"
  us_hostId :: "id option"
  us_gameType :: "string option"
  us_installPath :: "string option option"
  us_startCommand :: "string option option"
  us_telnetHost :: "string option option"
  us_telnetPort :: "int option option"
  us_telnetPassword :: "string option option"

definition given :: "'a option option \<Rightarrow> 'a option" where
  "given v = (case v of None \<Rightarrow> None | Some x \<Rightarrow> x)"

definition update_server_dto_ok :: "update_server_dto \<Rightarrow> bool" where
  "update_server_dto_ok d \<longleftrightarrow> (case us_name d of None \<Rightarrow> True | Some n \<Rightarrow> n \<noteq> [] \<and> length n \<le> 128) \<and>
     (case us_gameType d of None \<Rightarrow> True | Some g \<Rightarrow> game_type_ok g) \<and>
     telnet_host_ok (given (us_telnetHost d)) \<and> telnet_port_ok (given (us_telnetPort d)) \<and>
     at_most 256 (given (us_telnetPassword d))"

definition key_if :: "string \<Rightarrow> 'a option \<Rightarrow> json list" where
  "key_if k v = (case v of None \<Rightarrow> [] | Some _ \<Rightarrow> [JStr k])"

definition updated_keys :: "update_server_dto \<Rightarrow> json list" where
  "updated_keys d = key_if ''name'' (us_name d) @ key_if ''hostId'' (us_hostId d) @ key_if ''gameType'' (us_gameType d) @
     key_if ''installPath'' (us_installPath d) @ key_if ''startCommand'' (us_startCommand d) @
     key_if ''telnetHost'' (us_telnetHost d) @ key_if ''telnetPort'' (us_telnetPort d)"

definition patch_server :: "update_server_dto \<Rightarrow> id option \<Rightarrow> server_instance \<Rightarrow> server_instance" where
  "patch_server d gameTypeId x = x\<lparr>
     si_name := (case us_name d of None \<Rightarrow> si_name x | Some n \<Rightarrow> js_trim n),
     si_hostId := (case us_hostId d of None \<Rightarrow> si_hostId x | Some h \<Rightarrow> h),
     si_gameTypeId := (case gameTypeId of None \<Rightarrow> si_gameTypeId x | Some g \<Rightarrow> g),
     si_installPath := (case us_installPath d of None \<Rightarrow> si_installPath x | Some v \<Rightarrow> trim_or_null v),
     si_startCommand := (case us_startCommand d of None \<Rightarrow> si_startCommand x | Some v \<Rightarrow> trim_or_null v),
     si_telnetHost := (case us_telnetHost d of None \<Rightarrow> si_telnetHost x | Some v \<Rightarrow> trim_or_null v),
     si_telnetPort := (case us_telnetPort d of None \<Rightarrow> si_telnetPort x | Some v \<Rightarrow> v),
     si_telnetPassword := (case us_telnetPassword d of None \<Rightarrow> si_telnetPassword x | Some v \<Rightarrow> v)\<rparr>"

definition update_server_row :: "id \<Rightarrow> (server_instance \<Rightarrow> server_instance) \<Rightarrow> store \<Rightarrow> store" where
  "update_server_row sid f s = s\<lparr>t_serverInstances := update_where (\<lambda>x. si_id x = sid) f (t_serverInstances s)\<rparr>"

definition update_server ::
  "store \<Rightarrow> id \<Rightarrow> id \<Rightarrow> id \<Rightarrow> update_server_dto \<Rightarrow> string option \<Rightarrow> (store \<times> server_view) result" where
  "update_server s orgId userId sid d clientIp = (case find_server_in_org s sid orgId of
     None \<Rightarrow> Inl (NotFoundException ''Server instance not found'')
   | Some x \<Rightarrow> (case (case us_hostId d of None \<Rightarrow> Inr () | Some h \<Rightarrow> assert_host_in_org s h orgId) of
       Inl e \<Rightarrow> Inl e
     | Inr _ \<Rightarrow> (case (case us_gameType d of None \<Rightarrow> Inr None
           | Some g \<Rightarrow> if g = [] then Inr None else (case get_game_type_id_by_slug s g of Inl e \<Rightarrow> Inl e | Inr i \<Rightarrow> Inr (Some i))) of
         Inl e \<Rightarrow> Inl e
       | Inr gameTypeId \<Rightarrow>
           let s1 = update_server_row sid (patch_server d gameTypeId) s
           in Inr (audit_server orgId userId ''update'' sid [(''updated'', JArr (updated_keys d))] clientIp s1,
                   server_to_response s1 (patch_server d gameTypeId x) True))))"

text \<open>
  Deleting a server deletes what belongs to it and clears the reference of its jobs
  (\<open>onDelete\<close> in the schema).
\<close>

definition delete_server_row :: "id \<Rightarrow> store \<Rightarrow> store" where
  "delete_server_row sid s =
    (let gone = map pl_id (filter (\<lambda>p. pl_serverInstanceId p = sid) (t_players s)) in
     s\<lparr>t_serverInstances := delete_where (\<lambda>x. si_id x = sid) (t_serverInstances s),
       t_userServerRoles := delete_where (\<lambda>x. usr_serverInstanceId x = sid) (t_userServerRoles s),
       t_serverLogs := delete_where (\<lambda>x. log_serverInstanceId x = sid) (t_serverLogs s),
       t_protection := delete_where (\<lambda>x. ps_serverInstanceId x = sid) (t_protection s),
       t_players := delete_where (\<lambda>p. pl_serverInstanceId p = sid) (t_players s),
       t_sessions := delete_where (\<lambda>x. ses_playerId x \<in> set gone) (t_sessions s),
       t_schedules := delete_where (\<lambda>x. sch_serverInstanceId x = sid) (t_schedules s),
       t_jobs := update_where (\<lambda>j. j_serverInstanceId j = Some sid) (\<lambda>j. j\<lparr>j_serverInstanceId := None\<rparr>) (t_jobs s)\<rparr>)"

definition remove_server :: "store \<Rightarrow> id \<Rightarrow> id \<Rightarrow> id \<Rightarrow> string option \<Rightarrow> store result" where
  "remove_server s orgId userId sid clientIp = (case find_server_in_org s sid orgId of
     None \<Rightarrow> Inl (NotFoundException ''Server instance not found'')
   | Some x \<Rightarrow> Inr (audit_server orgId userId ''delete'' sid [(''name'', JStr (si_name x))] clientIp (delete_server_row sid s)))"

section \<open>Discovery\<close>

fun drop_slashes :: "string \<Rightarrow> string" where
  "drop_slashes [] = []"
| "drop_slashes (c # cs) = (if c = CHR ''/'' then drop_slashes cs else c # cs)"

definition normalize_path :: "string option \<Rightarrow> string" where
  "normalize_path path = js_lower (rev (drop_slashes (rev
     (map (\<lambda>c. if c = CHR 0x5C then CHR ''/'' else c) (js_trim (case path of None \<Rightarrow> [] | Some p \<Rightarrow> p))))))"

definition find_matching_discovered_instance :: "server_instance list \<Rightarrow> string option \<Rightarrow> server_instance option" where
  "find_matching_discovered_instance rows installPath = (case installPath of
     None \<Rightarrow> None
   | Some p \<Rightarrow> List.find (\<lambda>x. normalize_path (si_installPath x) = normalize_path (Some p)) rows)"

definition object_fields :: "json option \<Rightarrow> (string \<times> json) list" where
  "object_fields v = (case v of Some (JObj kvs) \<Rightarrow> kvs | _ \<Rightarrow> [])"

definition merge_config :: "json option \<Rightarrow> (string \<times> json) list option \<Rightarrow> (string \<times> json) list" where
  "merge_config existing incoming =
    (let base = object_fields existing in
     case incoming of
       None \<Rightarrow> base
     | Some inc \<Rightarrow> jput (jspread base inc) ''discovery''
         (JObj (jspread (object_fields (map_of base ''discovery'')) (object_fields (map_of inc ''discovery'')))))"

definition is_discovered_managed :: "json option \<Rightarrow> bool" where
  "is_discovered_managed config =
     truthy (map_of (object_fields (map_of (object_fields config) ''discovery'')) ''managedByAgent'')"

record discover_dto =
  ds_name :: "string option"
  ds_installPath :: "string option"
  ds_startCommand :: "string option"
  ds_telnetHost :: "string option"
  ds_telnetPort :: "int option"
  ds_telnetPassword :: "string option"
  ds_config :: "(string \<times> json) list option"

text \<open>A column that is null or, for a string, empty.\<close>

definition unset :: "string option \<Rightarrow> bool" where
  "unset v \<longleftrightarrow> v = None \<or> v = Some []"

definition discovered_patch :: "discover_dto \<Rightarrow> bool \<Rightarrow> (string \<times> json) list \<Rightarrow> server_instance \<Rightarrow> server_instance" where
  "discovered_patch d managed config x = x\<lparr>
     si_installPath := or_else (trim_or_null (ds_installPath d)) (si_installPath x),
     si_startCommand := (if managed \<or> unset (si_startCommand x)
       then or_else (trim_or_null (ds_startCommand d)) (si_startCommand x) else si_startCommand x),
     si_telnetHost := (if managed \<or> unset (si_telnetHost x)
       then or_else (trim_or_null (ds_telnetHost d)) (si_telnetHost x) else si_telnetHost x),
     si_telnetPort := (if managed \<or> si_telnetPort x = None
       then or_else (ds_telnetPort d) (si_telnetPort x) else si_telnetPort x),
     si_telnetPassword := (if managed \<or> unset (si_telnetPassword x)
       then (case ds_telnetPassword d of None \<Rightarrow> si_telnetPassword x | Some p \<Rightarrow> or_null p) else si_telnetPassword x),
     si_name := (if managed then (case trim_or_null (ds_name d) of None \<Rightarrow> si_name x | Some n \<Rightarrow> n) else si_name x),
     si_config := Some (JObj config)\<rparr>"

definition discovered_instance :: "store \<Rightarrow> host \<Rightarrow> id \<Rightarrow> discover_dto \<Rightarrow> server_instance option" where
  "discovered_instance s h gameTypeId d =
    (let rows = filter (\<lambda>x. si_orgId x = h_orgId h \<and> si_hostId x = h_id h \<and> si_gameTypeId x = gameTypeId) (t_serverInstances s)
     in or_else (find_matching_discovered_instance rows (trim_or_null (ds_installPath d)))
          (case rows of [x] \<Rightarrow> Some x | _ \<Rightarrow> None))"

definition new_discovered :: "id \<Rightarrow> time \<Rightarrow> host \<Rightarrow> id \<Rightarrow> discover_dto \<Rightarrow> server_instance" where
  "new_discovered new_id now h gameTypeId d = \<lparr>si_id = new_id, si_orgId = h_orgId h, si_hostId = h_id h,
     si_gameTypeId = gameTypeId,
     si_name = (case trim_or_null (ds_name d) of None \<Rightarrow> h_name h @ '' 7DTD'' | Some n \<Rightarrow> n),
     si_installPath = trim_or_null (ds_installPath d), si_startCommand = trim_or_null (ds_startCommand d),
     si_telnetHost = or_else (trim_or_null (ds_telnetHost d)) (Some ''127.0.0.1''),
     si_telnetPort = or_else (ds_telnetPort d) (Some 8081), si_telnetPassword = ds_telnetPassword d,
     si_config = Some (JObj (merge_config None (ds_config d))), si_createdAt = now\<rparr>"

definition upsert_discovered ::
  "id \<Rightarrow> store \<Rightarrow> time \<Rightarrow> id \<Rightarrow> discover_dto \<Rightarrow> (store \<times> bool \<times> id) result" where
  "upsert_discovered new_id s now hostId d = (case find_host s hostId of
     None \<Rightarrow> Inl (NotFoundException ''Host not found'')
   | Some h \<Rightarrow> (case get_game_type_id_by_slug s ''7dtd'' of
       Inl e \<Rightarrow> Inl e
     | Inr gameTypeId \<Rightarrow> (case discovered_instance s h gameTypeId d of
         None \<Rightarrow> Inr (s\<lparr>t_serverInstances := t_serverInstances s @ [new_discovered new_id now h gameTypeId d]\<rparr>, True, new_id)
       | Some x \<Rightarrow> Inr (update_server_row (si_id x)
             (discovered_patch d (is_discovered_managed (si_config x)) (merge_config (si_config x) (ds_config d))) s,
             False, si_id x))))"

end
