(* ===== verification/Inventory.thy ===== *)
theory Inventory
  imports Hosts ServerInstances Pairing SampleWorld
begin

text \<open>
  The hosts and game servers together: which operations add, move and delete them, the
  invariant that a server and its host belong to the same organisation, and what it is
  good for - a job created for a server lands in the queue its host polls.
\<close>

section \<open>Discovery\<close>

lemma assert_host_in_org_InrD: "assert_host_in_org s hid oid = Inr u \<Longrightarrow> \<exists>h \<in> set (t_hosts s). h_id h = hid \<and> h_orgId h = oid"
  by (auto simp: assert_host_in_org_def split: if_splits dest: find_host_in_org_SomeD)

lemma discovered_instance_SomeD:
  assumes "discovered_instance s h g d = Some x"
  shows "x \<in> set (t_serverInstances s) \<and> si_orgId x = h_orgId h \<and> si_hostId x = h_id h \<and> si_gameTypeId x = g"
proof -
  let ?rows = "filter (\<lambda>x. si_orgId x = h_orgId h \<and> si_hostId x = h_id h \<and> si_gameTypeId x = g) (t_serverInstances s)"
  have "x \<in> set ?rows"
  proof (cases "find_matching_discovered_instance ?rows (trim_or_null (ds_installPath d))")
    case None
    with assms have one: "?rows = [x]"
      by (auto simp: discovered_instance_def Let_def or_else_def split: list.splits)
    show ?thesis unfolding one by simp
  next
    case (Some y)
    with assms have "y = x" by (simp add: discovered_instance_def Let_def or_else_def)
    with Some show ?thesis by (auto simp: find_matching_discovered_instance_def dest: find_SomeD split: option.splits)
  qed
  then show ?thesis by simp
qed

text \<open>
  A row with the reported path, no row of the same host before it having that path, is what
  the next discovery finds.
\<close>

lemma discovered_again:
  assumes "filter (\<lambda>x. si_orgId x = h_orgId h \<and> si_hostId x = h_id h \<and> si_gameTypeId x = g) (t_serverInstances s) = before @ x # after"
    and "\<And>y. y \<in> set before \<Longrightarrow> normalize_path (si_installPath y) \<noteq> normalize_path (trim_or_null (ds_installPath d))"
    and "normalize_path (si_installPath x) = normalize_path (trim_or_null (ds_installPath d))"
    and "trim_or_null (ds_installPath d) \<noteq> None"
  shows "discovered_instance s h g d = Some x"
proof -
  from assms(4) obtain p where p: "trim_or_null (ds_installPath d) = Some p" by blast
  have "List.find (\<lambda>y. normalize_path (si_installPath y) = normalize_path (Some p)) before = None"
    using assms(2) p by (simp add: find_None_iff')
  then have "List.find (\<lambda>y. normalize_path (si_installPath y) = normalize_path (Some p)) (before @ x # after) = Some x"
    using assms(3) p by (simp add: find_append)
  then show ?thesis
    by (simp add: discovered_instance_def Let_def assms(1) p find_matching_discovered_instance_def or_else_def)
qed

lemma discovered_patch_simps [simp]:
  "si_id (discovered_patch d m c x) = si_id x" "si_orgId (discovered_patch d m c x) = si_orgId x"
  "si_hostId (discovered_patch d m c x) = si_hostId x" "si_gameTypeId (discovered_patch d m c x) = si_gameTypeId x"
  by (simp_all add: discovered_patch_def)

lemma upsert_discovered_InrD:
  assumes "upsert_discovered new_id s now hid d = Inr (s', created, i)"
  shows "\<exists>h g. find_host s hid = Some h \<and> get_game_type_id_by_slug s ''7dtd'' = Inr g \<and>
    ((discovered_instance s h g d = None \<and> created \<and> i = new_id \<and>
       s' = s\<lparr>t_serverInstances := t_serverInstances s @ [new_discovered new_id now h g d]\<rparr>) \<or>
     (\<exists>x. discovered_instance s h g d = Some x \<and> \<not> created \<and> i = si_id x \<and>
       s' = update_server_row (si_id x) (discovered_patch d (is_discovered_managed (si_config x)) (merge_config (si_config x) (ds_config d))) s))"
  using assms by (auto simp: upsert_discovered_def split: option.splits sum.splits)

lemma update_server_row_tables [simp]:
  "t_hosts (update_server_row sid f s) = t_hosts s" "t_gameTypes (update_server_row sid f s) = t_gameTypes s"
  "t_serverInstances (update_server_row sid f s) = update_where (\<lambda>x. si_id x = sid) f (t_serverInstances s)"
  by (simp_all add: update_server_row_def)

lemma discovered_after_insert:
  assumes none: "discovered_instance s h g d = None" and p: "trim_or_null (ds_installPath d) = Some p"
    and d': "trim_or_null (ds_installPath d') \<noteq> None" "normalize_path (trim_or_null (ds_installPath d')) = normalize_path (Some p)"
  shows "discovered_instance (s\<lparr>t_serverInstances := t_serverInstances s @ [new_discovered new_id now h g d]\<rparr>) h g d' =
    Some (new_discovered new_id now h g d)"
proof -
  let ?rows = "filter (\<lambda>x. si_orgId x = h_orgId h \<and> si_hostId x = h_id h \<and> si_gameTypeId x = g) (t_serverInstances s)"
  have "find_matching_discovered_instance ?rows (Some p) = None"
    using none p by (auto simp: discovered_instance_def Let_def or_else_def split: option.splits)
  then have other: "normalize_path (si_installPath y) \<noteq> normalize_path (Some p)" if "y \<in> set ?rows" for y
    using that by (auto simp: find_matching_discovered_instance_def find_None_iff')
  show ?thesis
    by (rule discovered_again [where before = ?rows and after = "[]"])
      (use other d' p in \<open>simp_all add: new_discovered_def\<close>)
qed

lemma discovered_after_update:
  assumes dist: "distinct (map si_id (t_serverInstances s))" and some: "discovered_instance s h g d = Some x"
    and p: "trim_or_null (ds_installPath d) = Some p"
    and d': "trim_or_null (ds_installPath d') \<noteq> None" "normalize_path (trim_or_null (ds_installPath d')) = normalize_path (Some p)"
  shows "discovered_instance (update_server_row (si_id x) (discovered_patch d m c) s) h g d' = Some (discovered_patch d m c x)"
proof -
  let ?P = "\<lambda>x. si_orgId x = h_orgId h \<and> si_hostId x = h_id h \<and> si_gameTypeId x = g"
  let ?rows = "filter ?P (t_serverInstances s)" and ?f = "discovered_patch d m c"
  obtain before after where split: "?rows = before @ x # after"
    and first: "\<And>y. y \<in> set before \<Longrightarrow> normalize_path (si_installPath y) \<noteq> normalize_path (Some p)"
  proof (cases "find_matching_discovered_instance ?rows (Some p)")
    case None
    with some p have "?rows = [] @ x # []"
      by (auto simp: discovered_instance_def Let_def or_else_def split: list.splits option.splits)
    then show ?thesis by (rule that) simp
  next
    case (Some y)
    with some p have "y = x" by (simp add: discovered_instance_def Let_def or_else_def)
    with Some find_first [of "\<lambda>x. normalize_path (si_installPath x) = normalize_path (Some p)" ?rows x]
    show ?thesis using that by (auto simp: find_matching_discovered_instance_def)
  qed
  have "distinct (map si_id ?rows)" using dist by (rule distinct_map_filter)
  then have "si_id x \<notin> si_id ` set before" "si_id x \<notin> si_id ` set after" unfolding split by auto
  then have others: "si_id y \<noteq> si_id x" if "y \<in> set before \<union> set after" for y
    using that by (metis UnE image_eqI)
  have "filter ?P (t_serverInstances (update_server_row (si_id x) ?f s)) = map (\<lambda>y. if si_id y = si_id x then ?f y else y) ?rows"
    by (simp add: update_where_def filter_map o_def)
  also have "\<dots> = before @ ?f x # after"
    unfolding split using others by (simp add: map_idI)
  finally show ?thesis
    by (rule discovered_again) (use first d' p in \<open>simp_all add: discovered_patch_def or_else_def\<close>)
qed

text \<open>
  C20. Discovery is idempotent: when an agent reports a server under an install path and later
  reports that path again - in another spelling of case, slashes or trailing slashes - the
  same server is updated and none is added.
\<close>

theorem discovery_idempotent:
  assumes "distinct (map si_id (t_serverInstances s))" and "upsert_discovered new_id s now hid d = Inr (s', created, i)"
    and "trim_or_null (ds_installPath d) \<noteq> None" and "trim_or_null (ds_installPath d') \<noteq> None"
    and "normalize_path (trim_or_null (ds_installPath d')) = normalize_path (trim_or_null (ds_installPath d))"
  shows "\<exists>s''. upsert_discovered new_id' s' now' hid d' = Inr (s'', False, i) \<and>
    map si_id (t_serverInstances s'') = map si_id (t_serverInstances s')"
proof -
  from upsert_discovered_InrD [OF assms(2)] obtain h g where h: "find_host s hid = Some h"
    and g: "get_game_type_id_by_slug s ''7dtd'' = Inr g" and
    cases: "(discovered_instance s h g d = None \<and> created \<and> i = new_id \<and>
       s' = s\<lparr>t_serverInstances := t_serverInstances s @ [new_discovered new_id now h g d]\<rparr>) \<or>
     (\<exists>x. discovered_instance s h g d = Some x \<and> \<not> created \<and> i = si_id x \<and>
       s' = update_server_row (si_id x) (discovered_patch d (is_discovered_managed (si_config x)) (merge_config (si_config x) (ds_config d))) s)"
    by blast
  obtain p where p: "trim_or_null (ds_installPath d) = Some p" using assms(3) by blast
  note norm = assms(5) [unfolded p]
  have "\<exists>x. discovered_instance s' h g d' = Some x \<and> si_id x = i"
    using cases discovered_after_insert [OF _ p assms(4) norm] discovered_after_update [OF assms(1) _ p assms(4) norm]
    by (elim disjE exE conjE) (simp_all add: new_discovered_def)
  then obtain x where x: "discovered_instance s' h g d' = Some x" "si_id x = i" by blast
  have "t_hosts s' = t_hosts s" "t_gameTypes s' = t_gameTypes s" using cases by auto
  then have "find_host s' hid = Some h" "get_game_type_id_by_slug s' ''7dtd'' = Inr g"
    using h g by (simp_all add: find_host_def get_game_type_id_by_slug_def)
  with x show ?thesis
    by (auto simp: upsert_discovered_def intro!: map_update_where)
qed

theorem discovery_idempotent_witness:
  "\<exists>s' s''. upsert_discovered ''n'' (sample_world\<lparr>t_serverInstances := []\<rparr>) 5 ''h''
       \<lparr>ds_name = None, ds_installPath = Some ''C:/7dtd'', ds_startCommand = None, ds_telnetHost = None,
        ds_telnetPort = None, ds_telnetPassword = None, ds_config = None\<rparr> = Inr (s', True, ''n'') \<and>
     upsert_discovered ''m'' s' 9 ''h''
       \<lparr>ds_name = None, ds_installPath = Some (''c:'' @ [CHR 0x5C] @ ''7DTD/''), ds_startCommand = None, ds_telnetHost = None,
        ds_telnetPort = None, ds_telnetPassword = None, ds_config = None\<rparr> = Inr (s'', False, ''n'') \<and>
     map si_id (t_serverInstances s'') = map si_id (t_serverInstances s')"
proof -
  let ?s = "sample_world\<lparr>t_serverInstances := []\<rparr>"
  let ?d = "\<lambda>p. \<lparr>ds_name = None, ds_installPath = Some p, ds_startCommand = None, ds_telnetHost = None,
        ds_telnetPort = None, ds_telnetPassword = None, ds_config = None\<rparr>"
  have paths: "trim_or_null (Some ''C:/7dtd'') = Some ''C:/7dtd''"
    "trim_or_null (Some (''c:'' @ [CHR 0x5C] @ ''7DTD/'')) = Some (''c:'' @ [CHR 0x5C] @ ''7DTD/'')"
    "normalize_path (Some (''c:'' @ [CHR 0x5C] @ ''7DTD/'')) = normalize_path (Some ''C:/7dtd'')"
    by code_simp+
  have host: "find_host ?s ''h'' = Some sample_host" by (simp add: find_host_def sample_world_def) (simp add: sample_host_def)
  have "js_lower ''7dtd'' = ''7dtd''" by code_simp
  then have gt: "get_game_type_id_by_slug ?s ''7dtd'' = Inr ''g''"
    by (simp add: get_game_type_id_by_slug_def sample_world_def)
  obtain s' where r: "upsert_discovered ''n'' ?s 5 ''h'' (?d ''C:/7dtd'') = Inr (s', True, ''n'')"
    by (simp add: upsert_discovered_def host gt discovered_instance_def find_matching_discovered_instance_def or_else_def paths)
  have "distinct (map si_id (t_serverInstances ?s))" by simp
  from discovery_idempotent [OF this r, of "?d (''c:'' @ [CHR 0x5C] @ ''7DTD/'')" "''m''" 9] r
  show ?thesis by (simp only: discover_dto.simps paths option.distinct not_False_eq_True) blast
qed

text \<open>
  Discovery respects what people configured: unless the stored configuration marks the
  server as managed by the agent, a discovery changes neither its name nor a start command,
  telnet host, port or password that is set; and it always keeps the server's identity,
  organisation, host and game.
\<close>

theorem discovery_keeps_manual_settings:
  assumes "\<not> is_discovered_managed (si_config x)" and "y = discovered_patch d (is_discovered_managed (si_config x)) cfg x"
  shows "si_name y = si_name x \<and> si_id y = si_id x \<and> si_orgId y = si_orgId x \<and> si_hostId y = si_hostId x \<and>
    si_gameTypeId y = si_gameTypeId x \<and>
    (\<not> unset (si_startCommand x) \<longrightarrow> si_startCommand y = si_startCommand x) \<and>
    (\<not> unset (si_telnetHost x) \<longrightarrow> si_telnetHost y = si_telnetHost x) \<and>
    (si_telnetPort x \<noteq> None \<longrightarrow> si_telnetPort y = si_telnetPort x) \<and>
    (\<not> unset (si_telnetPassword x) \<longrightarrow> si_telnetPassword y = si_telnetPassword x)"
  using assms by (simp add: discovered_patch_def)

section \<open>Tenants\<close>

text \<open>Host and server ids are unique, and every server runs on a host of its own organisation.\<close>

definition tenant_inv :: "store \<Rightarrow> bool" where
  "tenant_inv s \<longleftrightarrow> distinct (map h_id (t_hosts s)) \<and> distinct (map si_id (t_serverInstances s)) \<and>
     (\<forall>x \<in> set (t_serverInstances s). \<exists>h \<in> set (t_hosts s). h_id h = si_hostId x \<and> h_orgId h = si_orgId x)"

text \<open>The operations on hosts and servers, with fresh ids for the new rows.\<close>

inductive inventory_step :: "(string \<Rightarrow> string) \<Rightarrow> sign_fun \<Rightarrow> store \<Rightarrow> store \<Rightarrow> bool"
  for hash :: "string \<Rightarrow> string" and sign :: sign_fun where
  pair: "hid \<notin> h_id ` set (t_hosts s) \<Longrightarrow> pair hash sign s now hid dto = Inr (s', r) \<Longrightarrow> inventory_step hash sign s s'"
| rotate: "rotate_agent_key sign s oid hid = Inr (s', k) \<Longrightarrow> inventory_step hash sign s s'"
| rename: "rename_host s oid hid name uid = Inr (s', hr) \<Longrightarrow> inventory_step hash sign s s'"
| remove_host: "remove_host s oid hid uid = Inr s' \<Longrightarrow> inventory_step hash sign s s'"
| heartbeat: "record_heartbeat_by_host mem s now hid m = Inr (mem', s') \<Longrightarrow> inventory_step hash sign s s'"
| sweep: "sweep_offline_hosts s now threshold = (s', gone) \<Longrightarrow> inventory_step hash sign s s'"
| create: "sid \<notin> si_id ` set (t_serverInstances s) \<Longrightarrow> create_server sid s now oid uid d ip = Inr (s', v) \<Longrightarrow>
    inventory_step hash sign s s'"
| update: "update_server s oid uid sid ud ip = Inr (s', v) \<Longrightarrow> inventory_step hash sign s s'"
| remove: "remove_server s oid uid sid ip = Inr s' \<Longrightarrow> inventory_step hash sign s s'"
| discover: "sid \<notin> si_id ` set (t_serverInstances s) \<Longrightarrow> upsert_discovered sid s now hid dd = Inr (s', c, i) \<Longrightarrow>
    inventory_step hash sign s s'"

inductive_cases inventory_stepE: "inventory_step hash sign s s'"

text \<open>A change of hosts that keeps ids and organisations, and of servers that keeps ids, hosts and organisations.\<close>

lemma tenant_inv_hosts:
  assumes "tenant_inv s" and "t_serverInstances s' = t_serverInstances s"
    and "map (\<lambda>h. (h_id h, h_orgId h)) (t_hosts s') = map (\<lambda>h. (h_id h, h_orgId h)) (t_hosts s)"
  shows "tenant_inv s'"
proof -
  have "map h_id (t_hosts s') = map fst (map (\<lambda>h. (h_id h, h_orgId h)) (t_hosts s'))" by (simp add: o_def)
  also have "\<dots> = map h_id (t_hosts s)" unfolding assms(3) by (simp add: o_def)
  finally have ids: "map h_id (t_hosts s') = map h_id (t_hosts s)" .
  have pairs: "(\<exists>h \<in> set (t_hosts t). h_id h = i \<and> h_orgId h = oid) \<longleftrightarrow> (i, oid) \<in> set (map (\<lambda>h. (h_id h, h_orgId h)) (t_hosts t))"
    for t :: store and i oid by force
  have "(\<exists>h \<in> set (t_hosts s'). h_id h = i \<and> h_orgId h = oid) \<longleftrightarrow> (\<exists>h \<in> set (t_hosts s). h_id h = i \<and> h_orgId h = oid)" for i oid
    by (simp only: pairs assms(3))
  then show ?thesis using assms(1) by (simp add: tenant_inv_def ids assms(2))
qed

lemma tenant_inv_more_hosts:
  assumes "tenant_inv s" and "t_serverInstances s' = t_serverInstances s" and "t_hosts s' = t_hosts s @ [h]"
    and "h_id h \<notin> h_id ` set (t_hosts s)"
  shows "tenant_inv s'"
  using assms by (auto simp: tenant_inv_def)

lemma tenant_inv_servers:
  assumes "tenant_inv s" and "t_hosts s' = t_hosts s"
    and "t_serverInstances s' = update_where (\<lambda>x. si_id x = sid) f (t_serverInstances s)"
    and "\<And>x. x \<in> set (t_serverInstances s) \<Longrightarrow> si_id x = sid \<Longrightarrow> si_id (f x) = sid \<and>
      (\<exists>h \<in> set (t_hosts s). h_id h = si_hostId (f x) \<and> h_orgId h = si_orgId (f x))"
  shows "tenant_inv s'"
proof -
  have "map si_id (t_serverInstances s') = map si_id (t_serverInstances s)"
    unfolding assms(3) update_where_def map_map by (rule map_cong [OF refl]) (use assms(4) in auto)
  then show ?thesis using assms by (auto simp: tenant_inv_def set_update_where)
qed

lemma tenant_inv_more_servers:
  assumes "tenant_inv s" and "t_hosts s' = t_hosts s" and "t_serverInstances s' = t_serverInstances s @ [x]"
    and "si_id x \<notin> si_id ` set (t_serverInstances s)" and "\<exists>h \<in> set (t_hosts s). h_id h = si_hostId x \<and> h_orgId h = si_orgId x"
  shows "tenant_inv s'"
  using assms by (auto simp: tenant_inv_def)

lemma inventory_step_inv:
  assumes "inventory_step hash sign s s'" and inv: "tenant_inv s"
  shows "tenant_inv s'"
  using assms(1)
proof cases
  case (pair hid now dto r)
  then obtain rec where "pair_commit sign s now hid dto rec = (s', r)"
    by (auto simp: pair_def split: sum.splits)
  then have s': "s' = fst (pair_commit sign s now hid dto rec)" by simp
  show ?thesis
    by (rule tenant_inv_more_hosts [OF inv, where h = "last (t_hosts s')"])
      (use pair(1) in \<open>simp_all add: s' pair_commit_def Let_def add_audit_def\<close>)
next
  case (rotate oid hid k)
  then show ?thesis
    by (auto simp: rotate_agent_key_def Let_def update_where_def intro!: tenant_inv_hosts [OF inv] split: option.splits)
next
  case (rename oid hid name uid hr)
  then show ?thesis
    by (auto simp: rename_host_def update_host_def Let_def update_where_def add_audit_def intro!: tenant_inv_hosts [OF inv]
        split: option.splits if_splits)
next
  case (remove_host oid hid uid)
  then have s': "t_hosts s' = delete_where (\<lambda>h. h_id h = hid) (t_hosts s)" "t_serverInstances s' = t_serverInstances s"
    and free: "host_servers s hid = []"
    by (auto simp: remove_host_def delete_host_row_def add_audit_def split: option.splits if_splits)
  have "\<exists>h \<in> set (t_hosts s'). h_id h = si_hostId x \<and> h_orgId h = si_orgId x" if "x \<in> set (t_serverInstances s)" for x
    using inv that free by (fastforce simp: tenant_inv_def s' set_delete_where host_servers_def filter_empty_conv)
  then show ?thesis using inv by (auto simp: tenant_inv_def s' distinct_delete_where)
next
  case (heartbeat mem now hid m mem')
  then have "t_hosts s' = update_where (\<lambda>x. h_id x = hid) (beat now m) (t_hosts s)" "t_serverInstances s' = t_serverInstances s"
    by (auto simp: record_heartbeat_by_host_def record_heartbeat_def Let_def update_host_def
        split: option.splits sum.splits prod.splits bool.splits)
  then show ?thesis by (intro tenant_inv_hosts [OF inv]) (auto simp: update_where_def beat_def)
next
  case (sweep now threshold gone)
  then show ?thesis
    by (auto simp: sweep_offline_hosts_def Let_def update_where_def intro!: tenant_inv_hosts [OF inv] split: if_splits)
next
  case (create sid now oid uid d ip v)
  then obtain u where "assert_host_in_org s (cs_hostId d) oid = Inr u" and s': "t_hosts s' = t_hosts s"
    "\<exists>x. t_serverInstances s' = t_serverInstances s @ [x] \<and> si_id x = sid \<and> si_hostId x = cs_hostId d \<and> si_orgId x = oid"
    by (auto simp: create_server_def Let_def audit_server_def add_audit_def split: sum.splits)
  from assert_host_in_org_InrD [OF this(1)] s' create(1) show ?thesis
    by (elim exE conjE) (rule tenant_inv_more_servers [OF inv], auto)
next
  case (update oid uid sid ud ip v)
  then obtain x g where x: "find_server_in_org s sid oid = Some x"
    and a: "(case us_hostId ud of None \<Rightarrow> Inr () | Some h \<Rightarrow> assert_host_in_org s h oid) = Inr ()"
    and s': "t_hosts s' = t_hosts s" "t_serverInstances s' = update_where (\<lambda>x. si_id x = sid) (patch_server ud g) (t_serverInstances s)"
    by (auto simp: update_server_def Let_def audit_server_def add_audit_def split: option.splits sum.splits)
  note xs = find_server_in_org_SomeD [OF x]
  show ?thesis
  proof (rule tenant_inv_servers [OF inv s'])
    fix y assume y: "y \<in> set (t_serverInstances s)" "si_id y = sid"
    with xs inv have "y = x" using find_key_distinct by (metis option.inject tenant_inv_def)
    show "si_id (patch_server ud g y) = sid \<and>
      (\<exists>h \<in> set (t_hosts s). h_id h = si_hostId (patch_server ud g y) \<and> h_orgId h = si_orgId (patch_server ud g y))"
    proof (cases "us_hostId ud")
      case None
      with y inv show ?thesis by (auto simp: patch_server_def tenant_inv_def)
    next
      case (Some h)
      with a assert_host_in_org_InrD [of s h oid "()"] y xs \<open>y = x\<close> show ?thesis by (auto simp: patch_server_def)
    qed
  qed
next
  case (remove oid uid sid ip)
  then have "t_hosts s' = t_hosts s" "t_serverInstances s' = delete_where (\<lambda>x. si_id x = sid) (t_serverInstances s)"
    by (auto simp: remove_server_def delete_server_row_def Let_def audit_server_def add_audit_def split: option.splits)
  then show ?thesis using inv by (auto simp: tenant_inv_def distinct_delete_where set_delete_where)
next
  case (discover sid now hid dd c i)
  from upsert_discovered_InrD [OF discover(2)] obtain h g where h: "find_host s hid = Some h" and
    cs: "(s' = s\<lparr>t_serverInstances := t_serverInstances s @ [new_discovered sid now h g dd]\<rparr>) \<or>
     (\<exists>x. discovered_instance s h g dd = Some x \<and>
       s' = update_server_row (si_id x) (discovered_patch dd (is_discovered_managed (si_config x)) (merge_config (si_config x) (ds_config dd))) s)"
    by blast
  note hs = find_host_SomeD [OF h]
  from cs show ?thesis
  proof (elim disjE exE conjE)
    assume "s' = s\<lparr>t_serverInstances := t_serverInstances s @ [new_discovered sid now h g dd]\<rparr>"
    then show ?thesis using discover(1) hs
      by (intro tenant_inv_more_servers [OF inv, where x = "new_discovered sid now h g dd"]) (auto simp: new_discovered_def)
  next
    fix x :: server_instance
    assume "s' = update_server_row (si_id x) (discovered_patch dd (is_discovered_managed (si_config x)) (merge_config (si_config x) (ds_config dd))) s"
    then show ?thesis using inv by (intro tenant_inv_servers [OF inv]) (auto simp: tenant_inv_def)
  qed
qed

text \<open>
  C8. Tenants stay apart: whatever sequence of pairings, renamings, removals, heartbeats,
  sweeps and server changes runs from a state that respects tenants (such as the empty one),
  ids stay unique and every server is on a host of its own organisation (a host with servers
  cannot be deleted, a server cannot be moved to a foreign host).
\<close>

theorem servers_stay_with_tenant:
  assumes "(inventory_step hash sign)\<^sup>*\<^sup>* s s'" and "tenant_inv s"
    and "x \<in> set (t_serverInstances s')"
  shows "distinct (map si_id (t_serverInstances s')) \<and> (\<exists>h. find_host s' (si_hostId x) = Some h \<and> h_orgId h = si_orgId x)"
proof -
  from assms(1,2) have inv: "tenant_inv s'" by (induction rule: rtranclp_induct) (auto intro: inventory_step_inv)
  with assms(3) obtain h where "h \<in> set (t_hosts s')" "h_id h = si_hostId x" "h_orgId h = si_orgId x"
    by (auto simp: tenant_inv_def)
  with inv show ?thesis by (auto simp: find_host_def tenant_inv_def dest: find_key_distinct)
qed


section \<open>Witnesses\<close>

theorem discovery_keeps_manual_settings_witness:
  "si_telnetPort (discovered_patch \<lparr>ds_name = Some ''new'', ds_installPath = None, ds_startCommand = None, ds_telnetHost = None,
      ds_telnetPort = Some 9999, ds_telnetPassword = None, ds_config = None\<rparr> (is_discovered_managed None) []
      (sample_server\<lparr>si_telnetPort := Some 8081\<rparr>)) = Some 8081"
proof -
  have "\<not> is_discovered_managed (si_config (sample_server\<lparr>si_telnetPort := Some 8081\<rparr>))"
    by (simp add: sample_server_def is_discovered_managed_def object_fields_def truthy_def)
  from discovery_keeps_manual_settings [OF this refl] show ?thesis by (simp add: sample_server_def)
qed

lemma sample_tenants: "tenant_inv sample_world"
  by (simp add: tenant_inv_def sample_eval)

theorem servers_stay_with_tenant_witness:
  "\<exists>s' v. create_server ''s2'' sample_world 5 ''o'' ''u'' \<lparr>cs_name = ''second'', cs_hostId = ''h'', cs_gameType = ''7dtd'',
      cs_installPath = None, cs_startCommand = None, cs_telnetHost = None, cs_telnetPort = None, cs_telnetPassword = None\<rparr> None
      = Inr (s', v) \<and>
    (\<forall>x \<in> set (t_serverInstances s'). \<exists>h. find_host s' (si_hostId x) = Some h \<and> h_orgId h = si_orgId x)"
proof -
  let ?d = "\<lparr>cs_name = ''second'', cs_hostId = ''h'', cs_gameType = ''7dtd'', cs_installPath = None, cs_startCommand = None,
    cs_telnetHost = None, cs_telnetPort = None, cs_telnetPassword = None\<rparr>"
  have "case create_server ''s2'' sample_world 5 ''o'' ''u'' ?d None of Inl e \<Rightarrow> False | Inr r \<Rightarrow> True" by code_simp
  then obtain s' v where c: "create_server ''s2'' sample_world 5 ''o'' ''u'' ?d None = Inr (s', v)"
    by (auto split: sum.splits)
  have "inventory_step id sample_sign sample_world s'" by (rule inventory_step.create [OF _ c]) (simp add: sample_eval)
  then have "(inventory_step id sample_sign)\<^sup>*\<^sup>* sample_world s'" by (rule r_into_rtranclp)
  from servers_stay_with_tenant [OF this sample_tenants] c show ?thesis by blast
qed


end
