(* ===== verification/LogStream.thy ===== *)
theory LogStream
  imports Players
begin

text \<open>
  The log stream of \<open>logs/logs.service.ts\<close>: cutting the uploaded chunks into lines, the
  keyword scan across chunk borders, retention, and reading the log back.  The service keeps
  one buffer per server in a \<open>Map\<close>, here a function with \<open>?? ''\<close> as its default.
\<close>

section \<open>Lines across chunks\<close>

text \<open>
  \<open>buffer + content\<close> is cut into lines; the last piece is not finished yet and waits in the
  buffer, at most the last 4096 characters of it.
\<close>

definition last_chars :: "nat \<Rightarrow> string \<Rightarrow> string" where
  "last_chars n s = drop (length s - n) s"

definition feed_lines :: "string \<Rightarrow> string \<Rightarrow> string list \<times> string" where
  "feed_lines buffer content = (let pieces = split_lines (buffer @ content)
     in (butlast pieces, last_chars 4096 (last pieces)))"

lemma split_lines_nonempty [simp]: "split_lines s \<noteq> []"
  by (induction s rule: split_lines.induct) (auto split: list.splits)

lemma split_lines_single: "split_lines s = [l] \<Longrightarrow> l = s"
  by (induction s arbitrary: l rule: split_lines.induct) (auto split: if_splits list.splits)

lemma split_lines_append: "split_lines (a @ b) = butlast (split_lines a) @ split_lines (last (split_lines a) @ b)"
proof (induction a rule: split_lines.induct)
  case 1
  then show ?case by simp
next
  case (2 c cs)
  show ?case
  proof (cases "c = CHR 0x0A")
    case True
    with 2(1) show ?thesis by simp
  next
    case False
    show ?thesis
    proof (cases "c = CHR 0x0D \<and> js_starts_with cs [CHR 0x0A]")
      case True
      then obtain r where "cs = CHR 0x0A # r" by (cases cs) auto
      with 2(2) [OF False True] True show ?thesis by simp
    next
      case no: False
      obtain l ls where sp: "split_lines cs = l # ls" by (cases "split_lines cs") auto
      show ?thesis
      proof (cases "cs = []")
        case True
        with False no show ?thesis by simp
      next
        case cs: False
        then have no': "\<not> (c = CHR 0x0D \<and> js_starts_with (cs @ b) [CHR 0x0A])"
          using no by (cases cs) auto
        show ?thesis
          using 2(3) [OF False no] False no no' sp split_lines_single [of cs l]
          by (cases ls) (auto split: list.splits)
      qed
    qed
  qed
qed

text \<open>What the line parsers share: \<open>.\<close> and the apostrophe of the patterns.\<close>

definition Dot :: re where
  "Dot = Cls (\<lambda>c. c \<noteq> CHR 0x0A \<and> c \<noteq> CHR 0x0D)"

definition quote :: string where "quote = [CHR 0x27]"

text \<open>A server's chunks one after the other: the lines they complete, and the buffer at the end.\<close>

fun feed_chunks :: "string \<Rightarrow> string list \<Rightarrow> string list \<times> string" where
  "feed_chunks buffer [] = ([], buffer)"
| "feed_chunks buffer (c # cs) = (let (ls, b) = feed_lines buffer c; (ls', b') = feed_chunks b cs in (ls @ ls', b'))"

fun lines_fit :: "string \<Rightarrow> string list \<Rightarrow> bool" where
  "lines_fit buffer [] = True"
| "lines_fit buffer (c # cs) = (length (last (split_lines (buffer @ c))) \<le> 4096 \<and> lines_fit (last (split_lines (buffer @ c))) cs)"

lemma last_chars_short [simp]: "length s \<le> n \<Longrightarrow> last_chars n s = s"
  by (simp add: last_chars_def)

lemma feed_chunks_concat:
  "lines_fit buffer cs \<Longrightarrow> cs \<noteq> [] \<Longrightarrow> feed_chunks buffer cs = feed_lines buffer (concat cs)"
proof (induction cs arbitrary: buffer)
  case Nil
  then show ?case by simp
next
  case (Cons c cs)
  let ?p = "split_lines (buffer @ c)"
  from Cons.prems have fit: "length (last ?p) \<le> 4096" "lines_fit (last ?p) cs" by simp_all
  show ?case
  proof (cases "cs = []")
    case True
    with fit show ?thesis by (simp add: feed_lines_def Let_def)
  next
    case False
    from Cons.IH [OF fit(2) False] have *: "feed_chunks (last ?p) cs = feed_lines (last ?p) (concat cs)" .
    have "split_lines (buffer @ c @ concat cs) = butlast ?p @ split_lines (last ?p @ concat cs)"
      using split_lines_append [of "buffer @ c" "concat cs"] by simp
    with fit(1) * show ?thesis by (simp add: feed_lines_def Let_def butlast_append last_append)
  qed
qed

section \<open>Keywords\<close>

text \<open>\<open>haystack.lastIndexOf(needle)\<close>: the greatest position, None for -1.\<close>

fun last_index :: "string \<Rightarrow> string \<Rightarrow> nat option" where
  "last_index [] needle = (if needle = [] then Some 0 else None)"
| "last_index (c # cs) needle = (case last_index cs needle of
     Some i \<Rightarrow> Some (Suc i) | None \<Rightarrow> if js_starts_with (c # cs) needle then Some 0 else None)"

record keyword_rule =
  kr_id :: id
  kr_name :: string
  kr_keyword :: string
  kr_caseSensitive :: bool

definition rule_keyword :: "id \<Rightarrow> alert_rule \<Rightarrow> keyword_rule option" where
  "rule_keyword sid r = (let c = ar_condition r; keyword = js_prop_string c ''keyword'' [] in
     if jget c ''type'' \<noteq> Some (JStr ''log_keyword'') \<or> jget c ''serverInstanceId'' \<noteq> Some (JStr sid) \<or> keyword = []
     then None
     else Some \<lparr>kr_id = ar_id r, kr_name = ar_name r, kr_keyword = keyword,
            kr_caseSensitive = truthy (jget c ''caseSensitive'')\<rparr>)"

text \<open>The match a chunk completes: where its last occurrence starts, when it ends inside the chunk.\<close>

definition keyword_hit :: "string \<Rightarrow> string \<Rightarrow> keyword_rule \<Rightarrow> nat option" where
  "keyword_hit prior content r =
    (let searchable = prior @ content;
         haystack = (if kr_caseSensitive r then searchable else js_lower searchable);
         needle = (if kr_caseSensitive r then kr_keyword r else js_lower (kr_keyword r))
     in case last_index haystack needle of
          None \<Rightarrow> None
        | Some index \<Rightarrow> if index + length needle \<le> length prior then None else Some index)"

definition keyword_excerpt :: "string \<Rightarrow> string \<Rightarrow> keyword_rule \<Rightarrow> nat \<Rightarrow> string" where
  "keyword_excerpt prior content r index =
    (let searchable = prior @ content; start = index - 180;
         stop = min (length searchable) (index + length (kr_keyword r) + 180)
     in take (stop - start) (drop start searchable))"

definition keyword_event :: "id \<Rightarrow> time \<Rightarrow> id \<Rightarrow> id \<Rightarrow> string \<Rightarrow> string \<Rightarrow> keyword_rule \<Rightarrow> nat \<Rightarrow> event" where
  "keyword_event eid now orgId sid prior content r index =
     \<lparr>ev_id = eid, ev_orgId = orgId, ev_sourceType = ''server_instance'', ev_sourceId = sid,
      ev_eventType = ''log_keyword_match'',
      ev_payload = Some (JObj [(''ruleId'', JStr (kr_id r)), (''ruleName'', JStr (kr_name r)),
        (''keyword'', JStr (kr_keyword r)), (''excerpt'', JStr (keyword_excerpt prior content r index))]),
      ev_createdAt = now\<rparr>"

definition add_event :: "event \<Rightarrow> store \<Rightarrow> store" where
  "add_event e s = s\<lparr>t_events := t_events s @ [e]\<rparr>"

text \<open>\<open>fresh\<close> draws the id of a new event row.\<close>

fun scan_rules ::
  "(store \<Rightarrow> id) \<Rightarrow> time \<Rightarrow> id \<Rightarrow> id \<Rightarrow> string \<Rightarrow> string \<Rightarrow> alert_rule list \<Rightarrow> store \<Rightarrow> store" where
  "scan_rules fresh now orgId sid prior content [] s = s"
| "scan_rules fresh now orgId sid prior content (x # xs) s = scan_rules fresh now orgId sid prior content xs
     (case rule_keyword sid x of
        None \<Rightarrow> s
      | Some r \<Rightarrow> (case keyword_hit prior content r of
          None \<Rightarrow> s
        | Some index \<Rightarrow> add_event (keyword_event (fresh s) now orgId sid prior content r index) s))"

definition match_keyword_alerts ::
  "(store \<Rightarrow> id) \<Rightarrow> (id \<Rightarrow> string) \<Rightarrow> store \<Rightarrow> time \<Rightarrow> id \<Rightarrow> id \<Rightarrow> string \<Rightarrow> (id \<Rightarrow> string) \<times> store" where
  "match_keyword_alerts fresh scanTails s now orgId sid content =
    (let prior = scanTails sid in
     (scanTails(sid := last_chars 256 (prior @ content)),
      scan_rules fresh now orgId sid prior content (filter (\<lambda>r. ar_orgId r = orgId \<and> ar_enabled r) (t_alertRules s)) s))"

subsection \<open>The rules\<close>

definition is_keyword_rule :: "alert_rule \<Rightarrow> bool" where
  "is_keyword_rule r \<longleftrightarrow> jget (ar_condition r) ''type'' = Some (JStr ''log_keyword'')"

definition list_keyword_rules :: "store \<Rightarrow> id \<Rightarrow> alert_rule list" where
  "list_keyword_rules s orgId = filter is_keyword_rule (list_rules s orgId)"

definition create_keyword_rule ::
  "id \<Rightarrow> store \<Rightarrow> time \<Rightarrow> id \<Rightarrow> id \<Rightarrow> string \<Rightarrow> bool option \<Rightarrow> (store \<times> alert_rule) result" where
  "create_keyword_rule new_id s now orgId sid keyword caseSensitive =
    (let clean = js_trim keyword in
     if clean = [] \<or> 200 < length clean then Inl (BadRequestException ''Keyword must contain 1-200 characters'')
     else if find_server_in_org s sid orgId = None then Inl (NotFoundException ''Server instance not found'')
     else Inr (create_rule s now new_id orgId (''Log: '' @ clean)
       (JObj [(''type'', JStr ''log_keyword''), (''serverInstanceId'', JStr sid), (''keyword'', JStr clean),
              (''caseSensitive'', JBool (caseSensitive = Some True))])
       (JObj [(''type'', JStr ''dashboard'')]) (Some True)))"

definition find_keyword_rule :: "store \<Rightarrow> id \<Rightarrow> id \<Rightarrow> alert_rule result" where
  "find_keyword_rule s orgId rid = (case find_rule s orgId rid of
     Some r \<Rightarrow> if is_keyword_rule r then Inr r else Inl (NotFoundException ''Keyword rule not found'')
   | None \<Rightarrow> Inl (NotFoundException ''Keyword rule not found''))"

definition set_keyword_rule_enabled :: "store \<Rightarrow> id \<Rightarrow> id \<Rightarrow> bool \<Rightarrow> store result" where
  "set_keyword_rule_enabled s orgId rid enabled = (case find_keyword_rule s orgId rid of
     Inl e \<Rightarrow> Inl e
   | Inr _ \<Rightarrow> Inr (s\<lparr>t_alertRules := update_where (\<lambda>r. ar_id r = rid) (\<lambda>r. r\<lparr>ar_enabled := enabled\<rparr>) (t_alertRules s)\<rparr>))"

definition delete_keyword_rule :: "store \<Rightarrow> id \<Rightarrow> id \<Rightarrow> store result" where
  "delete_keyword_rule s orgId rid = (case find_keyword_rule s orgId rid of
     Inl e \<Rightarrow> Inl e
   | Inr _ \<Rightarrow> Inr (s\<lparr>t_alertRules := delete_where (\<lambda>r. ar_id r = rid) (t_alertRules s)\<rparr>))"

subsection \<open>What the scan reports\<close>

lemma last_index_None: "needle \<noteq> [] \<Longrightarrow> last_index s needle = None \<Longrightarrow> \<not> js_starts_with (drop j s) needle"
proof (induction s needle arbitrary: j rule: last_index.induct)
  case (1 needle)
  then show ?case by (cases needle) auto
next
  case (2 c cs needle)
  then show ?case by (cases j) (auto split: option.splits if_splits)
qed

lemma last_index_Some:
  "needle \<noteq> [] \<Longrightarrow> last_index s needle = Some i \<Longrightarrow>
   js_starts_with (drop i s) needle \<and> (\<forall>j. i < j \<longrightarrow> \<not> js_starts_with (drop j s) needle)"
proof (induction s needle arbitrary: i rule: last_index.induct)
  case (1 needle)
  then show ?case by simp
next
  case (2 c cs needle)
  show ?case
  proof (cases "last_index cs needle")
    case None
    with 2(3) have "i = 0" "js_starts_with (c # cs) needle" by (auto split: if_splits)
    moreover have "\<not> js_starts_with (drop j (c # cs)) needle" if "0 < j" for j
      using last_index_None [OF 2(2) None, of "j - 1"] that by (cases j) simp_all
    ultimately show ?thesis by auto
  next
    case (Some k)
    with 2(3) have i: "i = Suc k" by simp
    from 2(1) [OF 2(2) Some] have k: "js_starts_with (drop k cs) needle" "\<forall>j. k < j \<longrightarrow> \<not> js_starts_with (drop j cs) needle"
      by blast+
    have "\<not> js_starts_with (drop j (c # cs)) needle" if "i < j" for j
      using k(2) that i by (cases j) auto
    with k(1) i show ?thesis by simp
  qed
qed

definition fold_case :: "keyword_rule \<Rightarrow> string \<Rightarrow> string" where
  "fold_case r s = (if kr_caseSensitive r then s else js_lower s)"

lemma fold_case_simps [simp]:
  "fold_case r (s @ t) = fold_case r s @ fold_case r t" "length (fold_case r s) = length s" "fold_case r s = [] \<longleftrightarrow> s = []"
  by (simp_all add: fold_case_def js_lower_append js_lower_def)

lemma fold_case_drop: "fold_case r (drop n s) = drop n (fold_case r s)"
  by (simp add: fold_case_def js_lower_def drop_map)

text \<open>The keyword of the rule occurs in the text with its end inside \<open>new\<close>.\<close>

definition completes :: "keyword_rule \<Rightarrow> string \<Rightarrow> string \<Rightarrow> bool" where
  "completes r old new \<longleftrightarrow> (\<exists>i. js_starts_with (drop i (fold_case r (old @ new))) (fold_case r (kr_keyword r)) \<and>
     length old < i + length (kr_keyword r))"

lemma keyword_hit_completes:
  assumes "kr_keyword r \<noteq> []"
  shows "keyword_hit prior content r \<noteq> None \<longleftrightarrow> completes r prior content"
proof -
  let ?h = "fold_case r (prior @ content)" and ?n = "fold_case r (kr_keyword r)"
  have n: "?n \<noteq> []" using assms by simp
  have hit: "keyword_hit prior content r = (case last_index ?h ?n of None \<Rightarrow> None
      | Some index \<Rightarrow> if index + length ?n \<le> length prior then None else Some index)"
    by (cases "kr_caseSensitive r") (simp_all add: keyword_hit_def Let_def fold_case_def split: option.split)
  show ?thesis
  proof (cases "last_index ?h ?n")
    case None
    with last_index_None [OF n None] show ?thesis by (auto simp: hit completes_def)
  next
    case (Some i)
    note l = last_index_Some [OF n Some]
    have "j \<le> i" if "js_starts_with (drop j ?h) ?n" for j
      using l that by (meson not_le)
    then show ?thesis
      using l Some unfolding hit completes_def by (auto simp del: fold_case_simps(1))
  qed
qed

lemma completes_tail:
  assumes "length (kr_keyword r) \<le> n"
  shows "completes r (last_chars n old) new \<longleftrightarrow> completes r old new"
proof -
  define u where "u = take (length old - n) (fold_case r old)"
  define p where "p = fold_case r (last_chars n old) @ fold_case r new"
  have split: "fold_case r (old @ new) = u @ p"
    by (simp add: u_def p_def fold_case_drop last_chars_def)
  have lens: "length u = length old - n" "length (last_chars n old) = length old - length u"
    by (simp_all add: u_def last_chars_def)
  have "js_starts_with (drop i (u @ p)) k \<and> length old < i + length (kr_keyword r) \<longleftrightarrow>
      length u \<le> i \<and> js_starts_with (drop (i - length u) p) k \<and>
      length (last_chars n old) < (i - length u) + length (kr_keyword r)" for i k
    using assms lens by (cases "length u \<le> i") auto
  then have "completes r old new \<longleftrightarrow> (\<exists>i. length u \<le> i \<and> js_starts_with (drop (i - length u) p) (fold_case r (kr_keyword r)) \<and>
      length (last_chars n old) < (i - length u) + length (kr_keyword r))"
    unfolding completes_def split by blast
  also have "\<dots> \<longleftrightarrow> (\<exists>j. js_starts_with (drop j p) (fold_case r (kr_keyword r)) \<and>
      length (last_chars n old) < j + length (kr_keyword r))"
    by (metis add_diff_cancel_left' le_add1 )
  finally show ?thesis by (simp add: completes_def p_def)
qed

lemma last_chars_append: "last_chars n (last_chars n s @ t) = last_chars n (s @ t)"
  by (cases "length s \<le> n") (auto simp: last_chars_def add.commute)

text \<open>The rules of a server that are live.\<close>

definition live_keywords :: "store \<Rightarrow> id \<Rightarrow> id \<Rightarrow> keyword_rule list" where
  "live_keywords s orgId sid = List.map_filter (rule_keyword sid)
     (filter (\<lambda>r. ar_orgId r = orgId \<and> ar_enabled r) (t_alertRules s))"

definition reported_rule :: "event \<Rightarrow> json option" where
  "reported_rule e = (case ev_payload e of None \<Rightarrow> None | Some p \<Rightarrow> jget p ''ruleId'')"

lemma rule_keyword_nonempty: "rule_keyword sid x = Some r \<Longrightarrow> kr_keyword r \<noteq> []"
  by (auto simp: rule_keyword_def Let_def split: if_splits)

lemma scan_rules_events:
  "\<exists>es. scan_rules fresh now oid sid prior content xs s = s\<lparr>t_events := t_events s @ es\<rparr> \<and>
    map reported_rule es = map (\<lambda>r. Some (JStr (kr_id r)))
      (filter (\<lambda>r. keyword_hit prior content r \<noteq> None) (List.map_filter (rule_keyword sid) xs)) \<and>
    (\<forall>e \<in> set es. ev_orgId e = oid \<and> ev_sourceId e = sid \<and> ev_eventType e = ''log_keyword_match'')"
proof (induction xs arbitrary: s)
  case Nil
  show ?case by (rule exI [of _ "[]"]) (simp add: List.map_filter_simps)
next
  case (Cons x xs)
  show ?case
  proof (cases "\<exists>r i. rule_keyword sid x = Some r \<and> keyword_hit prior content r = Some i")
    case False
    then have "scan_rules fresh now oid sid prior content (x # xs) s = scan_rules fresh now oid sid prior content xs s"
      by (auto split: option.splits)
    with Cons [of s] False show ?thesis by (auto simp: List.map_filter_simps split: option.splits)
  next
    case True
    then obtain r i where r: "rule_keyword sid x = Some r" "keyword_hit prior content r = Some i" by blast
    let ?e = "keyword_event (fresh s) now oid sid prior content r i"
    from Cons [of "add_event ?e s"] obtain es where
      es: "scan_rules fresh now oid sid prior content xs (add_event ?e s) = (add_event ?e s)\<lparr>t_events := t_events (add_event ?e s) @ es\<rparr>"
        "map reported_rule es = map (\<lambda>r. Some (JStr (kr_id r)))
          (filter (\<lambda>r. keyword_hit prior content r \<noteq> None) (List.map_filter (rule_keyword sid) xs))"
        "\<forall>e \<in> set es. ev_orgId e = oid \<and> ev_sourceId e = sid \<and> ev_eventType e = ''log_keyword_match''" by blast
    have "reported_rule ?e = Some (JStr (kr_id r))" "ev_orgId ?e = oid" "ev_sourceId ?e = sid"
      "ev_eventType ?e = ''log_keyword_match''" by (simp_all add: keyword_event_def reported_rule_def)
    then show ?thesis
      using r es by (intro exI [of _ "?e # es"]) (simp add: List.map_filter_simps add_event_def)
  qed
qed

section \<open>Retention\<close>

definition prune_recent :: "id \<Rightarrow> time \<Rightarrow> (id \<Rightarrow> time option) \<Rightarrow> bool" where
  "prune_recent orgId now lastPrune \<longleftrightarrow> now - (case lastPrune orgId of None \<Rightarrow> 0 | Some t \<Rightarrow> t) < 60000"

definition prune_admit :: "id \<Rightarrow> time \<Rightarrow> (id \<Rightarrow> time option) \<Rightarrow> (id \<Rightarrow> time option) \<times> bool" where
  "prune_admit orgId now lastPrune =
    (if prune_recent orgId now lastPrune then (lastPrune, False) else (lastPrune(orgId \<mapsto> now), True))"

definition retention_ms :: "org \<Rightarrow> int" where
  "retention_ms x = org_logRetentionDays x * 86400000"

definition prune :: "(id \<Rightarrow> time option) \<Rightarrow> store \<Rightarrow> time \<Rightarrow> id \<Rightarrow> (id \<Rightarrow> time option) \<times> store" where
  "prune lastPrune s now orgId =
    (let (lastPrune', due) = prune_admit orgId now lastPrune in
     (lastPrune', if \<not> due then s else (case find_org s orgId of
        None \<Rightarrow> s
      | Some x \<Rightarrow> s\<lparr>t_serverLogs := delete_where (\<lambda>l. log_orgId l = orgId \<and> log_createdAt l < now - retention_ms x)
          (t_serverLogs s)\<rparr>)))"

definition get_log_settings :: "store \<Rightarrow> id \<Rightarrow> int result" where
  "get_log_settings s orgId = (case find_org s orgId of
     None \<Rightarrow> Inl (NotFoundException ''Organization not found'') | Some x \<Rightarrow> Inr (org_logRetentionDays x))"

definition update_log_settings ::
  "(id \<Rightarrow> time option) \<Rightarrow> store \<Rightarrow> time \<Rightarrow> id \<Rightarrow> int \<Rightarrow> ((id \<Rightarrow> time option) \<times> store \<times> int) result" where
  "update_log_settings lastPrune s now orgId days =
    (if days \<notin> set [1, 7, 30] then Inl (BadRequestException ''Retention must be 1, 7, or 30 days'')
     else if find_org s orgId = None
     then Inl (Error ''An operation failed because it depends on one or more records that were required but not found.'')
     else
       let s1 = s\<lparr>t_orgs := update_where (\<lambda>x. org_id x = orgId) (\<lambda>x. x\<lparr>org_logRetentionDays := days\<rparr>) (t_orgs s)\<rparr>;
           (lastPrune', s2) = prune (lastPrune(orgId := None)) s1 now orgId
       in Inr (lastPrune', s2, days))"

section \<open>Reading the log\<close>

text \<open>\<open>limit || dflt\<close>, between one and \<open>mx\<close>.\<close>

definition page_size :: "int \<Rightarrow> int \<Rightarrow> int option \<Rightarrow> nat" where
  "page_size dflt mx limit =
     nat (min mx (max 1 (case limit of None \<Rightarrow> dflt | Some n \<Rightarrow> if n = 0 then dflt else n)))"

definition log_le :: "server_log \<Rightarrow> server_log \<Rightarrow> bool" where
  "log_le a b \<longleftrightarrow> log_createdAt a < log_createdAt b \<or> log_createdAt a = log_createdAt b \<and> string_le (log_id a) (log_id b)"

fun insert_log :: "server_log \<Rightarrow> server_log list \<Rightarrow> server_log list" where
  "insert_log x [] = [x]"
| "insert_log x (y # ys) = (if log_le x y then x # y # ys else y # insert_log x ys)"

text \<open>A query parameter that is set and not empty.\<close>

definition non_blank :: "id option \<Rightarrow> id option" where
  "non_blank v = (case v of None \<Rightarrow> None | Some x \<Rightarrow> if x = [] then None else Some x)"

definition visible_log :: "id \<Rightarrow> id option \<Rightarrow> server_log \<Rightarrow> bool" where
  "visible_log orgId sid l \<longleftrightarrow> log_orgId l = orgId \<and> (case non_blank sid of None \<Rightarrow> True | Some i \<Rightarrow> log_serverInstanceId l = i)"

text \<open>The newest rows, oldest first, or the page after a row the caller has.\<close>

definition list_logs :: "store \<Rightarrow> id \<Rightarrow> id option \<Rightarrow> int option \<Rightarrow> id option \<Rightarrow> server_log list" where
  "list_logs s orgId sid limit afterId =
    (let take_n = page_size 250 1000 limit;
         rows = filter (visible_log orgId sid) (t_serverLogs s);
         newest = drop (length rows - take_n) rows
     in case non_blank afterId of
          None \<Rightarrow> newest
        | Some after \<Rightarrow> (case List.find (\<lambda>l. log_id l = after) rows of
            None \<Rightarrow> newest
          | Some cursor \<Rightarrow> take take_n (foldr insert_log
              (filter (\<lambda>l. log_createdAt cursor \<le> log_createdAt l \<and> log_id l \<noteq> after) rows) [])))"

definition list_keyword_matches :: "store \<Rightarrow> id \<Rightarrow> id option \<Rightarrow> event list" where
  "list_keyword_matches s orgId sid =
     take 50 (rev (filter (\<lambda>e. ev_orgId e = orgId \<and> ev_eventType e = ''log_keyword_match'' \<and>
       (case non_blank sid of None \<Rightarrow> True | Some i \<Rightarrow> ev_sourceId e = i)) (t_events s)))"

section \<open>Lemmas\<close>

interpretation pruning: throttle prune_admit "\<lambda>k. k" prune_recent 60000
proof unfold_locales
  fix k k' :: id and t u :: time and m :: "id \<Rightarrow> time option"
  show "\<not> snd (prune_admit k t m)" if "prune_recent k t m"
    using that by (simp add: prune_admit_def)
  show "prune_recent k u (fst (prune_admit k t m))" if "snd (prune_admit k t m)" "t \<le> u" "u - t < 60000"
    using that by (auto simp: prune_admit_def prune_recent_def split: if_splits)
  show "prune_recent k' u (fst (prune_admit k t m))" if "t \<le> u" "prune_recent k' u m"
    using that by (auto simp: prune_admit_def prune_recent_def split: if_splits option.splits)
qed

lemma set_insert_log [simp]: "set (insert_log x ys) = insert x (set ys)"
  by (induction ys) auto

lemma log_le_trans: "log_le a b \<Longrightarrow> log_le b c \<Longrightarrow> log_le a c"
  by (auto simp: log_le_def dest: string_le_trans)

lemma log_le_total: "log_le a b \<or> log_le b a"
  using string_le_total [of "log_id a" "log_id b"] by (auto simp: log_le_def)

lemma sorted_insert_log: "sorted_wrt log_le ys \<Longrightarrow> sorted_wrt log_le (insert_log x ys)"
proof (induction ys)
  case Nil
  then show ?case by simp
next
  case (Cons y ys)
  then show ?case
    using log_le_total [of x y] by (auto intro: log_le_trans)
qed

lemma sort_logs: "set (foldr insert_log xs []) = set xs \<and> sorted_wrt log_le (foldr insert_log xs [])"
  by (induction xs) (auto intro: sorted_insert_log)

section \<open>Properties\<close>

text \<open>
  C13. The keyword scan misses nothing and reports nothing twice: however the log is cut into
  chunks, with the tail kept of everything before, a chunk produces one match event for each
  live rule of the server whose keyword occurs in the stream with its end inside this chunk -
  occurrences across chunk borders included - and no other, and the tail stays right.
\<close>

theorem keyword_scan_exact:
  assumes "scanTails sid = last_chars 256 old" and "\<And>r. r \<in> set (live_keywords s oid sid) \<Longrightarrow> length (kr_keyword r) \<le> 256"
    and "match_keyword_alerts fresh scanTails s now oid sid content = (scanTails', s')"
  shows "scanTails' sid = last_chars 256 (old @ content) \<and>
    (\<exists>es. s' = s\<lparr>t_events := t_events s @ es\<rparr> \<and>
       map reported_rule es = map (\<lambda>r. Some (JStr (kr_id r))) (filter (\<lambda>r. completes r old content) (live_keywords s oid sid)) \<and>
       (\<forall>e \<in> set es. ev_orgId e = oid \<and> ev_sourceId e = sid \<and> ev_eventType e = ''log_keyword_match''))"
proof -
  let ?prior = "last_chars 256 old" and ?rules = "filter (\<lambda>r. ar_orgId r = oid \<and> ar_enabled r) (t_alertRules s)"
  have s': "s' = scan_rules fresh now oid sid ?prior content ?rules s"
    and tails: "scanTails' sid = last_chars 256 (?prior @ content)"
    using assms(1,3) by (auto simp: match_keyword_alerts_def Let_def)
  have "keyword_hit ?prior content r \<noteq> None \<longleftrightarrow> completes r old content" if "r \<in> set (live_keywords s oid sid)" for r
  proof -
    from that have "kr_keyword r \<noteq> []"
      by (auto simp: live_keywords_def List.map_filter_def dest: rule_keyword_nonempty)
    from keyword_hit_completes [OF this] completes_tail [OF assms(2) [OF that]] show ?thesis by simp
  qed
  then have "filter (\<lambda>r. keyword_hit ?prior content r \<noteq> None) (live_keywords s oid sid) =
      filter (\<lambda>r. completes r old content) (live_keywords s oid sid)"
    by (intro filter_cong) auto
  with scan_rules_events [of fresh now oid sid ?prior content ?rules s] tails show ?thesis
    unfolding s' live_keywords_def [symmetric] by (simp add: last_chars_append)
qed

text \<open>
  Chunk borders do not change what is parsed: as long as no unfinished line is longer than
  4096 characters, the lines completed by a sequence of chunks, and the unfinished rest, are
  those of the concatenated chunks - line breaks of two characters cut in the middle included.
\<close>

theorem chunks_parse_as_one:
  assumes "lines_fit buffer cs" and "cs \<noteq> []"
  shows "feed_chunks buffer cs = feed_lines buffer (concat cs)"
  by (rule feed_chunks_concat [OF assms])

text \<open>
  Paging forward skips nothing: the page after a row holds, in the order of time and id,
  the first of the organisation's rows that are not older than the row (the row itself left
  out), as many as the limit admits.
\<close>

theorem log_page_complete:
  assumes "List.find (\<lambda>l. log_id l = after) (filter (visible_log oid sid) (t_serverLogs s)) = Some cursor" and "after \<noteq> []"
  shows "\<exists>rest. set (list_logs s oid sid limit (Some after) @ rest) =
      {l \<in> set (t_serverLogs s). visible_log oid sid l \<and> log_createdAt cursor \<le> log_createdAt l \<and> log_id l \<noteq> after} \<and>
    sorted_wrt log_le (list_logs s oid sid limit (Some after) @ rest) \<and>
    (rest \<noteq> [] \<longrightarrow> length (list_logs s oid sid limit (Some after)) = page_size 250 1000 limit)"
proof -
  let ?later = "filter (\<lambda>l. log_createdAt cursor \<le> log_createdAt l \<and> log_id l \<noteq> after) (filter (visible_log oid sid) (t_serverLogs s))"
  let ?sorted = "foldr insert_log ?later []" and ?n = "page_size 250 1000 limit"
  have page: "list_logs s oid sid limit (Some after) = take ?n ?sorted"
    using assms by (simp add: list_logs_def Let_def non_blank_def)
  show ?thesis
    unfolding page using sort_logs [of ?later] by (intro exI [of _ "drop ?n ?sorted"]) auto
qed

text \<open>Concrete runs: a keyword cut by a chunk border, a line break cut in the middle, a page.\<close>

definition sample_keyword_world :: store where
  "sample_keyword_world = sample_world\<lparr>t_alertRules := [\<lparr>ar_id = ''k'', ar_orgId = ''o'', ar_name = ''Log: zeus'',
     ar_condition = JObj [(''type'', JStr ''log_keyword''), (''serverInstanceId'', JStr ''s''), (''keyword'', JStr ''zeus'')],
     ar_channel = JObj [], ar_enabled = True, ar_createdAt = 0\<rparr>],
     t_serverLogs := [\<lparr>log_id = ''b'', log_orgId = ''o'', log_serverInstanceId = ''s'', log_content = ''1'', log_createdAt = 5\<rparr>,
       \<lparr>log_id = ''a'', log_orgId = ''o'', log_serverInstanceId = ''s'', log_content = ''2'', log_createdAt = 5\<rparr>,
       \<lparr>log_id = ''c'', log_orgId = ''o'', log_serverInstanceId = ''s'', log_content = ''3'', log_createdAt = 9\<rparr>]\<rparr>"

lemma sample_live_keywords: "live_keywords sample_keyword_world ''o'' ''s'' =
    [\<lparr>kr_id = ''k'', kr_name = ''Log: zeus'', kr_keyword = ''zeus'', kr_caseSensitive = False\<rparr>]"
  by (simp add: live_keywords_def sample_keyword_world_def List.map_filter_simps rule_keyword_def js_prop_string_def truthy_def Let_def)

lemma sample_completes: "completes \<lparr>kr_id = ''k'', kr_name = ''Log: zeus'', kr_keyword = ''zeus'', kr_caseSensitive = False\<rparr> ''x Ze'' ''US y''"
proof -
  have "js_lower ''x ZeUS y'' = ''x zeus y''" "js_lower ''zeus'' = ''zeus''" by code_simp+
  then show ?thesis
    unfolding completes_def by (intro exI [of _ 2]) (simp add: fold_case_def)
qed

theorem keyword_scan_exact_witness:
  "\<exists>tails' s'. match_keyword_alerts (\<lambda>_. ''e'') (\<lambda>_. ''x Ze'') sample_keyword_world 7 ''o'' ''s'' ''US y'' = (tails', s') \<and>
     tails' ''s'' = ''x ZeUS y'' \<and> map reported_rule (t_events s') = [Some (JStr ''k'')]"
proof -
  obtain tails' s' where m: "match_keyword_alerts (\<lambda>_. ''e'') (\<lambda>_. ''x Ze'') sample_keyword_world 7 ''o'' ''s'' ''US y'' = (tails', s')"
    by fastforce
  have "(\<lambda>_. ''x Ze'') ''s'' = last_chars 256 ''x Ze''" by simp
  from keyword_scan_exact [OF this _ m] have "tails' ''s'' = last_chars 256 (''x Ze'' @ ''US y'') \<and>
      (\<exists>es. s' = sample_keyword_world\<lparr>t_events := t_events sample_keyword_world @ es\<rparr> \<and>
       map reported_rule es = [Some (JStr ''k'')])"
    by (auto simp: sample_live_keywords sample_completes)
  then show ?thesis using m by (auto simp: sample_keyword_world_def sample_world_def empty_store_def)
qed

theorem chunks_parse_as_one_witness:
  "feed_chunks [] [''ab'' @ [CHR 0x0D], CHR 0x0A # ''c'', ''d'' @ [CHR 0x0A]] = ([''ab'', ''cd''], [])"
proof -
  have "lines_fit [] [''ab'' @ [CHR 0x0D], CHR 0x0A # ''c'', ''d'' @ [CHR 0x0A]]" by simp
  from chunks_parse_as_one [OF this] show ?thesis by (simp add: feed_lines_def Let_def last_chars_def)
qed

theorem log_page_complete_witness:
  "map log_id (list_logs sample_keyword_world ''o'' (Some ''s'') (Some 1) (Some ''b'')) = [''a''] \<and>
   (\<exists>rest. sorted_wrt log_le (list_logs sample_keyword_world ''o'' (Some ''s'') (Some 1) (Some ''b'') @ rest) \<and> (\<exists>l \<in> set rest. log_id l = ''c''))"
proof -
  let ?l = "\<lambda>i c t. \<lparr>log_id = i, log_orgId = ''o'', log_serverInstanceId = ''s'', log_content = c, log_createdAt = t\<rparr>"
  have "List.find (\<lambda>l. log_id l = ''b'') (filter (visible_log ''o'' (Some ''s'')) (t_serverLogs sample_keyword_world)) = Some (?l ''b'' ''1'' 5)"
    by (simp add: sample_keyword_world_def visible_log_def non_blank_def)
  from log_page_complete [OF this, of "Some 1"] obtain rest where
    r: "set (list_logs sample_keyword_world ''o'' (Some ''s'') (Some 1) (Some ''b'') @ rest) =
      {l \<in> set (t_serverLogs sample_keyword_world). visible_log ''o'' (Some ''s'') l \<and> 5 \<le> log_createdAt l \<and> log_id l \<noteq> ''b''}"
      "sorted_wrt log_le (list_logs sample_keyword_world ''o'' (Some ''s'') (Some 1) (Some ''b'') @ rest)"
    by auto
  have l: "list_logs sample_keyword_world ''o'' (Some ''s'') (Some 1) (Some ''b'') = [?l ''a'' ''2'' 5]"
    by (simp add: list_logs_def non_blank_def page_size_def visible_log_def sample_keyword_world_def Let_def log_le_def)
  have "?l ''c'' ''3'' 9 \<in> set ([?l ''a'' ''2'' 5] @ rest)"
    unfolding r(1) [unfolded l] by (simp add: sample_keyword_world_def visible_log_def non_blank_def)
  then have "?l ''c'' ''3'' 9 \<in> set rest" by simp
  then have "\<exists>x \<in> set rest. log_id x = ''c''" by (rule rev_bexI) simp
  with r(2) show ?thesis unfolding l by auto
qed

end
