(* ===== verification/Chat.thy ===== *)
theory Chat
  imports LogStream SampleWorld
begin

text \<open>
  The chat of the log stream (\<open>logs/logs.service.ts\<close>): parsing, the transcript, moderation with
  its settings, muting, the relay to Discord and its retries.  Moderation settings are the JSON
  object the service keeps in the condition of an alert rule; keys the callers send beyond the
  known ones are spread into it as in the source.
\<close>

record chat_mem =
  cm_buffers :: "id \<Rightarrow> string"
  cm_samples :: "string \<Rightarrow> time list"
  cm_cooldown :: "string \<Rightarrow> time option"
  cm_alerts :: alerts_mem

record chat_env =
  ce_post :: post_fun
  ce_fresh_event :: "store \<Rightarrow> id"
  ce_job_ids :: "store \<Rightarrow> job_ids"

section \<open>Moderation settings\<close>

type_synonym settings = "(string \<times> json) list"

definition moderation_defaults :: settings where
  "moderation_defaults = [(''enabled'', JBool False), (''badWordRules'', JArr []), (''badWords'', JArr []),
     (''badWordAction'', JStr ''warn''), (''floodEnabled'', JBool True), (''floodMessages'', JNum 5),
     (''floodWindowSeconds'', JNum 10), (''floodAction'', JStr ''kick''), (''mutedPlayers'', JArr [])]"

definition moderation_action :: "json option \<Rightarrow> json \<Rightarrow> json" where
  "moderation_action v fallback = (case v of None \<Rightarrow> fallback
     | Some x \<Rightarrow> if js_string x \<in> set [''log'', ''warn'', ''kick''] then x else fallback)"

definition rule_record :: "json \<Rightarrow> json" where
  "rule_record item = (case item of JObj _ \<Rightarrow> item | JArr _ \<Rightarrow> item | _ \<Rightarrow> JObj [(''word'', item)])"

text \<open>\<open>seen\<close> holds the words taken so far; the two hundredth ends the loop.\<close>

fun clean_rules :: "json \<Rightarrow> string list \<Rightarrow> json list \<Rightarrow> (string \<times> json) list" where
  "clean_rules fallback seen [] = []"
| "clean_rules fallback seen (item # items) =
    (let r = rule_record item; word = js_lower (js_trim (js_prop_string r ''word'' []))
     in if word = [] \<or> 80 < length word \<or> word \<in> set seen then clean_rules fallback seen items
        else (word, moderation_action (jget r ''action'') fallback) #
          (if Suc (length seen) = 200 then [] else clean_rules fallback (word # seen) items))"

definition clean_bad_word_rules :: "json option \<Rightarrow> json \<Rightarrow> (string \<times> json) list" where
  "clean_bad_word_rules v fallback = (case v of Some (JArr items) \<Rightarrow> clean_rules fallback [] items | _ \<Rightarrow> [])"

definition rules_json :: "(string \<times> json) list \<Rightarrow> json" where
  "rules_json rs = JArr (map (\<lambda>(w, a). JObj [(''word'', JStr w), (''action'', a)]) rs)"

definition words_json :: "(string \<times> json) list \<Rightarrow> json" where
  "words_json rs = JArr (map (\<lambda>(w, a). JStr w) rs)"

definition is_moderation_rule :: "id \<Rightarrow> id \<Rightarrow> alert_rule \<Rightarrow> bool" where
  "is_moderation_rule orgId sid r \<longleftrightarrow> ar_orgId r = orgId \<and>
     jget (ar_condition r) ''type'' = Some (JStr ''chat_moderation'') \<and>
     jget (ar_condition r) ''serverInstanceId'' = Some (JStr sid)"

definition condition_fields :: "json \<Rightarrow> settings" where
  "condition_fields c = (case c of JObj kvs \<Rightarrow> kvs | _ \<Rightarrow> [])"

definition array_or_none :: "json option \<Rightarrow> json option" where
  "array_or_none v = (case v of Some (JArr xs) \<Rightarrow> Some (JArr xs) | _ \<Rightarrow> None)"

definition get_chat_moderation :: "store \<Rightarrow> id \<Rightarrow> id \<Rightarrow> settings" where
  "get_chat_moderation s orgId sid = (case List.find (is_moderation_rule orgId sid) (t_alertRules s) of
     None \<Rightarrow> moderation_defaults
   | Some rule \<Rightarrow>
       let condition = condition_fields (ar_condition rule);
           legacyAction = moderation_action (map_of condition ''badWordAction'') (JStr ''warn'');
           rules = clean_bad_word_rules (or_else (array_or_none (map_of condition ''badWordRules''))
                     (array_or_none (map_of condition ''badWords''))) legacyAction
       in jspread (jspread moderation_defaults condition)
            [(''enabled'', JBool (ar_enabled rule)), (''badWordRules'', rules_json rules), (''badWords'', words_json rules),
             (''badWordAction'', legacyAction),
             (''mutedPlayers'', case array_or_none (map_of condition ''mutedPlayers'') of Some v \<Rightarrow> v | None \<Rightarrow> JArr [])])"

text \<open>\<open>a ?? b\<close> on properties; \<open>Math.min(hi, Math.max(lo, Number(v)))\<close>, where NaN is stored as null.\<close>

definition nullish :: "json option \<Rightarrow> json option" where
  "nullish v = (case v of Some JNull \<Rightarrow> None | _ \<Rightarrow> v)"

definition clamp_number :: "int \<Rightarrow> int \<Rightarrow> json option \<Rightarrow> json" where
  "clamp_number lo hi v = (case v of None \<Rightarrow> JNull | Some x \<Rightarrow> (case js_int x of
     None \<Rightarrow> JNull | Some n \<Rightarrow> JNum (min hi (max lo n))))"

definition known :: "settings \<Rightarrow> string \<Rightarrow> json" where
  "known cfg k = (case map_of cfg k of None \<Rightarrow> JNull | Some v \<Rightarrow> v)"

definition merged_moderation :: "settings \<Rightarrow> settings \<Rightarrow> settings" where
  "merged_moderation current input =
    (let pick = (\<lambda>k. or_else (nullish (map_of input k)) (map_of current k));
         legacyAction = moderation_action (pick ''badWordAction'') (JStr ''warn'');
         requested = or_else (map_of input ''badWordRules'') (or_else (map_of input ''badWords'') (map_of current ''badWordRules''));
         rules = clean_bad_word_rules requested legacyAction
     in jspread (jspread current input)
          [(''badWordRules'', rules_json rules), (''badWords'', words_json rules), (''badWordAction'', legacyAction),
           (''floodAction'', moderation_action (pick ''floodAction'') (known current ''floodAction'')),
           (''floodMessages'', clamp_number 2 30 (pick ''floodMessages'')),
           (''floodWindowSeconds'', clamp_number 2 300 (pick ''floodWindowSeconds''))])"

text \<open>A value of \<open>enabled\<close> that is no boolean is refused by the database client.\<close>

definition update_chat_moderation ::
  "id \<Rightarrow> store \<Rightarrow> time \<Rightarrow> id \<Rightarrow> id \<Rightarrow> settings \<Rightarrow> (store \<times> settings) result" where
  "update_chat_moderation new_id s now orgId sid input = (case find_server_in_org s sid orgId of
     None \<Rightarrow> Inl (NotFoundException ''Server instance not found'')
   | Some server \<Rightarrow>
       let settings = merged_moderation (get_chat_moderation s orgId sid) input;
           name = ''Chat moderation: '' @ si_name server;
           condition = JObj (jspread [(''type'', JStr ''chat_moderation''), (''serverInstanceId'', JStr sid)] settings);
           channel = JObj [(''type'', JStr ''dashboard'')]
       in case known settings ''enabled'' of
            JBool enabled \<Rightarrow> Inr (case List.find (is_moderation_rule orgId sid) (t_alertRules s) of
                Some existing \<Rightarrow> s\<lparr>t_alertRules := update_where (\<lambda>r. ar_id r = ar_id existing)
                    (\<lambda>r. r\<lparr>ar_name := name, ar_enabled := enabled, ar_condition := condition, ar_channel := channel\<rparr>) (t_alertRules s)\<rparr>
              | None \<Rightarrow> fst (create_rule s now new_id orgId name condition channel (Some enabled)), settings)
          | _ \<Rightarrow> Inl (Error ''Argument `enabled`: Invalid value provided.''))"

definition muted_entry :: "string \<Rightarrow> string \<Rightarrow> time \<Rightarrow> json" where
  "muted_entry playerId playerName now = JObj [(''playerId'', JStr playerId),
     (''playerName'', JStr (let n = take 128 (js_trim playerName) in if n = [] then playerId else n)),
     (''createdAt'', JStr (iso_string now))]"

definition array_items :: "json \<Rightarrow> json list" where
  "array_items v = (case v of JArr xs \<Rightarrow> xs | _ \<Rightarrow> [])"

text \<open>Reading \<open>playerId\<close> of a null entry throws.\<close>

definition set_player_muted ::
  "id \<Rightarrow> store \<Rightarrow> time \<Rightarrow> id \<Rightarrow> id \<Rightarrow> string \<Rightarrow> string \<Rightarrow> bool \<Rightarrow> (store \<times> settings) result" where
  "set_player_muted new_id s now orgId sid playerId playerName muted =
    (let current = get_chat_moderation s orgId sid; cleanId = take 128 (js_trim playerId);
         entries = array_items (known current ''mutedPlayers'') in
     if cleanId = [] then Inl (BadRequestException ''Player ID required'')
     else if JNull \<in> set entries then Inl (Error ''Cannot read properties of null (reading 'playerId')'')
     else update_chat_moderation new_id s now orgId sid (jput current ''mutedPlayers''
       (JArr (filter (\<lambda>p. jget p ''playerId'' \<noteq> Some (JStr cleanId)) entries @
         (if muted then [muted_entry cleanId playerName now] else [])))))"

section \<open>Moderation of a message\<close>

text \<open>\<open>mutedPlayers.some(p => p.playerId === playerId)\<close>: None when it throws.\<close>

fun muted_scan :: "string \<Rightarrow> json list \<Rightarrow> bool option" where
  "muted_scan playerId [] = Some False"
| "muted_scan playerId (p # ps) =
    (if p = JNull then None else if jget p ''playerId'' = Some (JStr playerId) then Some True else muted_scan playerId ps)"

definition bad_word :: "settings \<Rightarrow> string \<Rightarrow> (string \<times> json) option" where
  "bad_word cfg message = List.find (\<lambda>(w, a). js_includes (js_lower message) w)
     (map (\<lambda>r. (js_prop_string r ''word'' [], case jget r ''action'' of None \<Rightarrow> JNull | Some a \<Rightarrow> a))
       (array_items (known cfg ''badWordRules'')))"

definition chat_key :: "id \<Rightarrow> string \<Rightarrow> string" where
  "chat_key sid playerId = sid @ '':'' @ playerId"

definition flood_samples :: "settings \<Rightarrow> time \<Rightarrow> time list \<Rightarrow> time list" where
  "flood_samples cfg now samples = (case js_int (known cfg ''floodWindowSeconds'') of
     None \<Rightarrow> [] | Some w \<Rightarrow> filter (\<lambda>t. now - w * 1000 \<le> t) samples) @ [now]"

definition flooding :: "settings \<Rightarrow> time list \<Rightarrow> bool" where
  "flooding cfg samples \<longleftrightarrow> truthy (Some (known cfg ''floodEnabled'')) \<and>
     (case js_int (known cfg ''floodMessages'') of None \<Rightarrow> False | Some n \<Rightarrow> n < int (length samples))"

text \<open>The reason and the action, None when the message passes.\<close>

definition moderation_verdict :: "settings \<Rightarrow> bool \<Rightarrow> time list \<Rightarrow> string \<Rightarrow> (string \<times> json) option" where
  "moderation_verdict cfg muted samples message =
    (if muted then Some (''Player is muted'', JStr ''kick'')
     else (case bad_word cfg message of
       Some (word, action) \<Rightarrow> Some (''Blocked word: '' @ word, action)
     | None \<Rightarrow> if flooding cfg samples then Some (''Chat flooding'', known cfg ''floodAction'') else None))"

definition unquoted :: "string \<Rightarrow> string" where
  "unquoted = filter (\<lambda>c. c \<noteq> CHR 0x22 \<and> c \<noteq> CHR 0x5C)"

definition id_char :: "char \<Rightarrow> bool" where
  "id_char c \<longleftrightarrow> (let n = of_char c :: nat in 48 \<le> n \<and> n \<le> 57 \<or> 65 \<le> n \<and> n \<le> 90 \<or> 97 \<le> n \<and> n \<le> 122 \<or> c \<in> set ''_:-'')"

definition moderation_command :: "string \<Rightarrow> string \<Rightarrow> string \<Rightarrow> json \<Rightarrow> string" where
  "moderation_command playerId playerName reason action =
    (if action = JStr ''warn'' then ''say '' @ [CHR 0x22] @ unquoted playerName @ '' warning: '' @ reason @ [CHR 0x22]
     else ''kick '' @ filter id_char playerId @ '' '' @ [CHR 0x22] @ ''Chat moderation: '' @ unquoted reason @ [CHR 0x22])"

definition enqueue_moderation_command :: "chat_env \<Rightarrow> store \<Rightarrow> time \<Rightarrow> id \<Rightarrow> id \<Rightarrow> string \<Rightarrow> store" where
  "enqueue_moderation_command env s now orgId sid command = (case find_server_in_org s sid orgId of
     None \<Rightarrow> s
   | Some server \<Rightarrow> insert_job (ce_job_ids env s) s now orgId None server ''RCON''
       (JObj (server_fields s server @ [(''command'', JStr command)])))"

definition command_blocked :: "string \<Rightarrow> time \<Rightarrow> (string \<Rightarrow> time option) \<Rightarrow> bool" where
  "command_blocked key now cooldown \<longleftrightarrow> now \<le> (case cooldown key of None \<Rightarrow> 0 | Some t \<Rightarrow> t)"

definition admit_command :: "string \<Rightarrow> time \<Rightarrow> (string \<Rightarrow> time option) \<Rightarrow> (string \<Rightarrow> time option) \<times> bool" where
  "admit_command key now cooldown =
    (if command_blocked key now cooldown then (cooldown, False) else (cooldown(key \<mapsto> now + 5000), True))"

definition chat_event :: "id \<Rightarrow> time \<Rightarrow> id \<Rightarrow> id \<Rightarrow> string \<Rightarrow> (string \<times> json) list \<Rightarrow> event" where
  "chat_event eid now orgId sid ty payload = \<lparr>ev_id = eid, ev_orgId = orgId, ev_sourceType = ''server_instance'',
     ev_sourceId = sid, ev_eventType = ty, ev_payload = Some (JObj payload), ev_createdAt = now\<rparr>"

definition moderate_chat ::
  "chat_env \<Rightarrow> chat_mem \<Rightarrow> store \<Rightarrow> time \<Rightarrow> id \<Rightarrow> id \<Rightarrow> string \<Rightarrow> string \<Rightarrow> string \<Rightarrow> chat_mem \<times> store \<times> bool" where
  "moderate_chat env mem s now orgId sid playerId playerName message =
    (let cfg = get_chat_moderation s orgId sid in
     if \<not> truthy (Some (known cfg ''enabled'')) then (mem, s, False)
     else
       let key = chat_key sid playerId;
           samples = flood_samples cfg now (cm_samples mem key);
           mem1 = mem\<lparr>cm_samples := (cm_samples mem)(key := samples)\<rparr>
       in case muted_scan playerId (array_items (known cfg ''mutedPlayers'')) of
            None \<Rightarrow> (mem1, s, False)
          | Some muted \<Rightarrow> (case moderation_verdict cfg muted samples message of
              None \<Rightarrow> (mem1, s, False)
            | Some (reason, action) \<Rightarrow>
                let s1 = add_event (chat_event (ce_fresh_event env s) now orgId sid ''chat_moderation_action''
                      [(''playerId'', JStr playerId), (''playerName'', JStr playerName), (''message'', JStr message),
                       (''reason'', JStr reason), (''action'', action)]) s
                in if action = JStr ''log'' then (mem1, s1, True)
                   else (case admit_command key now (cm_cooldown mem1) of (cooldown, go) \<Rightarrow>
                     (mem1\<lparr>cm_cooldown := cooldown\<rparr>,
                      if go then enqueue_moderation_command env s1 now orgId sid
                          (moderation_command playerId playerName reason action) else s1,
                      True))))"

section \<open>The transcript\<close>

definition player_chat_re :: re where
  "player_chat_re = Seqs [WordB, lit (''Chat (from '' @ quote), Group 1 (Plus (NotIn quote)),
     lit (quote @ '', entity id '' @ quote), Group 2 (Plus (NotIn quote)), lit (quote @ '', to '' @ quote),
     Group 3 (Plus (NotIn quote)), lit (quote @ ''): '' @ quote), Group 4 (Star Dot), lit (quote @ '': ''),
     Group 5 (Star Dot), Eol]"

definition server_chat_re :: re where
  "server_chat_re = Seqs [WordB, lit (''Chat (from '' @ quote @ ''-non-player-'' @ quote @ '', entity id '' @ quote @ ''-1'' @
     quote @ '', to '' @ quote), Group 1 (Plus (NotIn quote)), lit (quote @ ''): ''), Group 2 (Star Dot), Eol]"

record chat_line =
  cl_isServer :: bool
  cl_playerId :: string
  cl_entityId :: string
  cl_channel :: string
  cl_playerName :: string
  cl_message :: string
  cl_logTimestamp :: string

definition printable :: "char \<Rightarrow> bool" where
  "printable c \<longleftrightarrow> (let n = of_char c :: nat in \<not> (n \<le> 8 \<or> n = 11 \<or> n = 12 \<or> 14 \<le> n \<and> n \<le> 31 \<or> n = 127))"

definition group_or_empty :: "captures \<Rightarrow> nat \<Rightarrow> string" where
  "group_or_empty caps i = (case map_of caps i of None \<Rightarrow> [] | Some t \<Rightarrow> t)"

definition parse_chat_line :: "string \<Rightarrow> chat_line option" where
  "parse_chat_line line =
    (let raw = (case re_match server_chat_re line of
           Some c \<Rightarrow> Some (True, ''-non-player-'', ''-1'', group_or_empty c 1, ''Server'', group_or_empty c 2)
         | None \<Rightarrow> (case re_match player_chat_re line of
             Some c \<Rightarrow> Some (False, group_or_empty c 1, group_or_empty c 2, group_or_empty c 3, group_or_empty c 4, group_or_empty c 5)
           | None \<Rightarrow> None))
     in case raw of
          None \<Rightarrow> None
        | Some (isServer, playerId, entityId, channel, rawName, rawMessage) \<Rightarrow>
            let playerName = take 128 (js_trim rawName); message = take 2000 (js_trim (filter printable rawMessage))
            in if playerName = [] \<or> message = [] then None
               else Some \<lparr>cl_isServer = isServer, cl_playerId = playerId, cl_entityId = entityId, cl_channel = channel,
                 cl_playerName = playerName, cl_message = message,
                 cl_logTimestamp = takeWhile (\<lambda>c. \<not> js_space c) line\<rparr>)"

definition is_duplicate_of :: "id \<Rightarrow> id \<Rightarrow> string \<Rightarrow> event \<Rightarrow> bool" where
  "is_duplicate_of orgId sid stamp e \<longleftrightarrow> ev_orgId e = orgId \<and> ev_sourceId e = sid \<and> ev_eventType e = ''player_chat'' \<and>
     (case ev_payload e of None \<Rightarrow> False | Some p \<Rightarrow> jget p ''logTimestamp'' = Some (JStr stamp))"

definition chat_payload :: "string \<Rightarrow> chat_line \<Rightarrow> (string \<times> json) list" where
  "chat_payload serverName l = [(''playerId'', JStr (cl_playerId l)), (''entityId'', JStr (cl_entityId l)),
     (''playerName'', JStr (cl_playerName l)), (''channel'', JStr (cl_channel l)), (''message'', JStr (cl_message l)),
     (''serverInstanceName'', JStr serverName), (''logTimestamp'', JStr (cl_logTimestamp l))]"

definition chat_context_of :: "id \<Rightarrow> id \<Rightarrow> id \<Rightarrow> string \<Rightarrow> chat_line \<Rightarrow> chat_context" where
  "chat_context_of eid orgId sid serverName l = \<lparr>cc_eventId = eid, cc_orgId = orgId, cc_serverInstanceId = sid,
     cc_serverInstanceName = serverName, cc_playerName = cl_playerName l, cc_playerId = cl_playerId l,
     cc_channel = cl_channel l, cc_message = cl_message l\<rparr>"

definition pending_payload :: "chat_context \<Rightarrow> string option \<Rightarrow> (string \<times> json) list" where
  "pending_payload c err = [(''eventId'', JStr (cc_eventId c)), (''orgId'', JStr (cc_orgId c)),
     (''serverInstanceId'', JStr (cc_serverInstanceId c)), (''serverInstanceName'', JStr (cc_serverInstanceName c)),
     (''playerName'', JStr (cc_playerName c)), (''playerId'', JStr (cc_playerId c)), (''channel'', JStr (cc_channel c)),
     (''message'', JStr (cc_message c))] @ jopt ''lastError'' (map_option JStr err)"

definition relay_chat :: "chat_env \<Rightarrow> chat_mem \<Rightarrow> store \<Rightarrow> time \<Rightarrow> chat_context \<Rightarrow> chat_mem \<times> relay_result" where
  "relay_chat env mem s now c = (case relay_player_chat (ce_post env) (cm_alerts mem) s now c of
     (a, r) \<Rightarrow> (mem\<lparr>cm_alerts := a\<rparr>, r))"

definition record_chat ::
  "chat_env \<Rightarrow> time \<Rightarrow> id \<Rightarrow> id \<Rightarrow> string \<Rightarrow> chat_line \<Rightarrow> chat_mem \<times> store \<Rightarrow> chat_mem \<times> store" where
  "record_chat env now orgId sid serverName l ms = (case ms of (mem, s) \<Rightarrow>
     if cl_logTimestamp l \<noteq> [] \<and> exists_where (is_duplicate_of orgId sid (cl_logTimestamp l)) (t_events s) then (mem, s)
     else
       let eid = ce_fresh_event env s;
           s1 = add_event (chat_event eid now orgId sid ''player_chat'' (chat_payload serverName l)) s
       in if cl_isServer l then (mem, s1)
          else (case moderate_chat env mem s1 now orgId sid (cl_playerId l) (cl_playerName l) (cl_message l) of
            (mem2, s2, moderated) \<Rightarrow>
              if moderated then (mem2, s2)
              else
                let c = chat_context_of eid orgId sid serverName l; (mem3, relay) = relay_chat env mem2 s2 now c
                in if rl_configured relay \<and> \<not> rl_sent relay
                   then (mem3, add_event (chat_event (ce_fresh_event env s2) now orgId sid ''player_chat_relay_pending''
                          (pending_payload c (rl_error relay))) s2)
                   else (mem3, s2)))"

definition chat_lines :: "string list \<Rightarrow> chat_line list" where
  "chat_lines = List.map_filter parse_chat_line"

definition parse_chat ::
  "chat_env \<Rightarrow> time \<Rightarrow> id \<Rightarrow> id \<Rightarrow> string \<Rightarrow> string \<Rightarrow> chat_mem \<times> store \<Rightarrow> chat_mem \<times> store" where
  "parse_chat env now orgId sid serverName content ms = (case ms of (mem, s) \<Rightarrow>
     case feed_lines (cm_buffers mem sid) content of (ls, rest) \<Rightarrow>
       fold (record_chat env now orgId sid serverName) (chat_lines ls)
         (mem\<lparr>cm_buffers := (cm_buffers mem)(sid := rest)\<rparr>, s))"

definition pending_context :: "id \<Rightarrow> id \<Rightarrow> event \<Rightarrow> chat_context" where
  "pending_context orgId sid e = (let p = (case ev_payload e of None \<Rightarrow> JNull | Some v \<Rightarrow> v) in
     \<lparr>cc_eventId = js_prop_string p ''eventId'' (ev_id e), cc_orgId = orgId, cc_serverInstanceId = sid,
      cc_serverInstanceName = js_prop_string p ''serverInstanceName'' ''7DTD Server'',
      cc_playerName = js_prop_string p ''playerName'' ''Unknown'', cc_playerId = js_prop_string p ''playerId'' ''unknown'',
      cc_channel = js_prop_string p ''channel'' ''Global'', cc_message = js_prop_string p ''message'' []\<rparr>)"

definition retry_relay :: "chat_env \<Rightarrow> time \<Rightarrow> id \<Rightarrow> id \<Rightarrow> event \<Rightarrow> chat_mem \<times> store \<Rightarrow> chat_mem \<times> store" where
  "retry_relay env now orgId sid row ms = (case ms of (mem, s) \<Rightarrow>
     let (mem', r) = relay_chat env mem s now (pending_context orgId sid row)
     in (mem', if rl_sent r \<or> \<not> rl_configured r
               then s\<lparr>t_events := delete_where (\<lambda>e. ev_id e = ev_id row) (t_events s)\<rparr> else s))"

definition retry_chat_relays :: "chat_env \<Rightarrow> time \<Rightarrow> id \<Rightarrow> id \<Rightarrow> chat_mem \<times> store \<Rightarrow> chat_mem \<times> store" where
  "retry_chat_relays env now orgId sid ms = fold (retry_relay env now orgId sid)
     (take 10 (filter (\<lambda>e. ev_orgId e = orgId \<and> ev_sourceId e = sid \<and> ev_eventType e = ''player_chat_relay_pending'')
       (t_events (snd ms)))) ms"

section \<open>Reading the transcript, relay settings\<close>

definition list_chat :: "store \<Rightarrow> id \<Rightarrow> id option \<Rightarrow> int option \<Rightarrow> event list" where
  "list_chat s orgId sid limit =
    (let rows = filter (\<lambda>e. ev_orgId e = orgId \<and> ev_eventType e = ''player_chat'' \<and>
           (case non_blank sid of None \<Rightarrow> True | Some i \<Rightarrow> ev_sourceId e = i)) (t_events s)
     in drop (length rows - page_size 200 500 limit) rows)"

definition is_relay_rule :: "id \<Rightarrow> id \<Rightarrow> alert_rule \<Rightarrow> bool" where
  "is_relay_rule orgId sid r \<longleftrightarrow> ar_orgId r = orgId \<and>
     jget (ar_condition r) ''type'' = Some (JStr ''chat_relay'') \<and>
     jget (ar_condition r) ''serverInstanceId'' = Some (JStr sid)"

definition get_chat_settings :: "store \<Rightarrow> id \<Rightarrow> id \<Rightarrow> bool \<times> string" where
  "get_chat_settings s orgId sid = (case List.find (is_relay_rule orgId sid) (t_alertRules s) of
     None \<Rightarrow> (False, []) | Some r \<Rightarrow> (ar_enabled r, js_prop_string (ar_channel r) ''webhookUrl'' []))"

definition update_chat_settings ::
  "(string \<Rightarrow> (string \<times> string \<times> string) option) \<Rightarrow> id \<Rightarrow> store \<Rightarrow> time \<Rightarrow> id \<Rightarrow> id \<Rightarrow> bool \<Rightarrow> string \<Rightarrow>
   (store \<times> bool \<times> string) result" where
  "update_chat_settings parse_url new_id s now orgId sid enabled webhookUrl = (case find_server_in_org s sid orgId of
     None \<Rightarrow> Inl (NotFoundException ''Server instance not found'')
   | Some server \<Rightarrow>
       let clean = js_trim webhookUrl;
           valid = (case parse_url clean of None \<Rightarrow> False | Some u \<Rightarrow> is_discord_webhook u);
           name = ''Chat relay: '' @ si_name server;
           condition = JObj [(''type'', JStr ''chat_relay''), (''serverInstanceId'', JStr sid)];
           channel = JObj [(''type'', JStr ''discord''), (''webhookUrl'', JStr clean)]
       in if enabled \<and> \<not> valid then Inl (BadRequestException ''Valid Discord webhook URL required'')
          else Inr (case List.find (is_relay_rule orgId sid) (t_alertRules s) of
              Some existing \<Rightarrow> s\<lparr>t_alertRules := update_where (\<lambda>r. ar_id r = ar_id existing)
                  (\<lambda>r. r\<lparr>ar_name := name, ar_enabled := enabled, ar_condition := condition, ar_channel := channel\<rparr>) (t_alertRules s)\<rparr>
            | None \<Rightarrow> fst (create_rule s now new_id orgId name condition channel (Some enabled)), enabled, clean))"

section \<open>Lemmas\<close>

interpretation moderating: throttle admit_command "\<lambda>k. k" command_blocked 5001
proof unfold_locales
  fix k k' :: string and t u :: time and m :: "string \<Rightarrow> time option"
  show "\<not> snd (admit_command k t m)" if "command_blocked k t m"
    using that by (simp add: admit_command_def)
  show "command_blocked k u (fst (admit_command k t m))" if "snd (admit_command k t m)" "t \<le> u" "u - t < 5001"
    using that by (auto simp: admit_command_def command_blocked_def split: if_splits)
  show "command_blocked k' u (fst (admit_command k t m))" if "t \<le> u" "command_blocked k' u m"
    using that by (auto simp: admit_command_def command_blocked_def split: if_splits option.splits)
qed

subsection \<open>One chat event per line\<close>

text \<open>The organisation, server and first token of a chat event that has one.\<close>

definition chat_stamp :: "event \<Rightarrow> (id \<times> id \<times> string) option" where
  "chat_stamp e = (if ev_eventType e = ''player_chat'' then
     (case ev_payload e of None \<Rightarrow> None
      | Some p \<Rightarrow> (case jget p ''logTimestamp'' of
          Some (JStr ts) \<Rightarrow> if ts = [] then None else Some (ev_orgId e, ev_sourceId e, ts)
        | _ \<Rightarrow> None)) else None)"

definition chat_unique :: "store \<Rightarrow> bool" where
  "chat_unique s \<longleftrightarrow> distinct (List.map_filter chat_stamp (t_events s))"

lemma chat_unique_cong: "t_events s' = t_events s \<Longrightarrow> chat_unique s' = chat_unique s"
  by (simp add: chat_unique_def)

lemma map_filter_snoc: "List.map_filter f (xs @ [x]) = List.map_filter f xs @ (case f x of None \<Rightarrow> [] | Some y \<Rightarrow> [y])"
  by (simp add: List.map_filter_def split: option.splits)

lemma set_map_filter: "y \<in> set (List.map_filter f xs) \<longleftrightarrow> (\<exists>x \<in> set xs. f x = Some y)"
  by (force simp: List.map_filter_def)

lemma chat_unique_add:
  "chat_unique s \<Longrightarrow> (\<And>k. chat_stamp e = Some k \<Longrightarrow> \<forall>x \<in> set (t_events s). chat_stamp x \<noteq> Some k) \<Longrightarrow> chat_unique (add_event e s)"
  by (auto simp: chat_unique_def add_event_def map_filter_snoc set_map_filter split: option.splits)

lemma chat_unique_other: "chat_unique s \<Longrightarrow> chat_stamp e = None \<Longrightarrow> chat_unique (add_event e s)"
  by (rule chat_unique_add) simp_all

lemma chat_unique_delete: "chat_unique s \<Longrightarrow> chat_unique (s\<lparr>t_events := delete_where P (t_events s)\<rparr>)"
proof -
  have "distinct (List.map_filter f xs) \<Longrightarrow> distinct (List.map_filter f (filter Q xs))"
    for f :: "event \<Rightarrow> (id \<times> id \<times> string) option" and Q xs
    by (induction xs) (auto simp: List.map_filter_simps set_map_filter split: option.splits)
  then show "chat_unique s \<Longrightarrow> chat_unique (s\<lparr>t_events := delete_where P (t_events s)\<rparr>)"
    by (simp add: chat_unique_def delete_where_def)
qed

lemma chat_stamp_other: "ty \<noteq> ''player_chat'' \<Longrightarrow> chat_stamp (chat_event eid now oid sid ty p) = None"
  by (simp add: chat_stamp_def chat_event_def)

lemma chat_stamp_chat: "chat_stamp (chat_event eid now oid sid ''player_chat'' (chat_payload nm l)) =
    (if cl_logTimestamp l = [] then None else Some (oid, sid, cl_logTimestamp l))"
  by (simp add: chat_stamp_def chat_event_def chat_payload_def)

lemma chat_stamp_duplicate: "chat_stamp x = Some (oid, sid, ts) \<Longrightarrow> is_duplicate_of oid sid ts x"
  by (auto simp: chat_stamp_def is_duplicate_of_def split: if_splits option.splits json.splits)

lemma insert_job_events [simp]: "t_events (insert_job ids s now oid uid si ty p) = t_events s"
  by (simp add: insert_job_def Let_def)

lemma enqueue_command_events [simp]: "t_events (enqueue_moderation_command env s now oid sid c) = t_events s"
  by (simp add: enqueue_moderation_command_def split: option.splits)

lemma moderate_chat_unique:
  assumes "moderate_chat env mem s now oid sid pid nm msg = (mem', s', b)" and u: "chat_unique s"
  shows "chat_unique s'"
proof -
  have a: "chat_unique (add_event (chat_event (ce_fresh_event env s) now oid sid ''chat_moderation_action'' p) s)" for p
    using u by (rule chat_unique_other) (simp add: chat_stamp_other)
  have b: "chat_unique (enqueue_moderation_command env x now oid sid c)" if "chat_unique x" for x c
    using that chat_unique_cong [OF enqueue_command_events] by blast
  show ?thesis
    using assms(1) u a b by (auto simp: moderate_chat_def Let_def split: if_splits option.splits prod.splits)
qed

lemma record_chat_unique:
  assumes "record_chat env now oid sid nm l (mem, s) = (mem', s')" and u: "chat_unique s"
  shows "chat_unique s'"
proof (cases "cl_logTimestamp l \<noteq> [] \<and> exists_where (is_duplicate_of oid sid (cl_logTimestamp l)) (t_events s)")
  case True
  with assms show ?thesis by (simp add: record_chat_def)
next
  case False
  let ?s1 = "add_event (chat_event (ce_fresh_event env s) now oid sid ''player_chat'' (chat_payload nm l)) s"
  have u1: "chat_unique ?s1"
    using u by (rule chat_unique_add)
      (use False in \<open>auto simp: chat_stamp_chat exists_where_iff dest: chat_stamp_duplicate split: if_splits\<close>)
  obtain mem2 s2 b where m: "moderate_chat env mem ?s1 now oid sid (cl_playerId l) (cl_playerName l) (cl_message l) = (mem2, s2, b)"
    by (metis prod_cases3)
  note u2 = moderate_chat_unique [OF m u1]
  have u3: "chat_unique (add_event (chat_event e now oid sid ''player_chat_relay_pending'' p) s2)" for e p
    using u2 by (rule chat_unique_other) (simp add: chat_stamp_other)
  show ?thesis
    using assms(1) False u1 u2 u3 m by (auto simp: record_chat_def Let_def split: if_splits prod.splits)
qed

lemma fold_store_inv:
  "(\<And>x m s. x \<in> set xs \<Longrightarrow> Q s \<Longrightarrow> Q (snd (f x (m, s)))) \<Longrightarrow> Q (snd ms) \<Longrightarrow> Q (snd (fold f xs ms))"
proof (induction xs arbitrary: ms)
  case Nil
  then show ?case by simp
next
  case (Cons x xs)
  have "Q (snd (f x ms))" using Cons.prems(1) [of x "snd ms" "fst ms"] Cons.prems(2) by simp
  with Cons.IH [of "f x ms"] Cons.prems(1) show ?case by simp
qed

lemma parse_chat_unique: "chat_unique s \<Longrightarrow> chat_unique (snd (parse_chat env now oid sid nm content (mem, s)))"
  unfolding parse_chat_def
  by (auto split: prod.split intro!: fold_store_inv [where Q = chat_unique] intro: record_chat_unique [OF prod.collapse [symmetric]])

lemma retry_relays_unique: "chat_unique s \<Longrightarrow> chat_unique (snd (retry_chat_relays env now oid sid (mem, s)))"
  unfolding retry_chat_relays_def
  by (rule fold_store_inv [where Q = chat_unique]) (auto simp: retry_relay_def Let_def chat_unique_delete split: prod.split)

subsection \<open>Muting\<close>

text \<open>Ids are unique, and the stored conditions are JSON objects, so no key occurs twice in them.\<close>

definition rules_ok :: "store \<Rightarrow> bool" where
  "rules_ok s \<longleftrightarrow> distinct (map ar_id (t_alertRules s)) \<and> (\<forall>r \<in> set (t_alertRules s). distinct (map fst (condition_fields (ar_condition r))))"

lemma distinct_jspread: "distinct (map fst base) \<Longrightarrow> distinct (map fst (jspread base kvs))"
  by (induction base kvs rule: jspread.induct) (auto intro: distinct_jput)

lemma moderation_settings:
  assumes "rules_ok s"
  shows "distinct (map fst (get_chat_moderation s oid sid))"
    and "map_of (get_chat_moderation s oid sid) ''type'' \<in> {None, Some (JStr ''chat_moderation'')}"
    and "map_of (get_chat_moderation s oid sid) ''serverInstanceId'' \<in> {None, Some (JStr sid)}"
proof -
  have d: "distinct (map fst moderation_defaults)" by (simp add: moderation_defaults_def)
  show "distinct (map fst (get_chat_moderation s oid sid))"
    by (auto simp: get_chat_moderation_def Let_def d split: option.split intro!: distinct_jspread simp del: jspread.simps)
  have "map_of (get_chat_moderation s oid sid) ''type'' \<in> {None, Some (JStr ''chat_moderation'')} \<and>
      map_of (get_chat_moderation s oid sid) ''serverInstanceId'' \<in> {None, Some (JStr sid)}"
  proof (cases "List.find (is_moderation_rule oid sid) (t_alertRules s)")
    case None
    then show ?thesis by (simp add: get_chat_moderation_def moderation_defaults_def)
  next
    case (Some r)
    from find_SomeD [OF Some] have r: "r \<in> set (t_alertRules s)" "is_moderation_rule oid sid r" by auto
    obtain kvs where kvs: "ar_condition r = JObj kvs"
      using r(2) by (cases "ar_condition r") (auto simp: is_moderation_rule_def)
    from assms r(1) have c: "distinct (map fst kvs)" by (auto simp: rules_ok_def condition_fields_def kvs)
    from r(2) have v: "map_of kvs ''type'' = Some (JStr ''chat_moderation'')" "map_of kvs ''serverInstanceId'' = Some (JStr sid)"
      by (simp_all add: is_moderation_rule_def kvs)
    show ?thesis
      using v by (simp add: get_chat_moderation_def Some Let_def condition_fields_def kvs map_of_jspread c map_of_jput)
  qed
  then show "map_of (get_chat_moderation s oid sid) ''type'' \<in> {None, Some (JStr ''chat_moderation'')}"
    and "map_of (get_chat_moderation s oid sid) ''serverInstanceId'' \<in> {None, Some (JStr sid)}" by blast+
qed

lemma merged_other:
  assumes "distinct (map fst input)"
    and "k \<notin> set [''badWordRules'', ''badWords'', ''badWordAction'', ''floodAction'', ''floodMessages'', ''floodWindowSeconds'']"
  shows "map_of (merged_moderation current input) k = (map_of current ++ map_of input) k"
  using assms by (simp add: merged_moderation_def Let_def map_of_jspread map_of_jput)

text \<open>A row that already satisfies the query is replaced: whatever the query finds then is a new row.\<close>

lemma find_replaced_row:
  "List.find P rows = Some e \<Longrightarrow> Q e \<Longrightarrow> (\<And>r. r \<in> set rows \<Longrightarrow> Q r \<Longrightarrow> P (f r)) \<Longrightarrow> \<exists>r. List.find P (update_where Q f rows) = Some (f r)"
  by (induction rows) (auto split: if_splits)

text \<open>After an update the settings are read back from the condition just written.\<close>

lemma updated_rule:
  assumes ok: "rules_ok s" and input: "distinct (map fst input)"
      "map_of input ''type'' = map_of (get_chat_moderation s oid sid) ''type''"
      "map_of input ''serverInstanceId'' = map_of (get_chat_moderation s oid sid) ''serverInstanceId''"
    and upd: "update_chat_moderation nid s now oid sid input = Inr (s', st)"
  shows "st = merged_moderation (get_chat_moderation s oid sid) input \<and>
    (\<exists>r b. List.find (is_moderation_rule oid sid) (t_alertRules s') = Some r \<and>
       known st ''enabled'' = JBool b \<and> ar_enabled r = b \<and>
       ar_condition r = JObj (jspread [(''type'', JStr ''chat_moderation''), (''serverInstanceId'', JStr sid)] st)) \<and>
    t_serverInstances s' = t_serverInstances s"
proof -
  let ?cur = "get_chat_moderation s oid sid" and ?P = "is_moderation_rule oid sid"
  let ?cond = "JObj (jspread [(''type'', JStr ''chat_moderation''), (''serverInstanceId'', JStr sid)] (merged_moderation ?cur input))"
  from upd obtain sv b where sv: "find_server_in_org s sid oid = Some sv" and b: "known (merged_moderation ?cur input) ''enabled'' = JBool b"
    and st: "st = merged_moderation ?cur input"
    and s': "s' = (case List.find ?P (t_alertRules s) of
        Some existing \<Rightarrow> s\<lparr>t_alertRules := update_where (\<lambda>r. ar_id r = ar_id existing)
          (\<lambda>r. r\<lparr>ar_name := ''Chat moderation: '' @ si_name sv, ar_enabled := b, ar_condition := ?cond,
             ar_channel := JObj [(''type'', JStr ''dashboard'')]\<rparr>) (t_alertRules s)\<rparr>
      | None \<Rightarrow> fst (create_rule s now nid oid (''Chat moderation: '' @ si_name sv) ?cond (JObj [(''type'', JStr ''dashboard'')]) (Some b)))"
    by (auto simp: update_chat_moderation_def Let_def split: option.splits json.splits)
  have d: "distinct (map fst (merged_moderation ?cur input))"
    unfolding merged_moderation_def Let_def by (intro distinct_jspread moderation_settings(1) [OF ok])
  have look: "map_of (merged_moderation ?cur input) k \<in> {None, Some v}"
    if "map_of ?cur k \<in> {None, Some v}" "map_of input k = map_of ?cur k"
      "k \<notin> set [''badWordRules'', ''badWords'', ''badWordAction'', ''floodAction'', ''floodMessages'', ''floodWindowSeconds'']" for k v
    using that by (simp only: merged_other [OF input(1) that(3)]) (auto simp: map_add_def split: option.splits)
  have "jget ?cond ''type'' = Some (JStr ''chat_moderation'')" "jget ?cond ''serverInstanceId'' = Some (JStr sid)"
    using look [OF moderation_settings(2) [OF ok] input(2)] look [OF moderation_settings(3) [OF ok] input(3)]
    by (auto simp: map_of_jspread [OF d] map_add_def split: option.splits)
  then have P: "ar_orgId r = oid \<Longrightarrow> ar_condition r = ?cond \<Longrightarrow> ?P r" for r
    by (simp add: is_moderation_rule_def)
  show ?thesis
  proof (cases "List.find ?P (t_alertRules s)")
    case None
    then show ?thesis
      using b st P by (simp add: s' create_rule_def Let_def find_append)
  next
    case (Some e)
    let ?f = "\<lambda>r. r\<lparr>ar_name := ''Chat moderation: '' @ si_name sv, ar_enabled := b, ar_condition := ?cond,
             ar_channel := JObj [(''type'', JStr ''dashboard'')]\<rparr>"
    from find_SomeD [OF Some] have e: "e \<in> set (t_alertRules s)" "ar_orgId e = oid" by (auto simp: is_moderation_rule_def)
    have new: "?P (?f r)" if "r \<in> set (t_alertRules s)" "ar_id r = ar_id e" for r
    proof (rule P)
      have "r = e" using ok that e(1) unfolding rules_ok_def distinct_map inj_on_def by blast
      with e(2) show "ar_orgId (?f r) = oid" by simp
    qed simp
    have "\<exists>r. List.find ?P (update_where (\<lambda>r. ar_id r = ar_id e) ?f (t_alertRules s)) = Some (?f r)"
    proof (rule find_replaced_row [OF Some])
      show "ar_id e = ar_id e" ..
    qed (rule new)
    then obtain r where "List.find ?P (update_where (\<lambda>r. ar_id r = ar_id e) ?f (t_alertRules s)) = Some (?f r)" by blast
    then show ?thesis using b st by (simp add: s' Some)
  qed
qed

lemma muted_scan_entry:
  "JNull \<notin> set ps \<Longrightarrow> muted_scan pid (ps @ [muted_entry pid nm t]) = Some True"
  by (induction ps) (auto simp: muted_entry_def)

lemma set_player_muted_spec:
  assumes ok: "rules_ok s" and set: "set_player_muted nid s now oid sid pid nm True = Inr (s', st)"
  shows "known (get_chat_moderation s' oid sid) ''enabled'' = known (get_chat_moderation s oid sid) ''enabled'' \<and>
    muted_scan (take 128 (js_trim pid)) (array_items (known (get_chat_moderation s' oid sid) ''mutedPlayers'')) = Some True \<and>
    t_serverInstances s' = t_serverInstances s"
proof -
  let ?cur = "get_chat_moderation s oid sid" and ?pid = "take 128 (js_trim pid)"
  define entries where "entries = filter (\<lambda>p. jget p ''playerId'' \<noteq> Some (JStr ?pid)) (array_items (known ?cur ''mutedPlayers''))"
  define M where "M = JArr (entries @ [muted_entry ?pid nm now])"
  from set have upd: "update_chat_moderation nid s now oid sid (jput ?cur ''mutedPlayers'' M) = Inr (s', st)"
    and nonull: "JNull \<notin> set entries"
    by (auto simp: set_player_muted_def Let_def M_def entries_def split: if_splits)
  have d: "distinct (map fst (jput ?cur ''mutedPlayers'' M))"
    by (intro distinct_jput moderation_settings(1) [OF ok])
  from updated_rule [OF ok d _ _ upd] obtain r b where st: "st = merged_moderation ?cur (jput ?cur ''mutedPlayers'' M)"
    and r: "List.find (is_moderation_rule oid sid) (t_alertRules s') = Some r" "known st ''enabled'' = JBool b" "ar_enabled r = b"
      "ar_condition r = JObj (jspread [(''type'', JStr ''chat_moderation''), (''serverInstanceId'', JStr sid)] st)"
    and si: "t_serverInstances s' = t_serverInstances s"
    by (auto simp: map_of_jput)
  have "map_of st k = map_of (jput ?cur ''mutedPlayers'' M) k" if "k = ''enabled'' \<or> k = ''mutedPlayers''" for k
    unfolding st using that merged_other [OF d, of k ?cur] by (auto simp: map_of_jput map_add_def split: option.splits)
  then have v: "map_of st ''mutedPlayers'' = Some M" "known ?cur ''enabled'' = JBool b"
    using r(2) by (auto simp: map_of_jput known_def)
  have dst: "distinct (map fst st)"
    unfolding st merged_moderation_def Let_def by (intro distinct_jspread moderation_settings(1) [OF ok])
  have "known (get_chat_moderation s' oid sid) ''enabled'' = JBool b" "known (get_chat_moderation s' oid sid) ''mutedPlayers'' = M"
    using v(1) r by (simp_all add: get_chat_moderation_def Let_def condition_fields_def known_def map_of_jput
        map_of_jspread [OF dst] map_add_def array_or_none_def M_def)
  with v(2) si show ?thesis by (simp add: M_def array_items_def muted_scan_entry [OF nonull])
qed

section \<open>Properties\<close>

text \<open>
  C18. Muting works exactly when moderation is on: after muting a player, a message under that
  player id is moderated if chat moderation is enabled for the server, and passes otherwise
  (muting does not enable it).  A moderated message is recorded with the action kick, and unless
  a command for this player went out in the last five seconds, a job that kicks the player is
  filed for the server.
\<close>

theorem mute_takes_effect:
  assumes "rules_ok s" and "set_player_muted nid s now oid sid pid nm True = Inr (s', st)"
    and "find_server_in_org s sid oid = Some si"
    and "moderate_chat env mem s' later oid sid (take 128 (js_trim pid)) nm2 msg = (mem', s'', moderated)"
  shows "(moderated \<longleftrightarrow> known (get_chat_moderation s oid sid) ''enabled'' = JBool True) \<and>
    (moderated \<longrightarrow> t_events s'' = t_events s' @ [chat_event (ce_fresh_event env s') later oid sid ''chat_moderation_action''
        [(''playerId'', JStr (take 128 (js_trim pid))), (''playerName'', JStr nm2), (''message'', JStr msg),
         (''reason'', JStr ''Player is muted''), (''action'', JStr ''kick'')]]) \<and>
    (moderated \<and> \<not> command_blocked (chat_key sid (take 128 (js_trim pid))) later (cm_cooldown mem) \<longrightarrow>
       (\<exists>j. t_jobs s'' = t_jobs s' @ [j] \<and> j_serverInstanceId j = Some sid \<and> j_type j = ''RCON'' \<and>
          (\<exists>p. j_payload j = Some (JObj p) \<and> last p = (''command'', JStr (''kick '' @ filter id_char (take 128 (js_trim pid)) @
             '' '' @ [CHR 0x22] @ ''Chat moderation: Player is muted'' @ [CHR 0x22])))))"
proof -
  let ?pid = "take 128 (js_trim pid)"
  note spec = set_player_muted_spec [OF assms(1,2)]
  have e: "(case known (get_chat_moderation s oid sid) ''enabled'' of JBool b \<Rightarrow> True | _ \<Rightarrow> False)"
    by (auto simp: get_chat_moderation_def moderation_defaults_def Let_def known_def map_of_jput split: option.split)
  then obtain b where b: "known (get_chat_moderation s oid sid) ''enabled'' = JBool b"
    by (auto split: json.splits)
  have srv: "find_server_in_org x sid oid = Some si" if "t_serverInstances x = t_serverInstances s" for x
    using assms(3) by (simp add: find_server_in_org_def that)
  have sid: "si_id si = sid" using assms(3) by (auto dest: find_server_in_org_SomeD)
  show ?thesis
    using assms(4) spec b sid
    by (auto simp: moderate_chat_def Let_def moderation_verdict_def truthy_def admit_command_def add_event_def
        enqueue_moderation_command_def srv moderation_command_def unquoted_def split: if_splits)
qed

text \<open>
  Commands to one player of a server are more than five seconds apart, whatever was said.
\<close>

theorem moderation_commands_spaced:
  assumes "ordered_from t0 as"
  shows "spaced 5001 (run_throttle admit_command (\<lambda>k. k) as cooldown)"
  by (rule moderating.run_spaced [OF assms])

text \<open>
  The log's time stamps are whole seconds, and the first token of the line is what identifies a
  chat line: a second message on the server within the same second is neither recorded nor
  moderated nor relayed.
\<close>

theorem same_second_dropped:
  assumes "cl_logTimestamp l \<noteq> []" and "e \<in> set (t_events s)" and "is_duplicate_of oid sid (cl_logTimestamp l) e"
  shows "record_chat env now oid sid nm l (mem, s) = (mem, s)"
proof -
  have "exists_where (is_duplicate_of oid sid (cl_logTimestamp l)) (t_events s)"
    using assms(2,3) by (auto simp: exists_where_iff)
  with assms(1) show ?thesis by (simp add: record_chat_def)
qed

text \<open>A server with moderation on, a player muted on it who then speaks.\<close>

definition sample_moderated :: store where
  "sample_moderated = sample_world\<lparr>t_alertRules := [\<lparr>ar_id = ''m'', ar_orgId = ''o'', ar_name = ''Chat moderation: server'',
     ar_condition = JObj [(''type'', JStr ''chat_moderation''), (''serverInstanceId'', JStr ''s'')],
     ar_channel = JObj [], ar_enabled = True, ar_createdAt = 0\<rparr>]\<rparr>"

definition sample_chat_env :: chat_env where
  "sample_chat_env = \<lparr>ce_post = pe_post sample_env, ce_fresh_event = (\<lambda>s. CHR ''e'' # concat (map ev_id (t_events s))),
     ce_job_ids = sample_job_ids\<rparr>"

definition sample_chat_mem :: chat_mem where
  "sample_chat_mem = \<lparr>cm_buffers = (\<lambda>_. []), cm_samples = (\<lambda>_. []), cm_cooldown = (\<lambda>_. None), cm_alerts = empty_alerts_mem\<rparr>"

theorem mute_takes_effect_witness:
  "\<exists>s' st mem' s''. set_player_muted ''n'' sample_moderated 0 ''o'' ''s'' ''p7'' ''Bob'' True = Inr (s', st) \<and>
     moderate_chat sample_chat_env sample_chat_mem s' 9 ''o'' ''s'' ''p7'' ''Bob'' ''hi'' = (mem', s'', True) \<and>
     (\<exists>j. t_jobs s'' = t_jobs s' @ [j] \<and> j_type j = ''RCON'')"
proof -
  have "case set_player_muted ''n'' sample_moderated 0 ''o'' ''s'' ''p7'' ''Bob'' True of Inl e \<Rightarrow> False | Inr r \<Rightarrow> True"
    by code_simp
  then obtain s' st where m: "set_player_muted ''n'' sample_moderated 0 ''o'' ''s'' ''p7'' ''Bob'' True = Inr (s', st)"
    by (auto split: sum.splits)
  have ok: "rules_ok sample_moderated" by (simp add: rules_ok_def sample_moderated_def condition_fields_def)
  have srv: "find_server_in_org sample_moderated ''s'' ''o'' = Some sample_server"
    by (simp add: find_server_in_org_def sample_moderated_def sample_world_def sample_server_def)
  have pid: "take 128 (js_trim ''p7'') = ''p7''" by code_simp
  obtain mem' s'' b where c: "moderate_chat sample_chat_env sample_chat_mem s' 9 ''o'' ''s'' ''p7'' ''Bob'' ''hi'' = (mem', s'', b)"
    by (metis prod_cases3)
  have e: "known (get_chat_moderation sample_moderated ''o'' ''s'') ''enabled'' = JBool True" by code_simp
  have free: "\<not> command_blocked k 9 (cm_cooldown sample_chat_mem)" for k
    by (simp add: command_blocked_def sample_chat_mem_def)
  from mute_takes_effect [OF ok m srv, of sample_chat_env sample_chat_mem 9 "''Bob''" "''hi''" mem' s'' b] c e free
  have j: "b \<and> (\<exists>j. t_jobs s'' = t_jobs s' @ [j] \<and> j_type j = ''RCON'')" unfolding pid by auto
  with c have "moderate_chat sample_chat_env sample_chat_mem s' 9 ''o'' ''s'' ''p7'' ''Bob'' ''hi'' = (mem', s'', True)" by simp
  with m j show ?thesis by blast
qed

end
