(* ===== verification/LogPlayers.thy ===== *)
theory LogPlayers
  imports LogStream
begin

text \<open>
  Players in the log stream (\<open>parsePlayers\<close> of \<open>logs/logs.service.ts\<close>): a line that tells of a
  player who joined or left updates the player's row and sessions like a listing of the game does.
\<close>

section \<open>Reading a line\<close>

definition joined_re :: re where
  "joined_re = Seqs [lit_i (''GMSG: Player '' @ quote), Star Dot, lit_i (quote @ '' joined the game'')]"

definition spawned_re :: re where
  "spawned_re = Seqs [lit_i ''PlayerSpawnedInWorld'', Star Space, lit_i ''(reason:'', Star Space,
     Alt (lit_i ''EnterMultiplayer'') (lit_i ''JoinMultiplayer''), WordB]"

definition left_re :: re where
  "left_re = Alt (lit_i ''PlayerDisconnected'') (Seqs [lit_i (''GMSG: Player '' @ quote), Star Dot, lit_i (quote @ '' left'')])"

definition Equals :: re where
  "Equals = Seqs [Star Space, lit_i ''='', Star Space, Opt (lit_i quote)]"

definition log_steam_re :: re where
  "log_steam_re = Seqs [Alt (lit_i ''PltfmId'') (lit_i ''OwnerID''), Equals, lit_i ''Steam_'',
     Group 1 (Between 15 20 Digit), Opt (lit_i quote)]"

definition bare_steam_re :: re where
  "bare_steam_re = Seqs [WordB, Group 1 (Seq (lit ''7656119'') (Times 10 Digit)), WordB]"

definition log_eos_re :: re where
  "log_eos_re = Seqs [Alt (lit_i ''CrossId'') (lit_i ''PltfmId''), Equals, lit_i ''EOS_'',
     Group 1 (Between 20 64 (Cls is_hex)), Opt (lit_i quote)]"

definition entity_re :: re where
  "entity_re = Seqs [lit_i ''EntityID'', Cls (\<lambda>c. c \<in> set ''=:''), Star Space, Group 1 (Plus Digit)]"

definition log_name_re :: re where
  "log_name_re = Seqs [lit_i ''PlayerName'', Equals,
     Group 1 (Plus (Cls (\<lambda>c. c \<notin> set (quote @ '','' @ [CHR 0x0D, CHR 0x0A])))), Opt (lit_i quote)]"

definition gmsg_name_re :: re where
  "gmsg_name_re = Seqs [lit_i (''GMSG: Player '' @ quote), Group 1 (Plus (NotIn quote)), lit_i quote]"

record player_line =
  pn_joined :: bool
  pn_steam :: "string option"
  pn_eos :: "string option"
  pn_entity :: "int option"
  pn_name :: string

definition log_identity_key :: "player_line \<Rightarrow> string" where
  "log_identity_key l = (case pn_steam l of
     Some st \<Rightarrow> ''steam:'' @ st
   | None \<Rightarrow> (case pn_eos l of Some e \<Rightarrow> ''eos:'' @ e | None \<Rightarrow> ''name:'' @ js_lower (pn_name l)))"

text \<open>A line without a name is skipped, so there is always an identity key.\<close>

definition parse_player_line :: "string \<Rightarrow> player_line option" where
  "parse_player_line line =
    (let joined = re_test joined_re line \<or> re_test spawned_re line; left = re_test left_re line;
         name = map_option js_trim (or_else (re_group log_name_re 1 line) (re_group gmsg_name_re 1 line))
     in if \<not> joined \<and> \<not> left then None
        else (case name of
          None \<Rightarrow> None
        | Some n \<Rightarrow> if n = [] then None else Some \<lparr>pn_joined = joined,
            pn_steam = or_else (re_group log_steam_re 1 line) (re_group bare_steam_re 1 line),
            pn_eos = re_group log_eos_re 1 line,
            pn_entity = map_option (\<lambda>ds. int (digits_value ds)) (re_group entity_re 1 line),
            pn_name = n\<rparr>))"

section \<open>Applying it\<close>

definition joined_row :: "time \<Rightarrow> player_line \<Rightarrow> player \<Rightarrow> player \<Rightarrow> player" where
  "joined_row now l e p = p\<lparr>pl_steamId := or_else (pn_steam l) (pl_steamId e), pl_eosId := or_else (pn_eos l) (pl_eosId e),
     pl_entityId := or_else (pn_entity l) (pl_entityId e), pl_name := pn_name l, pl_online := True, pl_lastSeenAt := now,
     pl_currentSessionStartedAt := (if pl_online e then pl_currentSessionStartedAt p else Some now)\<rparr>"

definition joined_player :: "id \<Rightarrow> time \<Rightarrow> id \<Rightarrow> id \<Rightarrow> player_line \<Rightarrow> player" where
  "joined_player pid now orgId sid l = \<lparr>pl_id = pid, pl_orgId = orgId, pl_serverInstanceId = sid,
     pl_identityKey = log_identity_key l, pl_steamId = pn_steam l, pl_eosId = pn_eos l, pl_entityId = pn_entity l,
     pl_ipAddress = None, pl_name = pn_name l, pl_online = True, pl_currentSessionStartedAt = Some now,
     pl_lifetimeSeconds = 0, pl_zombieKills = 0, pl_playerKills = 0, pl_deaths = 0, pl_level = 1,
     pl_firstSeenAt = now, pl_lastSeenAt = now\<rparr>"

definition left_row :: "time \<Rightarrow> int \<Rightarrow> player \<Rightarrow> player" where
  "left_row now duration x = x\<lparr>pl_online := False, pl_lastSeenAt := now, pl_currentSessionStartedAt := None,
     pl_lifetimeSeconds := pl_lifetimeSeconds x + duration\<rparr>"

definition player_context ::
  "id \<Rightarrow> id \<Rightarrow> string \<Rightarrow> player_line \<Rightarrow> string option \<Rightarrow> string option \<Rightarrow> int option \<Rightarrow> alert_context" where
  "player_context orgId sid serverName l steam eos seconds = \<lparr>ac_orgId = orgId, ac_orgName = None,
     ac_serverInstanceId = Some sid, ac_serverInstanceName = Some serverName, ac_hostId = None,
     ac_hostName = None, ac_lastHeartbeatAt = None, ac_reason = None, ac_frigateCamera = None,
     ac_frigateLabel = None, ac_frigateScore = None, ac_playerName = Some (pn_name l),
     ac_steamId = steam, ac_eosId = eos, ac_sessionSeconds = seconds\<rparr>"

definition apply_player_line ::
  "player_env \<Rightarrow> time \<Rightarrow> id \<Rightarrow> id \<Rightarrow> string \<Rightarrow> player_line \<Rightarrow> alerts_mem \<times> store \<Rightarrow> alerts_mem \<times> store" where
  "apply_player_line env now orgId sid serverName l ms = (case ms of (mem, s0) \<Rightarrow>
    let key = log_identity_key l;
        s = reconcile_name_fallback s0 sid key (pn_name l) (pn_steam l) (pn_eos l);
        connected = player_context orgId sid serverName l (pn_steam l) (pn_eos l) None
    in case find_player s sid key of
         None \<Rightarrow>
           if \<not> pn_joined l then (mem, s)
           else let p = joined_player (pe_fresh_player env s) now orgId sid l
                in send_matching_rules (pe_post env) mem
                     (s\<lparr>t_players := t_players s @ [p], t_sessions := t_sessions s @ [new_session (pl_id p) now]\<rparr>)
                     now ''PLAYER_CONNECTED'' connected
       | Some e \<Rightarrow>
           if pn_joined l then
             let s1 = s\<lparr>t_players := update_where (\<lambda>p. pl_serverInstanceId p = sid \<and> pl_identityKey p = key)
                         (joined_row now l e) (t_players s),
                        t_sessions := t_sessions s @ (if pl_online e then [] else [new_session (pl_id e) now])\<rparr>
             in if pl_online e then (mem, s1)
                else send_matching_rules (pe_post env) mem s1 now ''PLAYER_CONNECTED'' connected
           else if pl_online e then
             let duration = session_seconds now (pl_currentSessionStartedAt e)
             in send_matching_rules (pe_post env) mem
                  (s\<lparr>t_players := update_where (\<lambda>x. pl_id x = pl_id e) (left_row now duration) (t_players s),
                     t_sessions := update_where (\<lambda>x. ses_playerId x = pl_id e \<and> ses_endedAt x = None)
                       (\<lambda>x. x\<lparr>ses_endedAt := Some now, ses_durationSeconds := Some duration\<rparr>) (t_sessions s)\<rparr>)
                  now ''PLAYER_DISCONNECTED''
                  (player_context orgId sid serverName l (or_else (pn_steam l) (pl_steamId e)) (or_else (pn_eos l) (pl_eosId e))
                    (Some duration))
           else (mem, s))"

definition parse_players ::
  "player_env \<Rightarrow> time \<Rightarrow> id \<Rightarrow> id \<Rightarrow> string \<Rightarrow> string \<Rightarrow> (id \<Rightarrow> string) \<times> alerts_mem \<times> store \<Rightarrow> (id \<Rightarrow> string) \<times> alerts_mem \<times> store"
where
  "parse_players env now orgId sid serverName content bms = (case bms of (buffers, mem, s) \<Rightarrow>
     case feed_lines (buffers sid) content of (ls, rest) \<Rightarrow>
       (buffers(sid := rest),
        fold (apply_player_line env now orgId sid serverName) (List.map_filter parse_player_line ls) (mem, s)))"

section \<open>The invariant of players and sessions\<close>

lemma players_inv_alerted:
  "players_inv s \<Longrightarrow> players_inv (snd (send_matching_rules post mem s now ty ctx))"
  using players_inv_only_audit [OF send_matching_only_audit] by blast

lemma apply_player_line_inv:
  assumes inv: "players_inv s" and env: "env_ok env"
  shows "players_inv (snd (apply_player_line env now oid sid nm l (mem, s)))"
proof -
  let ?key = "log_identity_key l"
  let ?s = "reconcile_name_fallback s sid ?key (pn_name l) (pn_steam l) (pn_eos l)"
  have inv': "players_inv ?s" by (rule reconcile_name_fallback_inv [OF inv])
  show ?thesis
  proof (cases "find_player ?s sid ?key")
    case None
    let ?p = "joined_player (pe_fresh_player env ?s) now oid sid l"
    have "pl_id ?p \<notin> pl_id ` set (t_players ?s)" using env by (simp add: env_ok_def joined_player_def)
    from join_new_inv [OF inv' this] None
    have "players_inv (?s\<lparr>t_players := t_players ?s @ [?p], t_sessions := t_sessions ?s @ [new_session (pl_id ?p) now]\<rparr>)"
      by (simp add: joined_player_def)
    with inv' None show ?thesis by (simp add: apply_player_line_def Let_def players_inv_alerted)
  next
    case (Some e)
    have "marks_seen e (joined_row now l e)" "marks_left (left_row now d)" for d
      by (simp_all add: marks_seen_def joined_row_def marks_left_def left_row_def player_key_def)
    note seen = join_known_inv [OF inv' Some this(1), of now] and left = leave_inv [OF inv' this(2), of "pl_id e" _ now]
    show ?thesis
      using inv' Some seen left by (auto simp: apply_player_line_def Let_def intro!: players_inv_alerted)
  qed
qed

lemma parse_players_inv:
  assumes "players_inv s" and "env_ok env"
  shows "players_inv (snd (snd (parse_players env now oid sid nm content (buffers, mem, s))))"
proof -
  have "players_inv (snd (fold (apply_player_line env now oid sid nm) ls ms))" if "players_inv (snd ms)" for ls ms
    using that
  proof (induction ls arbitrary: ms)
    case Nil
    then show ?case by simp
  next
    case (Cons l ls)
    from apply_player_line_inv [OF Cons.prems assms(2), of now oid sid nm l "fst ms"] Cons.IH show ?case by simp
  qed
  from this [of "(mem, s)"] assms(1) show ?thesis by (simp add: parse_players_def split: prod.split)
qed

end
