(* ===== verification/LogService.thy ===== *)
theory LogService
  imports Chat LogPlayers
begin

text \<open>
  \<open>append\<close> of \<open>logs/logs.service.ts\<close>: the upload of a log chunk by an agent and everything it sets
  off, in the order of the code.  The enrichments cannot fail in the model (the database does
  not), so their \<open>catch\<close> never acts.
\<close>

record log_mem =
  lg_chat :: chat_mem
  lg_tails :: "id \<Rightarrow> string"
  lg_lineBuffers :: "id \<Rightarrow> string"
  lg_lastPrune :: "id \<Rightarrow> time option"

record log_env =
  le_chat :: chat_env
  le_fresh_log :: "store \<Rightarrow> id"
  le_fresh_player :: "store \<Rightarrow> id"

definition player_env_of :: "log_env \<Rightarrow> player_env" where
  "player_env_of env = \<lparr>pe_post = ce_post (le_chat env), pe_fresh_player = le_fresh_player env\<rparr>"

definition log_row :: "id \<Rightarrow> time \<Rightarrow> server_instance \<Rightarrow> string \<Rightarrow> server_log" where
  "log_row lid now server content = \<lparr>log_id = lid, log_orgId = si_orgId server, log_serverInstanceId = si_id server,
     log_content = content, log_createdAt = now\<rparr>"

definition append_log ::
  "log_env \<Rightarrow> log_mem \<Rightarrow> store \<Rightarrow> time \<Rightarrow> id \<Rightarrow> id \<Rightarrow> string \<Rightarrow> (log_mem \<times> store) result" where
  "append_log env mem s now hostId sid content =
    (if content = [] then Inr (mem, s)
     else if 65536 < length content then Inl (BadRequestException ''Log chunk exceeds 64 KiB'')
     else (case List.find (\<lambda>x. si_id x = sid \<and> si_hostId x = hostId) (t_serverInstances s) of
       None \<Rightarrow> Inl (NotFoundException ''Server instance not found for agent host'')
     | Some server \<Rightarrow>
         let oid = si_orgId server; nm = si_name server;
             s1 = s\<lparr>t_serverLogs := t_serverLogs s @ [log_row (le_fresh_log env s) now server content]\<rparr>;
             (tails, s2) = match_keyword_alerts (ce_fresh_event (le_chat env)) (lg_tails mem) s1 now oid sid content;
             (chat3, s3) = parse_chat (le_chat env) now oid sid nm content (lg_chat mem, s2);
             (buffers, alerts, s4) = parse_players (player_env_of env) now oid sid nm content
               (lg_lineBuffers mem, cm_alerts chat3, s3);
             (chat5, s5) = retry_chat_relays (le_chat env) now oid sid (chat3\<lparr>cm_alerts := alerts\<rparr>, s4);
             (lastPrune, s6) = prune (lg_lastPrune mem) s5 now oid
         in Inr (\<lparr>lg_chat = chat5, lg_tails = tails, lg_lineBuffers = buffers, lg_lastPrune = lastPrune\<rparr>, s6)))"

section \<open>What each part leaves alone\<close>

lemma players_inv_cong: "t_players s' = t_players s \<Longrightarrow> t_sessions s' = t_sessions s \<Longrightarrow> players_inv s' = players_inv s"
  by (simp add: players_inv_def open_session_def)

definition same_players :: "store \<Rightarrow> store \<Rightarrow> bool" where
  "same_players s x \<longleftrightarrow> t_players x = t_players s \<and> t_sessions x = t_sessions s \<and> t_serverLogs x = t_serverLogs s \<and>
     t_orgs x = t_orgs s"

lemma same_players_refl [simp]: "same_players s s"
  by (simp add: same_players_def)

lemma same_players_trans: "same_players s t \<Longrightarrow> same_players t u \<Longrightarrow> same_players s u"
  by (simp add: same_players_def)

lemma same_players_event: "same_players s (add_event e s)"
  by (simp add: same_players_def add_event_def)

lemma same_players_job: "same_players s (insert_job ids s now oid uid si ty p)"
  by (simp add: same_players_def insert_job_def Let_def add_job_def)

lemma scan_rules_same: "same_players s (scan_rules fresh now oid sid prior content rs s)"
  using scan_rules_events [of fresh now oid sid prior content rs s] by (auto simp: same_players_def)

lemma moderate_chat_same:
  assumes "moderate_chat env mem s now oid sid pid nm msg = (mem', s', b)"
  shows "same_players s s'"
proof -
  have "same_players s (enqueue_moderation_command env (add_event e s) now oid sid c)" for e c
    using same_players_trans [OF same_players_event same_players_job]
    by (simp add: enqueue_moderation_command_def same_players_event split: option.split)
  with assms show ?thesis
    by (auto simp: moderate_chat_def Let_def same_players_event split: if_splits option.splits prod.splits)
qed

lemma record_chat_same: "same_players s (snd (record_chat env now oid sid nm l (mem, s)))"
proof -
  let ?s1 = "add_event (chat_event (ce_fresh_event env s) now oid sid ''player_chat'' (chat_payload nm l)) s"
  obtain mem2 s2 b where m: "moderate_chat env mem ?s1 now oid sid (cl_playerId l) (cl_playerName l) (cl_message l) = (mem2, s2, b)"
    by (metis prod_cases3)
  have "same_players s s2"
    by (rule same_players_trans [OF same_players_event moderate_chat_same [OF m]])
  with m show ?thesis
    by (auto simp: record_chat_def Let_def same_players_event intro: same_players_trans same_players_event split: prod.split)
qed

lemma parse_chat_same: "same_players s (snd (parse_chat env now oid sid nm content (mem, s)))"
  unfolding parse_chat_def
  by (auto split: prod.split intro!: fold_store_inv [where Q = "same_players s"] intro: same_players_trans record_chat_same)

lemma retry_relays_same: "same_players s (snd (retry_chat_relays env now oid sid (mem, s)))"
  unfolding retry_chat_relays_def
  by (rule fold_store_inv [where Q = "same_players s"]) (auto simp: retry_relay_def Let_def same_players_def split: prod.split)

text \<open>The parser of player lines writes players, sessions and the audit table only.\<close>

definition only_players :: "store \<Rightarrow> store \<Rightarrow> bool" where
  "only_players s x \<longleftrightarrow> t_events x = t_events s \<and> t_serverLogs x = t_serverLogs s \<and> t_orgs x = t_orgs s"

lemma alerts_only_players: "only_players s x \<Longrightarrow> only_players s (snd (send_matching_rules post mem x now ty ctx))"
proof -
  have "only_audit x (snd (send_matching_rules post mem x now ty ctx))" by (rule send_matching_only_audit)
  then obtain a where "snd (send_matching_rules post mem x now ty ctx) = x\<lparr>t_audit := a\<rparr>"
    unfolding only_audit_def by blast
  then show "only_players s x \<Longrightarrow> ?thesis" by (simp add: only_players_def)
qed

lemma reconcile_only_players: "only_players s (reconcile_name_fallback s sid key nm st eo)"
  by (auto simp: only_players_def reconcile_name_fallback_def split: option.split)

lemma apply_line_only_players: "only_players s (snd (apply_player_line env now oid sid nm l (mem, s)))"
proof -
  let ?r = "reconcile_name_fallback s sid (log_identity_key l) (pn_name l) (pn_steam l) (pn_eos l)"
  have r: "only_players s ?r" by (rule reconcile_only_players)
  have "only_players s (?r\<lparr>t_players := p, t_sessions := q\<rparr>)" "only_players s (?r\<lparr>t_players := p\<rparr>)" for p q
    using r by (simp_all add: only_players_def)
  with r show ?thesis
    by (auto simp: apply_player_line_def Let_def intro!: alerts_only_players split: option.split)
qed

lemma parse_players_only: "only_players s (snd (snd (parse_players env now oid sid nm content (buffers, mem, s))))"
proof -
  have "only_players s (snd (fold (apply_player_line env now oid sid nm) ls (mem, s)))" for ls
  proof (rule fold_store_inv)
    fix x m s' assume "only_players s s'"
    with apply_line_only_players [of s' env now oid sid nm x m]
    show "only_players s (snd (apply_player_line env now oid sid nm x (m, s')))" by (simp add: only_players_def)
  qed (simp add: only_players_def)
  then show ?thesis by (simp add: parse_players_def split: prod.split)
qed

lemma keyword_scan_unique:
  assumes "chat_unique s"
  shows "chat_unique (scan_rules fresh now oid sid prior content rs s)"
proof -
  from scan_rules_events [of fresh now oid sid prior content rs s] obtain es where
    es: "scan_rules fresh now oid sid prior content rs s = s\<lparr>t_events := t_events s @ es\<rparr>"
      "\<forall>e \<in> set es. ev_eventType e = ''log_keyword_match''" by blast
  have "List.map_filter chat_stamp es = []"
    using es(2) by (auto simp: List.map_filter_def filter_empty_conv chat_stamp_def)
  with assms show ?thesis by (simp add: es(1) chat_unique_def List.map_filter_def)
qed

lemma prune_rows:
  assumes "prune lp s now oid = (lp', s')"
  shows "t_players s' = t_players s" "t_sessions s' = t_sessions s" "t_events s' = t_events s"
    "t_serverLogs s' = (case find_org s oid of
       Some x \<Rightarrow> if prune_recent oid now lp then t_serverLogs s
         else delete_where (\<lambda>l. log_orgId l = oid \<and> log_createdAt l < now - retention_ms x) (t_serverLogs s)
     | None \<Rightarrow> t_serverLogs s)"
  using assms by (auto simp: prune_def prune_admit_def Let_def split: if_splits option.splits)

text \<open>The stages of an upload, as one record of what each of them keeps.\<close>

lemma append_stages:
  assumes "append_log env mem s now hid sid content = Inr (mem', s')" and "content \<noteq> []"
  obtains server s2 s4 s5 ch chat' lp' where
    "server \<in> set (t_serverInstances s)" "si_id server = sid" "si_hostId server = hid" "length content \<le> 65536"
    "same_players (s\<lparr>t_serverLogs := t_serverLogs s @ [log_row (le_fresh_log env s) now server content]\<rparr>) s2"
    "chat_unique s \<Longrightarrow> chat_unique s2"
    "s4 = snd (snd (parse_players (player_env_of env) now (si_orgId server) sid (si_name server) content (lg_lineBuffers mem, ch, s2)))"
    "s5 = snd (retry_chat_relays (le_chat env) now (si_orgId server) sid (chat', s4))"
    "prune (lg_lastPrune mem) s5 now (si_orgId server) = (lp', s')"
proof -
  from assms obtain server where server: "List.find (\<lambda>x. si_id x = sid \<and> si_hostId x = hid) (t_serverInstances s) = Some server"
    and len: "length content \<le> 65536"
    by (auto simp: append_log_def split: if_splits option.splits)
  from find_SomeD [OF server] have sv: "server \<in> set (t_serverInstances s)" "si_id server = sid" "si_hostId server = hid" by auto
  let ?oid = "si_orgId server" and ?nm = "si_name server"
  let ?s1 = "s\<lparr>t_serverLogs := t_serverLogs s @ [log_row (le_fresh_log env s) now server content]\<rparr>"
  obtain tails k where k: "match_keyword_alerts (ce_fresh_event (le_chat env)) (lg_tails mem) ?s1 now ?oid sid content = (tails, k)"
    by (metis prod.exhaust)
  obtain chat3 s2 where c: "parse_chat (le_chat env) now ?oid sid ?nm content (lg_chat mem, k) = (chat3, s2)"
    by (metis prod.exhaust)
  obtain buffers alerts s4 where p: "parse_players (player_env_of env) now ?oid sid ?nm content
      (lg_lineBuffers mem, cm_alerts chat3, s2) = (buffers, alerts, s4)" by (metis prod_cases3)
  obtain chat5 s5 where r: "retry_chat_relays (le_chat env) now ?oid sid (chat3\<lparr>cm_alerts := alerts\<rparr>, s4) = (chat5, s5)"
    by (metis prod.exhaust)
  obtain lp' s6 where q: "prune (lg_lastPrune mem) s5 now ?oid = (lp', s6)" by (metis prod.exhaust)
  have s6: "s6 = s'"
    using assms server k c p r q by (simp add: append_log_def Let_def split: if_splits)
  obtain rs where ks: "k = scan_rules (ce_fresh_event (le_chat env)) now ?oid sid (lg_tails mem sid) content rs ?s1"
    using k by (auto simp: match_keyword_alerts_def Let_def)
  have s2: "s2 = snd (parse_chat (le_chat env) now ?oid sid ?nm content (lg_chat mem, k))" by (simp add: c)
  have same: "same_players ?s1 s2"
    unfolding s2 by (rule same_players_trans [OF _ parse_chat_same]) (simp add: ks scan_rules_same)
  have unique: "chat_unique s2" if "chat_unique s"
  proof -
    have "chat_unique ?s1" using that by (simp add: chat_unique_def)
    then have "chat_unique k" unfolding ks by (rule keyword_scan_unique)
    then show ?thesis unfolding s2 by (rule parse_chat_unique)
  qed
  show thesis
  proof (rule that [OF sv len same unique])
    show "s4 = snd (snd (parse_players (player_env_of env) now ?oid sid ?nm content (lg_lineBuffers mem, cm_alerts chat3, s2)))"
      by (simp add: p)
    show "s5 = snd (retry_chat_relays (le_chat env) now ?oid sid (chat3\<lparr>cm_alerts := alerts\<rparr>, s4))" by (simp add: r)
    show "prune (lg_lastPrune mem) s5 now ?oid = (lp', s')" using q s6 by simp
  qed
qed

section \<open>Properties\<close>


text \<open>
  An uploaded chunk is kept: it is stored for the server and the server's organisation, and
  the only rows an upload removes are those of the organisation that are older than its
  retention, at most once a minute.
\<close>

theorem upload_stored:
  assumes ok: "append_log env mem s now hid sid content = Inr (mem', s')" and ne: "content \<noteq> []"
  shows "\<exists>server \<in> set (t_serverInstances s). si_id server = sid \<and> si_hostId server = hid \<and>
    (let rows = t_serverLogs s @ [log_row (le_fresh_log env s) now server content] in
     t_serverLogs s' = (case find_org s (si_orgId server) of
       Some x \<Rightarrow> if prune_recent (si_orgId server) now (lg_lastPrune mem) then rows
         else filter (\<lambda>l. log_orgId l = si_orgId server \<longrightarrow> now - retention_ms x \<le> log_createdAt l) rows
     | None \<Rightarrow> rows))"
proof -
  from ok ne show ?thesis
  proof (rule append_stages)
    fix server s2 s4 s5 ch chat' lp'
    let ?s1 = "s\<lparr>t_serverLogs := t_serverLogs s @ [log_row (le_fresh_log env s) now server content]\<rparr>"
    assume sv: "server \<in> set (t_serverInstances s)" "si_id server = sid" "si_hostId server = hid"
      and same: "same_players ?s1 s2"
      and s4: "s4 = snd (snd (parse_players (player_env_of env) now (si_orgId server) sid (si_name server) content (lg_lineBuffers mem, ch, s2)))"
      and s5: "s5 = snd (retry_chat_relays (le_chat env) now (si_orgId server) sid (chat', s4))"
      and s': "prune (lg_lastPrune mem) s5 now (si_orgId server) = (lp', s')"
    have "only_players s2 s4" unfolding s4 by (rule parse_players_only)
    moreover have "same_players s4 s5" unfolding s5 by (rule retry_relays_same)
    ultimately have rows: "t_serverLogs s5 = t_serverLogs s @ [log_row (le_fresh_log env s) now server content]" "t_orgs s5 = t_orgs s"
      using same by (simp_all add: same_players_def only_players_def)
    then have org: "find_org s5 (si_orgId server) = find_org s (si_orgId server)" by (simp add: find_org_def)
    have keep: "delete_where (\<lambda>l. log_orgId l = oid \<and> log_createdAt l < b) xs =
        filter (\<lambda>l. log_orgId l = oid \<longrightarrow> b \<le> log_createdAt l) xs" for oid b xs
      unfolding delete_where_def by (rule filter_cong) auto
    show ?thesis
    proof (intro bexI [of _ server] conjI)
      show "let rows = t_serverLogs s @ [log_row (le_fresh_log env s) now server content] in
        t_serverLogs s' = (case find_org s (si_orgId server) of
          Some x \<Rightarrow> if prune_recent (si_orgId server) now (lg_lastPrune mem) then rows
            else filter (\<lambda>l. log_orgId l = si_orgId server \<longrightarrow> now - retention_ms x \<le> log_createdAt l) rows
        | None \<Rightarrow> rows)"
        using prune_rows(4) [OF s'] unfolding rows org keep Let_def by simp
    qed (use sv in auto)
  qed
qed

text \<open>An upload of one line by the sample host.\<close>

definition sample_log_env :: log_env where
  "sample_log_env = \<lparr>le_chat = sample_chat_env, le_fresh_log = (\<lambda>s. CHR ''l'' # concat (map log_id (t_serverLogs s))),
     le_fresh_player = pe_fresh_player sample_env\<rparr>"

definition sample_log_mem :: log_mem where
  "sample_log_mem = \<lparr>lg_chat = sample_chat_mem, lg_tails = (\<lambda>_. []), lg_lineBuffers = (\<lambda>_. []), lg_lastPrune = (\<lambda>_. None)\<rparr>"

lemma sample_upload: "\<exists>mem' s'. append_log sample_log_env sample_log_mem sample_world 5 ''h'' ''s'' ''started'' = Inr (mem', s')"
  by (simp add: append_log_def sample_world_def sample_server_def Let_def split: prod.split)

lemma sample_log_env_ok: "env_ok (player_env_of sample_log_env)"
  using sample_env_ok by (simp add: env_ok_def player_env_of_def sample_log_env_def)

lemma sample_books: "players_inv sample_world" "chat_unique sample_world"
  by (simp_all add: players_inv_def chat_unique_def sample_world_def empty_store_def List.map_filter_simps)


theorem upload_stored_witness:
  "\<exists>mem' s'. append_log sample_log_env sample_log_mem sample_world 5 ''h'' ''s'' ''started'' = Inr (mem', s') \<and>
     map log_content (t_serverLogs s') = [''started''] \<and> map log_orgId (t_serverLogs s') = [''o'']"
proof -
  obtain mem' s' where u: "append_log sample_log_env sample_log_mem sample_world 5 ''h'' ''s'' ''started'' = Inr (mem', s')"
    using sample_upload by blast
  from upload_stored [OF u] have "map log_content (t_serverLogs s') = [''started''] \<and> map log_orgId (t_serverLogs s') = [''o'']"
    by (simp add: sample_world_def sample_server_def find_org_def new_org_def prune_recent_def sample_log_mem_def
        log_row_def empty_store_def)
  with u show ?thesis by (intro exI [of _ mem'] exI [of _ s'] conjI) simp_all
qed

end
