(* ===== verification/Frigate.thy ===== *)
theory Frigate
  imports Alerts
begin

text \<open>
  \<open>frigate/frigate-webhook.controller.ts\<close>: detections pushed by a camera recorder become alerts.
  The body is JSON; a score is the percentage the alert shows, since the model's numbers are
  integers.
\<close>

definition string_field :: "json \<Rightarrow> string \<Rightarrow> string option" where
  "string_field v k = (case jget v k of Some (JStr x) \<Rightarrow> Some x | _ \<Rightarrow> None)"

definition int_field :: "json \<Rightarrow> string \<Rightarrow> int option" where
  "int_field v k = (case jget v k of Some (JNum n) \<Rightarrow> Some n | _ \<Rightarrow> None)"

definition frigate_context :: "id \<Rightarrow> json \<Rightarrow> alert_context" where
  "frigate_context orgId detection = \<lparr>ac_orgId = orgId, ac_orgName = None, ac_serverInstanceId = None,
     ac_serverInstanceName = None, ac_hostId = None, ac_hostName = None, ac_lastHeartbeatAt = None, ac_reason = None,
     ac_frigateCamera = string_field detection ''camera'', ac_frigateLabel = string_field detection ''label'',
     ac_frigateScore = or_else (int_field detection ''top_score'') (int_field detection ''score''),
     ac_playerName = None, ac_steamId = None, ac_eosId = None, ac_sessionSeconds = None\<rparr>"

text \<open>The detection a body announces: a new one that is not a false positive.\<close>

definition announced_detection :: "json \<Rightarrow> json option" where
  "announced_detection payload =
    (if jget payload ''type'' \<noteq> Some (JStr ''new'') then None
     else let detection = or_else (nullish_get payload ''after'') (nullish_get payload ''before'') in
       case detection of
         None \<Rightarrow> None
       | Some d \<Rightarrow> if \<not> truthy detection \<or> truthy (jget d ''false_positive'') then None else Some d)"

definition handle_webhook ::
  "post_fun \<Rightarrow> alerts_mem \<Rightarrow> store \<Rightarrow> time \<Rightarrow> id \<Rightarrow> json \<Rightarrow> string option \<Rightarrow> (alerts_mem \<times> store) result" where
  "handle_webhook post mem s now orgId payload incomingSecret = (case find_org s orgId of
     None \<Rightarrow> Inl (NotFoundException ''Org not found'')
   | Some x \<Rightarrow>
       if org_frigateWebhookSecret x \<noteq> None \<and> org_frigateWebhookSecret x \<noteq> Some [] \<and>
          incomingSecret \<noteq> org_frigateWebhookSecret x
       then Inl (ForbiddenException ''Invalid webhook secret'')
       else Inr (case announced_detection payload of
           None \<Rightarrow> (mem, s)
         | Some d \<Rightarrow> (case send_alert post mem s now ''FRIGATE_DETECTION'' (frigate_context orgId d) of
             (mem', s', _) \<Rightarrow> (mem', s'))))"

section \<open>Properties\<close>

text \<open>
  A request that does not know the organisation's secret is refused; without a secret the
  endpoint, which has no other guard, is open to everyone.  What gets through writes the audit
  table at most, once per new detection that is no false positive.
\<close>

theorem webhook_gate:
  assumes "find_org s oid = Some x"
  shows "((\<exists>e. handle_webhook post mem s now oid payload secret = Inl e) \<longleftrightarrow>
      (\<exists>k. org_frigateWebhookSecret x = Some k \<and> k \<noteq> [] \<and> secret \<noteq> Some k)) \<and>
    (\<forall>mem' s'. handle_webhook post mem s now oid payload secret = Inr (mem', s') \<longrightarrow>
      only_audit s s' \<and> (announced_detection payload = None \<longrightarrow> s' = s \<and> mem' = mem))"
proof -
  have "only_audit s (fst (snd (send_alert post mem s now ty ctx)))" for ty ctx
    by (auto simp: send_alert_def Let_def audit_alert_def add_audit_def only_audit_def split: option.split prod.split
        send_result.split)
  then have "\<And>mem' s' r ctx. send_alert post mem s now ''FRIGATE_DETECTION'' ctx = (mem', s', r) \<Longrightarrow> only_audit s s'"
    by (metis fst_conv snd_conv)
  then show ?thesis
    using assms by (auto simp: handle_webhook_def split: option.splits prod.splits if_splits)
qed

end
