(* ===== verification/VisitMap.thy ===== *)
theory VisitMap
  imports JsValues Regex
begin

text \<open>
  The progress of a map exploration in the web server's \<open>web/src/app/api/live-map\<close> route: the tail
  of the game's log is read line by line, and the state is derived from the times of the last
  commands, the last progress report and the last end report.  A time is None where
  \<open>Date.parse\<close> returns NaN; every comparison with NaN is false.
\<close>

section \<open>Lines\<close>

type_synonym stamp = "time option"

definition stamp_re :: re where
  "stamp_re = Seqs [Bol, Group 1 (Seqs [Times 4 Digit, lit ''-'', Times 2 Digit, lit ''-'', Times 2 Digit, lit ''T'',
     Times 2 Digit, lit '':'', Times 2 Digit, lit '':'', Times 2 Digit])]"

text \<open>\<open>Date.parse(text + 'Z')\<close>; midnight at the end of a day may be written 24:00:00.\<close>

definition stamp_of :: "string \<Rightarrow> stamp" where
  "stamp_of t = (if drop 11 t = ''24:00:00''
     then map_option (\<lambda>d. d + ms_day) (js_date_parse (take 11 t @ ''00:00:00.000Z''))
     else js_date_parse (t @ ''.000Z''))"

definition line_stamp :: "string \<Rightarrow> stamp" where
  "line_stamp line = (case re_group stamp_re 1 line of None \<Rightarrow> Some 0 | Some t \<Rightarrow> stamp_of t)"

definition stamp_max :: "stamp \<Rightarrow> stamp \<Rightarrow> stamp" where
  "stamp_max a b = (case (a, b) of (Some x, Some y) \<Rightarrow> Some (max x y) | _ \<Rightarrow> None)"

definition stamp_ge :: "stamp \<Rightarrow> stamp \<Rightarrow> bool" where
  "stamp_ge a b = (case (a, b) of (Some x, Some y) \<Rightarrow> y \<le> x | _ \<Rightarrow> False)"

definition stamp_gt :: "stamp \<Rightarrow> stamp \<Rightarrow> bool" where
  "stamp_gt a b = (case (a, b) of (Some x, Some y) \<Rightarrow> y < x | _ \<Rightarrow> False)"

text \<open>\<open>Date.now() - t < 30_000\<close>\<close>

definition fresh_at :: "time \<Rightarrow> stamp \<Rightarrow> bool" where
  "fresh_at now t = (case t of None \<Rightarrow> False | Some x \<Rightarrow> now - x < 30000)"

definition visit_progress_re :: re where
  "visit_progress_re = Seqs [lit_i ''VisitMap ('', Group 1 (Plus Digit), lit_i ''%):'', Star Space, Group 2 (Plus Digit),
     Star Space, lit_i ''/'', Star Space, Group 3 (Plus Digit), lit_i '' chunks done'',
     Opt (Seqs [lit_i '' (estimated time left '', Group 4 (Plus (Cls (\<lambda>c. is_digit c \<or> c = CHR ''.''))), lit_i '' seconds)''])]"

definition apostrophe :: string where "apostrophe = [CHR 0x27]"

definition visit_stop_re :: re where
  "visit_stop_re = lit_i (''Executing command '' @ apostrophe @ ''visitmap stop'' @ apostrophe)"

definition visit_start_re :: re where
  "visit_start_re = Seq (lit_i (''Executing command '' @ apostrophe @ ''visitmap ''))
     (Alt (lit_i ''full'') (Seq (Opt (lit_i ''-'')) (Plus Digit)))"

definition word_re :: "string list \<Rightarrow> re" where
  "word_re ws = Seqs [WordB, foldr (\<lambda>w r. Alt (lit_i w) r) (butlast ws) (lit_i (last ws)), WordB]"

definition visit_stopped_re :: re where
  "visit_stopped_re = word_re [''stopped'', ''cancelled'', ''canceled'', ''aborted'']"

definition visit_complete_re :: re where
  "visit_complete_re = word_re [''completed'', ''complete'', ''finished'']"

section \<open>The scan\<close>

datatype visit_state = Idle | Running | Stalled | Stopped | Complete

record visit_progress =
  vp_percent :: int
  vp_done :: int
  vp_total :: int
  vp_estimatedSeconds :: "js_num option"
  vp_at :: string
  vp_timestamp :: stamp

record visit_scan =
  vs_progress :: "visit_progress option"
  vs_stop :: stamp
  vs_start :: stamp
  vs_terminal :: "(visit_state \<times> stamp) option"

definition scan_start :: visit_scan where
  "scan_start = \<lparr>vs_progress = None, vs_stop = Some 0, vs_start = Some 0, vs_terminal = None\<rparr>"

definition line_number :: "captures \<Rightarrow> nat \<Rightarrow> int" where
  "line_number caps i = (case map_of caps i of None \<Rightarrow> 0 | Some ds \<Rightarrow> int (digits_value ds))"

definition line_progress :: "string \<Rightarrow> visit_progress option" where
  "line_progress line = (case re_match visit_progress_re line of
     None \<Rightarrow> None
   | Some caps \<Rightarrow> Some \<lparr>vp_percent = line_number caps 1, vp_done = line_number caps 2, vp_total = line_number caps 3,
       vp_estimatedSeconds = map_option js_number (map_of caps 4),
       vp_at = (case re_group stamp_re 1 line of None \<Rightarrow> [] | Some t \<Rightarrow> t @ ''Z''),
       vp_timestamp = line_stamp line\<rparr>)"

definition line_terminal :: "string \<Rightarrow> visit_state option" where
  "line_terminal line =
    (if re_test (lit_i ''VisitMap'') line \<and> \<not> re_test (lit_i ''chunks done'') line
     then if re_test visit_stopped_re line then Some Stopped
          else if re_test visit_complete_re line then Some Complete else None
     else None)"

definition scan_line :: "string \<Rightarrow> visit_scan \<Rightarrow> visit_scan" where
  "scan_line line v =
    (let timestamp = line_stamp line;
         v1 = (case line_progress line of None \<Rightarrow> v | Some p \<Rightarrow> v\<lparr>vs_progress := Some p\<rparr>);
         v2 = (if re_test visit_stop_re line then v1\<lparr>vs_stop := timestamp\<rparr>
               else if re_test visit_start_re line then v1\<lparr>vs_start := timestamp\<rparr> else v1)
     in case line_terminal line of None \<Rightarrow> v2 | Some st \<Rightarrow> v2\<lparr>vs_terminal := Some (st, timestamp)\<rparr>)"

definition progress_stamp :: "visit_scan \<Rightarrow> stamp" where
  "progress_stamp v = (case vs_progress v of None \<Rightarrow> Some 0 | Some p \<Rightarrow> vp_timestamp p)"

definition visit_state_of :: "time \<Rightarrow> visit_scan \<Rightarrow> visit_state" where
  "visit_state_of now v =
    (let last = stamp_max (vs_start v) (progress_stamp v);
         running = (if stamp_gt (vs_start v) (progress_stamp v)
           then if fresh_at now (vs_start v) then Running else Stalled
           else (case vs_progress v of
             None \<Rightarrow> Idle
           | Some p \<Rightarrow> if 100 \<le> vp_percent p \<or> vp_total p \<le> vp_done p then Complete
               else if fresh_at now (vp_timestamp p) then Running else Stalled))
     in if stamp_ge (vs_stop v) last then Stopped
        else (case vs_terminal v of
          None \<Rightarrow> running
        | Some (st, t) \<Rightarrow> if stamp_ge t last then st else running))"

text \<open>The last 512 KiB of the log, one character per byte (the patterns are ASCII).\<close>

definition log_tail :: "string \<Rightarrow> string" where
  "log_tail s = drop (length s - 512 * 1024) s"

definition scan_log :: "string list \<Rightarrow> visit_scan" where
  "scan_log ls = fold scan_line ls scan_start"

definition visitmap_status :: "time \<Rightarrow> string \<Rightarrow> visit_state \<times> visit_progress option" where
  "visitmap_status now log =
    (let v = scan_log (split_lines (log_tail log)) in (visit_state_of now v, vs_progress v))"

section \<open>Lemmas\<close>

text \<open>A scan of lines whose times are dates after 1970 has only such times.\<close>

definition scan_timed :: "visit_scan \<Rightarrow> bool" where
  "scan_timed v \<longleftrightarrow> stamp_ge (vs_stop v) (Some 0) \<and> stamp_ge (vs_start v) (Some 0) \<and> stamp_ge (progress_stamp v) (Some 0)"

lemma line_progress_stamp: "line_progress line = Some p \<Longrightarrow> vp_timestamp p = line_stamp line"
  by (auto simp: line_progress_def split: option.splits)

lemma scan_line_timed: "stamp_ge (line_stamp line) (Some 0) \<Longrightarrow> scan_timed v \<Longrightarrow> scan_timed (scan_line line v)"
  by (auto simp: scan_timed_def scan_line_def Let_def progress_stamp_def dest: line_progress_stamp split: option.splits)

lemma fold_scan_timed: "\<forall>l \<in> set ls. stamp_ge (line_stamp l) (Some 0) \<Longrightarrow> scan_timed v \<Longrightarrow> scan_timed (fold scan_line ls v)"
  by (induction ls arbitrary: v) (simp_all add: scan_line_timed)

lemma scan_start_timed: "scan_timed scan_start"
  by (simp add: scan_timed_def scan_start_def stamp_ge_def progress_stamp_def)

text \<open>Where the parts of a scan come from.\<close>

definition scan_known :: "string set \<Rightarrow> visit_scan \<Rightarrow> bool" where
  "scan_known L v \<longleftrightarrow> (vs_start v = Some 0 \<or> (\<exists>l \<in> L. re_test visit_start_re l \<and> line_stamp l = vs_start v)) \<and>
     (\<forall>p. vs_progress v = Some p \<longrightarrow> (\<exists>l \<in> L. line_progress l = Some p)) \<and>
     (\<forall>st t. vs_terminal v = Some (st, t) \<longrightarrow> st \<in> {Stopped, Complete})"

lemma line_terminal_range: "line_terminal line = Some st \<Longrightarrow> st = Stopped \<or> st = Complete"
  by (auto simp: line_terminal_def split: if_splits)

lemma scan_line_known: "scan_known L v \<Longrightarrow> line \<in> L \<Longrightarrow> scan_known L (scan_line line v)"
  by (auto simp: scan_known_def scan_line_def Let_def dest: line_terminal_range split: option.split)

lemma fold_scan_known: "set ls \<subseteq> L \<Longrightarrow> scan_known L v \<Longrightarrow> scan_known L (fold scan_line ls v)"
  by (induction ls arbitrary: v) (simp_all add: scan_line_known)

lemma scan_log_known: "scan_known (set ls) (scan_log ls)"
  unfolding scan_log_def by (rule fold_scan_known) (simp_all add: scan_known_def scan_start_def)

text \<open>A line that has nothing to do with the exploration.\<close>

definition quiet_line :: "string \<Rightarrow> bool" where
  "quiet_line l \<longleftrightarrow> line_progress l = None \<and> \<not> re_test visit_stop_re l \<and> \<not> re_test visit_start_re l \<and> line_terminal l = None"

lemma scan_quiet: "\<forall>l \<in> set ls. quiet_line l \<Longrightarrow> fold scan_line ls v = v"
  by (induction ls arbitrary: v) (simp_all add: quiet_line_def scan_line_def)

lemma timed_not_idle:
  assumes "scan_timed v" and "scan_known L v"
  shows "visit_state_of now v \<noteq> Idle"
proof (cases "vs_progress v")
  case None
  with assms show ?thesis
    by (auto simp: visit_state_of_def Let_def scan_timed_def scan_known_def progress_stamp_def stamp_ge_def stamp_gt_def
        stamp_max_def split: option.splits if_splits)
next
  case (Some p)
  with assms(2) show ?thesis
    by (auto simp: visit_state_of_def Let_def scan_known_def split: option.splits if_splits)
qed

lemma running_fresh:
  assumes "scan_known L v" and "visit_state_of now v = Running" and "30000 \<le> now"
  shows "\<exists>l \<in> L. fresh_at now (line_stamp l) \<and> (re_test visit_start_re l \<or> line_progress l \<noteq> None)"
proof -
  from assms(1,2) consider "fresh_at now (vs_start v)" | p where "vs_progress v = Some p" "fresh_at now (vp_timestamp p)"
    by (auto simp: visit_state_of_def Let_def scan_known_def split: option.splits if_splits)
  then show ?thesis
  proof cases
    case 1
    with assms(3) have "vs_start v \<noteq> Some 0" by (auto simp: fresh_at_def)
    with assms(1) obtain l where "l \<in> L" "re_test visit_start_re l" "line_stamp l = vs_start v"
      unfolding scan_known_def by blast
    with 1 show ?thesis by metis
  next
    case 2
    with assms(1) obtain l where "l \<in> L" "line_progress l = Some p" unfolding scan_known_def by blast
    moreover from this 2 have "fresh_at now (line_stamp l)" by (metis line_progress_stamp)
    ultimately show ?thesis by auto
  qed
qed

section \<open>Properties\<close>

text \<open>
  The state \<open>idle\<close> does not occur: with log times after 1970 the status is one of the four others,
  and a log that never mentions an exploration is reported as \<open>stopped\<close> (the initial times are zero, and a
  stop at zero is not older than a start at zero).
\<close>

theorem visitmap_never_idle:
  assumes "\<forall>l \<in> set (split_lines (log_tail log)). stamp_ge (line_stamp l) (Some 0)"
  shows "fst (visitmap_status now log) \<noteq> Idle \<and>
    ((\<forall>l \<in> set (split_lines (log_tail log)). quiet_line l) \<longrightarrow> visitmap_status now log = (Stopped, None))"
proof
  let ?ls = "split_lines (log_tail log)"
  have "scan_timed (scan_log ?ls)"
    unfolding scan_log_def by (rule fold_scan_timed [OF assms scan_start_timed])
  from timed_not_idle [OF this scan_log_known] show "fst (visitmap_status now log) \<noteq> Idle"
    by (simp add: visitmap_status_def Let_def)
  show "(\<forall>l \<in> set ?ls. quiet_line l) \<longrightarrow> visitmap_status now log = (Stopped, None)"
    by (auto simp: visitmap_status_def scan_log_def scan_quiet scan_start_def visit_state_of_def Let_def
        progress_stamp_def stamp_ge_def stamp_max_def)
qed

theorem visitmap_never_idle_witness:
  "visitmap_status 5 ''Started.'' = (Stopped, None)"
proof -
  have ls: "split_lines (log_tail ''Started.'') = [''Started.'']" by (simp add: log_tail_def)
  have "stamp_ge (line_stamp ''Started.'') (Some 0)" "quiet_line ''Started.''" by code_simp+
  with visitmap_never_idle [of "''Started.''" 5] show ?thesis by (simp add: ls)
qed

text \<open>
  \<open>running\<close> is never a guess: some line of the tail is a start command or a progress report, and its
  time is less than thirty seconds ago.
\<close>

theorem visitmap_running_fresh:
  assumes "fst (visitmap_status now log) = Running" and "30000 \<le> now"
  shows "\<exists>l \<in> set (split_lines (log_tail log)). fresh_at now (line_stamp l) \<and>
    (re_test visit_start_re l \<or> line_progress l \<noteq> None)"
  using running_fresh [OF scan_log_known _ assms(2)] assms(1) by (simp add: visitmap_status_def Let_def)

definition sample_visit_line :: string where
  "sample_visit_line = ''1970-01-01T00:00:09 Executing command '' @ apostrophe @ ''visitmap full'' @ apostrophe"

lemma sample_visit_stamp: "line_stamp sample_visit_line = Some 9000"
proof -
  have "re_group stamp_re 1 sample_visit_line = Some ''1970-01-01T00:00:09''"
    by (simp add: sample_visit_line_def re_eval stamp_re_def)
  moreover have "stamp_of ''1970-01-01T00:00:09'' = Some 9000" by code_simp
  ultimately show ?thesis by (simp add: line_stamp_def)
qed

lemma sample_visit_tests:
  "re_test visit_start_re sample_visit_line" "\<not> re_test visit_stop_re sample_visit_line"
  "re_match visit_progress_re sample_visit_line = None"
  "\<not> re_test visit_stopped_re sample_visit_line" "\<not> re_test visit_complete_re sample_visit_line"
  by (simp_all add: sample_visit_line_def apostrophe_def re_eval visit_start_re_def visit_stop_re_def visit_progress_re_def
      visit_stopped_re_def visit_complete_re_def word_re_def)

theorem visitmap_running_fresh_witness:
  "fresh_at 30500 (line_stamp sample_visit_line) \<and>
    (re_test visit_start_re sample_visit_line \<or> line_progress sample_visit_line \<noteq> None)"
proof -
  have ls: "split_lines (log_tail sample_visit_line) = [sample_visit_line]"
    by (simp add: log_tail_def sample_visit_line_def apostrophe_def)
  have "scan_line sample_visit_line scan_start = scan_start\<lparr>vs_start := Some 9000\<rparr>"
    by (simp add: scan_line_def sample_visit_tests sample_visit_stamp line_progress_def line_terminal_def)
  then have "fst (visitmap_status 30500 sample_visit_line) = Running"
    by (simp add: visitmap_status_def ls scan_log_def scan_start_def visit_state_of_def progress_stamp_def
        stamp_ge_def stamp_gt_def stamp_max_def fresh_at_def)
  from visitmap_running_fresh [OF this] ls show ?thesis by simp
qed

end
