(* ===== verification/LiveMap.thy ===== *)
theory LiveMap
  imports VisitMap
begin

text \<open>
  The live map of the web server, \<open>web/src/app/api/live-map/[...path]/route.ts\<close>: which resources it
  serves, what it reads from the game's files and its console, and what it forwards.  The file
  system, the console connection, the session check and the game's web server are parameters.
  Coordinates of entities keep the exact decimal value of the text.
\<close>

section \<open>The resources\<close>

definition signed_re :: re where
  "signed_re = Seq (Opt (lit ''-'')) (Plus Digit)"

definition allowed_re :: re where
  "allowed_re = Seqs [Bol,
     foldr Alt [lit ''entities-live'', lit ''claims-live'', lit ''regions-live'', lit ''world-info'', lit ''visitmap-status'',
       Seq (lit ''api/'') (Alt (lit ''map/config'') (lit ''serverstats''))]
       (Seqs [lit ''map/'', Plus Digit, lit ''/'', signed_re, lit ''/'', signed_re, lit ''.png'']),
     Eol]"

definition int_text :: "string \<Rightarrow> int" where
  "int_text s = (case signed_digits s of None \<Rightarrow> 0 | Some n \<Rightarrow> n)"

section \<open>Entities from the game's console\<close>

record live_entity =
  le_id :: int
  le_name :: string
  le_type :: string
  le_x :: js_num
  le_y :: js_num
  le_z :: js_num

definition no_comma_re :: re where
  "no_comma_re = Plus (NotIn '',]'')"

definition identity_re :: re where
  "identity_re = Seqs [Bol, Plus Digit, lit_i ''.'', Plus Space, lit_i ''id='', Group 1 (Plus Digit), lit_i '','', Plus Space,
     lit_i ''[type='', Group 2 no_comma_re, lit_i '','', Plus Space, lit_i ''name='', Group 3 no_comma_re]"

definition decimal_re :: re where
  "decimal_re = Seq (Opt (lit_i ''-'')) (Plus (Cls (\<lambda>c. is_digit c \<or> c = CHR ''.'')))"

definition position_re :: re where
  "position_re = Seqs [WordB, lit_i ''pos=('', Group 1 decimal_re, lit_i '','', Star Space, Group 2 decimal_re, lit_i '','',
     Star Space, Group 3 decimal_re, lit_i '')'']"

definition dead_re :: re where
  "dead_re = Seqs [WordB, lit_i ''dead='', Group 1 (Alt (lit_i ''true'') (lit_i ''false'')), WordB]"

definition cap :: "captures \<Rightarrow> nat \<Rightarrow> string" where
  "cap caps i = (case map_of caps i of None \<Rightarrow> [] | Some s \<Rightarrow> s)"

definition parse_entity :: "string \<Rightarrow> live_entity option" where
  "parse_entity line = (case (re_match identity_re line, re_match position_re line) of
     (Some identity, Some position) \<Rightarrow>
       if map_option js_lower (re_group dead_re 1 line) = Some ''true'' then None
       else Some \<lparr>le_id = int (digits_value (cap identity 1)), le_name = js_trim (cap identity 3),
         le_type = js_trim (cap identity 2), le_x = js_number (cap position 1), le_y = js_number (cap position 2),
         le_z = js_number (cap position 3)\<rparr>
   | _ \<Rightarrow> None)"

definition parse_entities :: "string \<Rightarrow> live_entity list" where
  "parse_entities output = List.map_filter parse_entity (split_lines output)"

definition all_listed_re :: re where
  "all_listed_re = Seqs [lit ''Total of '', Plus Digit, lit '' in the game'']"

text \<open>
  What the connection delivers after the command was sent.  The first event that settles the promise
  decides; None is a promise still open.
\<close>

datatype console_event = Data string | Failed string | TimedOut

fun live_entities :: "string \<Rightarrow> console_event list \<Rightarrow> (string + live_entity list) option" where
  "live_entities output [] = None"
| "live_entities output (Data chunk # es) =
     (if re_test all_listed_re (output @ chunk) then Some (Inr (parse_entities (output @ chunk)))
      else live_entities (output @ chunk) es)"
| "live_entities output (Failed msg # es) = Some (Inl msg)"
| "live_entities output (TimedOut # es) = Some (Inl ''entity query timed out'')"

section \<open>Files of the game\<close>

record dirent =
  de_name :: string
  de_file :: bool
  de_dir :: bool

definition region_re :: re where
  "region_re = Seqs [Bol, lit_i ''r.'', Group 1 signed_re, lit_i ''.'', Group 2 signed_re, lit_i ''.7rg'', Eol]"

record region =
  rg_name :: string
  rg_x :: int
  rg_z :: int

definition region_of :: "dirent \<Rightarrow> region option" where
  "region_of e = (if \<not> de_file e then None else (case re_match region_re (de_name e) of
     None \<Rightarrow> None
   | Some caps \<Rightarrow> Some \<lparr>rg_name = de_name e, rg_x = int_text (cap caps 1), rg_z = int_text (cap caps 2)\<rparr>))"

definition regions_of :: "dirent list \<Rightarrow> region list" where
  "regions_of = List.map_filter region_of"

text \<open>The configuration of the map when the game's web server is down; an unreadable directory gives the default.\<close>

definition max_zoom :: "(string + dirent list) \<Rightarrow> int" where
  "max_zoom levels = (case levels of Inl _ \<Rightarrow> 4 | Inr es \<Rightarrow>
     (let zooms = map (\<lambda>e. int (digits_value (de_name e)))
            (filter (\<lambda>e. de_dir e \<and> de_name e \<noteq> [] \<and> list_all is_digit (de_name e)) es)
      in if zooms = [] then 4 else Max (set zooms)))"

definition map_extent :: "(string + dirent list) \<Rightarrow> int" where
  "map_extent files = (case files of Inl _ \<Rightarrow> 10240 | Inr es \<Rightarrow>
     (let rs = regions_of es; xs = set (map rg_x rs); zs = set (map rg_z rs)
      in if rs = [] then 10240 else max ((Max xs - Min xs + 1) * 512) ((Max zs - Min zs + 1) * 512)))"

subsection \<open>Land claims\<close>

text \<open>
  All matches of an expression with the flag \<open>g\<close>, one after the other: where the leftmost match
  ends, the next search begins.  The expressions below consume at least one character, so that the
  guard on the length never stops the loop.
\<close>

fun first_match :: "re \<Rightarrow> char option \<Rightarrow> string \<Rightarrow> (captures \<times> char option \<times> string) option" where
  "first_match r prev [] = (case run [R r] prev [] [] of None \<Rightarrow> None | Some (rest, caps) \<Rightarrow> Some (caps, prev, rest))"
| "first_match r prev (x # xs) = (case run [R r] prev (x # xs) [] of
     None \<Rightarrow> first_match r (Some x) xs
   | Some (rest, caps) \<Rightarrow> Some (caps,
       if length rest < length (x # xs) then Some ((x # xs) ! (length (x # xs) - length rest - 1)) else prev, rest))"

function all_matches :: "re \<Rightarrow> char option \<Rightarrow> string \<Rightarrow> captures list" where
  "all_matches r prev s = (case first_match r prev s of
     None \<Rightarrow> []
   | Some (caps, prev', rest) \<Rightarrow> caps # (if length rest < length s then all_matches r prev' rest else []))"
  by pat_completeness auto
termination by (relation "measure (\<lambda>(r, prev, s). length s)") auto

declare all_matches.simps [simp del]

definition any_char :: re where
  "any_char = Cls (\<lambda>_. True)"

definition dquote :: string where "dquote = [CHR 0x22]"

definition player_re :: re where
  "player_re = Seqs [lit ''<player'', Plus Space, Group 1 (Lazy (NotIn ''>'')),
     Alt (Seqs [lit ''/'', Star Space, lit ''>'']) (Seqs [lit ''>'', Group 2 (Lazy any_char), lit ''</player>''])]"

definition attribute_re :: "string \<Rightarrow> re" where
  "attribute_re nm = Seqs [lit (nm @ ''='' @ dquote), Group 1 (Star (NotIn dquote)), lit dquote]"

definition block_re :: re where
  "block_re = Seqs [lit ''<lpblock'', Plus Space, lit (''pos='' @ dquote), Group 1 signed_re, lit '','', Group 2 signed_re, lit '','',
     Group 3 signed_re, lit dquote, Star Space, lit ''/>'']"

text \<open>\<open>s.replace(/pattern/g, by)\<close> for a literal pattern that is not empty.\<close>

function replace_all :: "string \<Rightarrow> string \<Rightarrow> string \<Rightarrow> string" where
  "replace_all pat new [] = []"
| "replace_all pat new (c # cs) =
     (if pat \<noteq> [] \<and> js_starts_with (c # cs) pat then new @ replace_all pat new (drop (length pat) (c # cs))
      else c # replace_all pat new cs)"
  by pat_completeness auto
termination
proof (relation "measure (\<lambda>(pat, new, s). length s)", goal_cases)
  case (2 pat new c cs)
  then show ?case by (cases pat) auto
qed auto

definition decode_entities :: "string \<Rightarrow> string" where
  "decode_entities s = replace_all ''&amp;'' ''&'' (replace_all ''&gt;'' ''>'' (replace_all ''&lt;'' ''<''
     (replace_all ''&apos;'' apostrophe (replace_all ''&quot;'' dquote s))))"

definition attribute :: "string \<Rightarrow> string \<Rightarrow> string" where
  "attribute attrs nm = decode_entities (case re_group (attribute_re nm) 1 attrs of None \<Rightarrow> [] | Some v \<Rightarrow> v)"

record land_claim =
  lc_id :: string
  lc_owner :: string
  lc_eosId :: string
  lc_steamId :: string
  lc_x :: int
  lc_y :: int
  lc_z :: int
  lc_size :: int

definition block_claim :: "string \<Rightarrow> string \<Rightarrow> string \<Rightarrow> captures \<Rightarrow> land_claim" where
  "block_claim owner eosId steamId b =
    (let x = int_text (cap b 1); y = int_text (cap b 2); z = int_text (cap b 3)
     in \<lparr>lc_id = eosId @ '':'' @ int_string x @ '':'' @ int_string y @ '':'' @ int_string z, lc_owner = owner,
         lc_eosId = eosId, lc_steamId = steamId, lc_x = x, lc_y = y, lc_z = z, lc_size = 51\<rparr>)"

definition player_claims :: "captures \<Rightarrow> land_claim list" where
  "player_claims p =
    (let attrs = cap p 1; nm = attribute attrs ''playername''
     in map (block_claim (if nm = [] then ''Unknown player'' else nm) (attribute attrs ''userid'') (attribute attrs ''nativeuserid''))
          (all_matches block_re None (cap p 2)))"

definition parse_claims :: "string \<Rightarrow> land_claim list" where
  "parse_claims xml = concat (map player_claims (all_matches player_re None xml))"

subsection \<open>World information\<close>

definition any_quote :: re where
  "any_quote = Cls (\<lambda>c. c \<in> set (dquote @ apostrophe))"

definition property_re :: "string \<Rightarrow> re" where
  "property_re nm = Seqs [lit_i ''<property'', Plus Space, lit_i ''name='', any_quote, lit_i nm, any_quote, Plus Space,
     lit_i ''value='', any_quote, Group 1 (Star (NotIn (dquote @ apostrophe))), any_quote]"

definition world_property :: "string \<Rightarrow> string \<Rightarrow> string" where
  "world_property xml nm = (case re_group (property_re nm) 1 xml of None \<Rightarrow> [] | Some v \<Rightarrow> v)"

definition positive_num :: "js_num \<Rightarrow> bool" where
  "positive_num v = (case v of Fin m k \<Rightarrow> 0 < m | _ \<Rightarrow> False)"

record world_info =
  wi_width :: js_num
  wi_height :: js_num
  wi_gameVersion :: string
  wi_seed :: string
  wi_source :: string

definition parse_world_info :: "string \<Rightarrow> string + world_info" where
  "parse_world_info xml = (case map (\<lambda>v. js_number (js_trim v)) (js_split CHR '','' (world_property xml ''HeightMapSize'')) of
     [w, h] \<Rightarrow>
       if positive_num w \<and> positive_num h
       then Inr \<lparr>wi_width = w, wi_height = h, wi_gameVersion = world_property xml ''GameVersion'',
              wi_seed = world_property xml ''Seed'', wi_source = ''map_info.xml''\<rparr>
       else Inl ''HeightMapSize is missing from map_info.xml''
   | _ \<Rightarrow> Inl ''HeightMapSize is missing from map_info.xml'')"

section \<open>The route\<close>

record web_response =
  wr_status :: nat
  wr_headers :: "(string \<times> string) list"
  wr_body :: string

record map_env =
  me_control_url :: "string option"
  me_web_url :: "string option"
  me_fetch :: "string \<Rightarrow> (string \<times> string) list \<Rightarrow> web_response option"
  me_read :: "string \<Rightarrow> string + string"
  me_list :: "string \<Rightarrow> string + dirent list"
  me_console :: "console_event list"
  me_now :: time

datatype map_reply =
    Message nat string
  | Claims "land_claim list"
  | World world_info
  | Visit visit_state "visit_progress option"
  | Regions "region list"
  | Entities "live_entity list" "live_entity list" "live_entity list"
  | Tile string
  | NoTile
  | OfflineConfig int int
  | Upstream nat "(string \<times> string) list" string

text \<open>Names of headers are in lower case, as \<open>Headers\<close> keeps them.  \<open>(process.env.X || dflt).replace(/\/$/, '')\<close>\<close>

definition base_url :: "string option \<Rightarrow> string \<Rightarrow> string" where
  "base_url v dflt = (let u = (case v of None \<Rightarrow> dflt | Some x \<Rightarrow> if x = [] then dflt else x)
     in if u \<noteq> [] \<and> last u = CHR ''/'' then butlast u else u)"

text \<open>\<open>auth?.ok\<close> of the question to the control plane whose session it is.\<close>

definition session_ok :: "map_env \<Rightarrow> string \<Rightarrow> bool" where
  "session_ok env token =
    (case me_fetch env (base_url (me_control_url env) ''http://control-plane:3001'' @ ''/api/auth/me'')
            [(''authorization'', ''Bearer '' @ token)] of
       None \<Rightarrow> False | Some r \<Rightarrow> 200 \<le> wr_status r \<and> wr_status r \<le> 299)"

text \<open>\<open>path.join\<close> of an absolute directory and relative pieces; none ends in a slash.\<close>

definition path_step :: "string list \<Rightarrow> string \<Rightarrow> string list" where
  "path_step acc seg = (if seg = [] \<or> seg = ''.'' then acc else if seg = ''..'' then drop 1 acc else seg # acc)"

definition path_join :: "string list \<Rightarrow> string" where
  "path_join ps = ''/'' @ join_with ''/'' (rev (foldl path_step [] (js_split CHR ''/'' (join_with ''/'' ps))))"

definition tile_re :: re where
  "tile_re = Seqs [Bol, lit ''map/'', Group 1 (Plus Digit), lit ''/'', Group 2 signed_re, lit ''/'', Group 3 signed_re, lit ''.png'', Eol]"

definition tile_root :: string where "tile_root = ''/7dtd-map''"

definition serve_tile :: "map_env \<Rightarrow> captures \<Rightarrow> map_reply" where
  "serve_tile env tile =
    (let zoom = int_text (cap tile 1); x = int_text (cap tile 2); gameY = - int_text (cap tile 3) - 1;
         file = path_join [tile_root, int_string zoom, int_string x, int_string gameY @ ''.png'']
     in if zoom < 0 \<or> 8 < zoom then Message 400 ''Invalid map tile''
        else if \<not> js_starts_with file (tile_root @ ''/'') then Message 400 ''Invalid map tile''
        else (case me_read env file of Inl _ \<Rightarrow> NoTile | Inr c \<Rightarrow> Tile c))"

definition set_header :: "string \<Rightarrow> string \<Rightarrow> (string \<times> string) list \<Rightarrow> (string \<times> string) list" where
  "set_header k v hs = jput hs k v"

definition forward :: "map_env \<Rightarrow> string \<Rightarrow> string \<Rightarrow> map_reply" where
  "forward env path search =
    (let upstream = me_fetch env (base_url (me_web_url env) ''http://host.docker.internal:8080'' @ ''/'' @ path @ search) []
     in if path = ''api/map/config'' \<and> (case upstream of None \<Rightarrow> True | Some r \<Rightarrow> \<not> (200 \<le> wr_status r \<and> wr_status r \<le> 299))
        then OfflineConfig (max_zoom (me_list env tile_root)) (map_extent (me_list env ''/7dtd-save/Region''))
        else (case upstream of
          None \<Rightarrow> Message 503 ''7DTD web map is unavailable''
        | Some r \<Rightarrow> Upstream (wr_status r)
            (set_header ''cache-control'' (if js_starts_with path ''map/'' then ''private, max-age=30'' else ''no-store'')
              (filter (\<lambda>(k, v). k \<noteq> ''set-cookie'' \<and> k \<noteq> ''content-length'') (wr_headers r))) (wr_body r)))"

definition type_matches :: "string list \<Rightarrow> string \<Rightarrow> bool" where
  "type_matches ws s = re_test (foldr (\<lambda>w r. Alt (lit_i w) r) (butlast ws) (lit_i (last ws))) s"

definition entities_reply :: "live_entity list \<Rightarrow> map_reply" where
  "entities_reply es = Entities (filter (\<lambda>e. type_matches [''EntityPlayer''] (le_type e)) es)
     (filter (\<lambda>e. type_matches [''Animal''] (le_type e @ '' '' @ le_name e)) es)
     (filter (\<lambda>e. type_matches [''Zombie'', ''Enemy'', ''Vulture''] (le_type e)) es)"

text \<open>\<open>search\<close> is the query string of the request; None while the console has not answered.\<close>

definition serve_resource :: "map_env \<Rightarrow> string \<Rightarrow> string \<Rightarrow> map_reply option" where
  "serve_resource env path search =
    (if path = ''claims-live'' then Some (case me_read env ''/7dtd-save/players.xml'' of
         Inl msg \<Rightarrow> Message 503 msg | Inr xml \<Rightarrow> Claims (parse_claims xml))
     else if path = ''world-info'' then Some (case me_read env ''/7dtd-world/map_info.xml'' of
         Inl msg \<Rightarrow> Message 503 msg
       | Inr xml \<Rightarrow> (case parse_world_info xml of Inl msg \<Rightarrow> Message 503 msg | Inr w \<Rightarrow> World w))
     else if path = ''visitmap-status'' then Some (case me_read env ''/7dtd-logs/server.log'' of
         Inl msg \<Rightarrow> Message 503 msg
       | Inr log \<Rightarrow> (case visitmap_status (me_now env) log of (st, p) \<Rightarrow> Visit st p))
     else if path = ''regions-live'' then Some (case me_list env ''/7dtd-save/Region'' of
         Inl msg \<Rightarrow> Message 503 msg | Inr es \<Rightarrow> Regions (regions_of es))
     else if path = ''entities-live'' then (case live_entities [] (me_console env) of
         None \<Rightarrow> None | Some (Inl msg) \<Rightarrow> Some (Message 503 msg) | Some (Inr es) \<Rightarrow> Some (entities_reply es))
     else Some (case re_match tile_re path of
         Some tile \<Rightarrow> serve_tile env tile | None \<Rightarrow> forward env path search))"

definition live_map :: "map_env \<Rightarrow> string option \<Rightarrow> string list \<Rightarrow> string \<Rightarrow> map_reply option" where
  "live_map env cookie segments search =
    (let path = join_with ''/'' segments in
     case cookie of
       None \<Rightarrow> Some (Message 401 ''Live Map session required'')
     | Some token \<Rightarrow>
         if token = [] then Some (Message 401 ''Live Map session required'')
         else if \<not> session_ok env token then Some (Message 401 ''Live Map session expired'')
         else if \<not> re_test allowed_re path then Some (Message 404 ''Unsupported map resource'')
         else serve_resource env path search)"

section \<open>Lemmas\<close>

subsection \<open>Resource paths\<close>

definition digits :: "string \<Rightarrow> bool" where
  "digits w \<longleftrightarrow> w \<noteq> [] \<and> list_all is_digit w"

definition signed :: "string \<Rightarrow> bool" where
  "signed w \<longleftrightarrow> (\<exists>u v. w = u @ v \<and> (u = [] \<or> u = ''-'') \<and> digits v)"

definition tile_path :: "string \<Rightarrow> bool" where
  "tile_path p \<longleftrightarrow> (\<exists>z x y. digits z \<and> signed x \<and> signed y \<and> p = ''map/'' @ z @ ''/'' @ x @ ''/'' @ y @ ''.png'')"

definition named_resources :: "string list" where
  "named_resources = [''entities-live'', ''claims-live'', ''regions-live'', ''world-info'', ''visitmap-status'',
     ''api/map/config'', ''api/serverstats'']"

lemma spells_digits: "spells (Plus Digit) digits"
  unfolding Digit_def by (rule spells_cong [OF spells_Plus_Cls]) (simp add: digits_def)

lemma spells_Opt_lit: "spells (Opt (lit s)) (\<lambda>w. w = [] \<or> w = s)"
  unfolding Opt_def by (rule spells_cong [OF spells_Alt [OF spells_lit spells_Eps]]) auto

lemma spells_signed: "spells signed_re signed"
  unfolding signed_re_def
  by (rule spells_cong [OF spells_Seq [OF spells_Opt_lit spells_digits]]) (auto simp: signed_def)

text \<open>A tile path, with any expressions for the three numbers.\<close>

lemma spells_tile:
  assumes "spells a digits" and "spells b signed" and "spells c signed"
  shows "spells (Seqs [lit ''map/'', a, lit ''/'', b, lit ''/'', c, lit ''.png'']) tile_path"
proof (rule spells_cong)
  show "spells (Seqs [lit ''map/'', a, lit ''/'', b, lit ''/'', c, lit ''.png''])
    (\<lambda>w. \<exists>u v. w = u @ v \<and> u = ''map/'' \<and> (\<exists>z r. v = z @ r \<and> digits z \<and> (\<exists>u1 v1. r = u1 @ v1 \<and> u1 = ''/'' \<and>
      (\<exists>x r2. v1 = x @ r2 \<and> signed x \<and> (\<exists>u3 v3. r2 = u3 @ v3 \<and> u3 = ''/'' \<and> (\<exists>y e. v3 = y @ e \<and> signed y \<and> e = ''.png''))))))"
    unfolding Seqs.simps by (intro spells_Seq spells_lit assms)
next
  fix w
  show "(\<exists>u v. w = u @ v \<and> u = ''map/'' \<and> (\<exists>z r. v = z @ r \<and> digits z \<and> (\<exists>u1 v1. r = u1 @ v1 \<and> u1 = ''/'' \<and>
      (\<exists>x r2. v1 = x @ r2 \<and> signed x \<and> (\<exists>u3 v3. r2 = u3 @ v3 \<and> u3 = ''/'' \<and> (\<exists>y e. v3 = y @ e \<and> signed y \<and> e = ''.png''))))))
    \<longleftrightarrow> tile_path w" (is "?L \<longleftrightarrow> _")
  proof
    assume "tile_path w"
    then obtain z x y where "digits z" "signed x" "signed y" "w = ''map/'' @ z @ ''/'' @ x @ ''/'' @ y @ ''.png''"
      unfolding tile_path_def by blast
    then show ?L by (intro exI conjI) (assumption | rule refl)+
  next
    assume ?L
    then obtain z x y where "digits z" "signed x" "signed y" "w = ''map/'' @ z @ ''/'' @ x @ ''/'' @ y @ ''.png''" by blast
    then show "tile_path w" unfolding tile_path_def by blast
  qed
qed

lemma allowed_paths: "re_test allowed_re p \<longleftrightarrow> p \<in> set named_resources \<or> tile_path p"
proof -
  have api: "spells (Seq (lit ''api/'') (Alt (lit ''map/config'') (lit ''serverstats'')))
      (\<lambda>w. w = ''api/map/config'' \<or> w = ''api/serverstats'')"
    by (rule spells_cong [OF spells_Seq [OF spells_lit spells_Alt [OF spells_lit spells_lit]]]) auto
  have tile: "spells (Seqs [lit ''map/'', Plus Digit, lit ''/'', signed_re, lit ''/'', signed_re, lit ''.png'']) tile_path"
    by (rule spells_tile [OF spells_digits spells_signed spells_signed])
  have "re_test allowed_re p \<longleftrightarrow> p = ''entities-live'' \<or> p = ''claims-live'' \<or> p = ''regions-live'' \<or> p = ''world-info'' \<or>
      p = ''visitmap-status'' \<or> (p = ''api/map/config'' \<or> p = ''api/serverstats'') \<or> tile_path p"
    unfolding allowed_re_def foldr.simps o_def id_apply
    by (rule whole_match) (intro spells_Alt spells_lit api tile)
  then show ?thesis by (auto simp: named_resources_def)
qed

lemma tile_match: "re_test tile_re p \<longleftrightarrow> tile_path p"
proof -
  have "re_test (Seqs (Bol # [lit ''map/'', Group 1 (Plus Digit), lit ''/'', Group 2 signed_re, lit ''/'', Group 3 signed_re,
      lit ''.png''] @ [Eol])) p \<longleftrightarrow> tile_path p"
    by (rule whole_match_Seqs [OF spells_tile]) (simp_all add: spells_Group spells_digits spells_signed)
  then show ?thesis by (simp only: tile_re_def append.simps)
qed

subsection \<open>The file of a tile\<close>

lemma int_string_chars: "c \<in> set (int_string n) \<Longrightarrow> is_digit c \<or> c = CHR ''-''"
  by (auto simp: int_string_def dest: nat_string_digits split: if_splits)

lemma int_string_nonempty: "int_string n \<noteq> []"
  by (simp add: int_string_def nat_string_nonempty)

lemma int_string_segment: "CHR ''/'' \<notin> set (int_string n)" "CHR ''.'' \<notin> set (int_string n)"
  by (auto dest!: int_string_chars simp: is_digit_def)

lemma path_join_plain:
  assumes "\<And>s. s \<in> set [a, b, c] \<Longrightarrow> CHR ''/'' \<notin> set s \<and> s \<noteq> [] \<and> s \<noteq> ''.'' \<and> s \<noteq> ''..''"
  shows "path_join [tile_root, a, b, c] = ''/7dtd-map/'' @ a @ ''/'' @ b @ ''/'' @ c"
proof -
  have "js_split CHR ''/'' (join_with ''/'' [tile_root, a, b, c]) = [[], ''7dtd-map'', a, b, c]"
    using assms js_split_append [of "CHR ''/''"] js_split_none [of "CHR ''/''"] by (simp add: tile_root_def)
  with assms show ?thesis by (simp add: path_join_def path_step_def)
qed

lemma tile_file:
  "path_join [tile_root, int_string z, int_string x, int_string y @ ''.png''] =
    ''/7dtd-map/'' @ int_string z @ ''/'' @ int_string x @ ''/'' @ int_string y @ ''.png''"
proof (rule path_join_plain)
  fix s
  assume "s \<in> set [int_string z, int_string x, int_string y @ ''.png'']"
  moreover have "int_string n \<noteq> ''.''" "int_string n \<noteq> ''..''" for n
    using int_string_segment(2) [of n] by auto
  moreover have "int_string y @ ''.png'' \<noteq> ''..''" "int_string y @ ''.png'' \<noteq> ''.''"
    by (auto dest: arg_cong [of _ _ length])
  ultimately show "CHR ''/'' \<notin> set s \<and> s \<noteq> [] \<and> s \<noteq> ''.'' \<and> s \<noteq> ''..''"
    by (auto simp: int_string_segment(1) int_string_nonempty)
qed

definition served_tile :: "string \<Rightarrow> bool" where
  "served_tile f \<longleftrightarrow> (\<exists>z x y. 0 \<le> z \<and> z \<le> 8 \<and>
     f = ''/7dtd-map/'' @ int_string z @ ''/'' @ int_string x @ ''/'' @ int_string y @ ''.png'')"

subsection \<open>Entities of XML\<close>

definition escape_char :: "string \<Rightarrow> char \<Rightarrow> string" where
  "escape_char S c = (if c = CHR ''&'' then ''&amp;'' else if c \<notin> set S then [c]
     else if c = CHR 0x22 then ''&quot;'' else if c = CHR 0x27 then ''&apos;''
     else if c = CHR ''<'' then ''&lt;'' else if c = CHR ''>'' then ''&gt;'' else [c])"

definition escape_text :: "string \<Rightarrow> string \<Rightarrow> string" where
  "escape_text S s = concat (map (escape_char S) s)"

lemma unescape_quot: "replace_all ''&quot;'' dquote (escape_text (dquote @ apostrophe @ ''<>'') s) = escape_text (apostrophe @ ''<>'') s"
  by (induction s) (auto simp: escape_text_def escape_char_def dquote_def apostrophe_def)

lemma unescape_apos: "replace_all ''&apos;'' apostrophe (escape_text (apostrophe @ ''<>'') s) = escape_text ''<>'' s"
  by (induction s) (auto simp: escape_text_def escape_char_def apostrophe_def)

lemma unescape_lt: "replace_all ''&lt;'' ''<'' (escape_text ''<>'' s) = escape_text ''>'' s"
  by (induction s) (auto simp: escape_text_def escape_char_def)

lemma unescape_gt: "replace_all ''&gt;'' ''>'' (escape_text ''>'' s) = escape_text [] s"
  by (induction s) (auto simp: escape_text_def escape_char_def)

lemma unescape_amp: "replace_all ''&amp;'' ''&'' (escape_text [] s) = s"
  by (induction s) (auto simp: escape_text_def escape_char_def)

subsection \<open>What the route reads\<close>

definition permitted_file :: "string \<Rightarrow> bool" where
  "permitted_file f \<longleftrightarrow> f \<in> set [''/7dtd-save/players.xml'', ''/7dtd-world/map_info.xml'', ''/7dtd-logs/server.log''] \<or> served_tile f"

definition permitted_url :: "map_env \<Rightarrow> string \<Rightarrow> string \<Rightarrow> bool" where
  "permitted_url env search u \<longleftrightarrow>
     u = base_url (me_control_url env) ''http://control-plane:3001'' @ ''/api/auth/me'' \<or>
     u = base_url (me_web_url env) ''http://host.docker.internal:8080'' @ ''/'' @ ''api/map/config'' @ search \<or>
     u = base_url (me_web_url env) ''http://host.docker.internal:8080'' @ ''/'' @ ''api/serverstats'' @ search"

text \<open>Two installations that agree on the permitted files, directories and addresses.\<close>

definition same_view :: "string \<Rightarrow> map_env \<Rightarrow> map_env \<Rightarrow> bool" where
  "same_view search env env' \<longleftrightarrow> me_control_url env' = me_control_url env \<and> me_web_url env' = me_web_url env \<and>
     me_console env' = me_console env \<and> me_now env' = me_now env \<and>
     (\<forall>f. permitted_file f \<longrightarrow> me_read env' f = me_read env f) \<and>
     (\<forall>d \<in> set [tile_root, ''/7dtd-save/Region'']. me_list env' d = me_list env d) \<and>
     (\<forall>u h. permitted_url env search u \<longrightarrow> me_fetch env' u h = me_fetch env u h)"

lemma same_view_parts:
  assumes "same_view search env env'"
  shows "me_control_url env' = me_control_url env" "me_web_url env' = me_web_url env" "me_console env' = me_console env"
    "me_now env' = me_now env" "permitted_file f \<Longrightarrow> me_read env' f = me_read env f"
    "me_list env' tile_root = me_list env tile_root" "me_list env' ''/7dtd-save/Region'' = me_list env ''/7dtd-save/Region''"
    "permitted_url env search u \<Longrightarrow> me_fetch env' u h = me_fetch env u h"
  using assms by (simp_all add: same_view_def)

lemma session_same: "same_view search env env' \<Longrightarrow> session_ok env' token = session_ok env token"
  by (simp add: session_ok_def same_view_parts permitted_url_def)

lemma served_tile_file: "0 \<le> z \<Longrightarrow> z \<le> 8 \<Longrightarrow> served_tile (''/7dtd-map/'' @ int_string z @ ''/'' @ int_string x @ ''/'' @ int_string y @ ''.png'')"
  unfolding served_tile_def by blast

lemma tile_same:
  assumes "same_view search env env'"
  shows "serve_tile env' tile = serve_tile env tile"
proof (cases "0 \<le> int_text (cap tile 1) \<and> int_text (cap tile 1) \<le> 8")
  case True
  let ?f = "path_join [tile_root, int_string (int_text (cap tile 1)), int_string (int_text (cap tile 2)),
    int_string (- int_text (cap tile 3) - 1) @ ''.png'']"
  have "served_tile ?f" unfolding tile_file using True by (intro served_tile_file) simp_all
  then have "me_read env' ?f = me_read env ?f" by (intro same_view_parts(5) [OF assms]) (simp add: permitted_file_def)
  with True show ?thesis by (simp only: serve_tile_def Let_def)
next
  case False
  then show ?thesis by (auto simp: serve_tile_def Let_def)
qed

lemma forward_same:
  assumes "same_view search env env'" and "path = ''api/map/config'' \<or> path = ''api/serverstats''"
  shows "forward env' path search = forward env path search"
proof -
  let ?u = "base_url (me_web_url env) ''http://host.docker.internal:8080'' @ ''/'' @ path @ search"
  note same = same_view_parts [OF assms(1)]
  have "permitted_url env search ?u" using assms(2) by (auto simp: permitted_url_def)
  then have "me_fetch env' ?u [] = me_fetch env ?u []" by (rule same(8))
  then show ?thesis unfolding forward_def same(2,6,7) by simp
qed

lemma resource_same:
  assumes "same_view search env env'" and "re_test allowed_re path"
  shows "serve_resource env' path search = serve_resource env path search"
proof -
  note same = same_view_parts [OF assms(1)]
  have read: "me_read env' ''/7dtd-save/players.xml'' = me_read env ''/7dtd-save/players.xml''"
    "me_read env' ''/7dtd-world/map_info.xml'' = me_read env ''/7dtd-world/map_info.xml''"
    "me_read env' ''/7dtd-logs/server.log'' = me_read env ''/7dtd-logs/server.log''"
    by (rule same(5), simp add: permitted_file_def)+
  have rest: "(case re_match tile_re path of Some tile \<Rightarrow> serve_tile env' tile | None \<Rightarrow> forward env' path search) =
      (case re_match tile_re path of Some tile \<Rightarrow> serve_tile env tile | None \<Rightarrow> forward env path search)"
    if "path \<noteq> ''claims-live''" "path \<noteq> ''world-info''" "path \<noteq> ''visitmap-status''" "path \<noteq> ''regions-live''" "path \<noteq> ''entities-live''"
  proof (cases "re_match tile_re path")
    case None
    then have "\<not> tile_path path" using tile_match [of path] by (simp add: re_test_def)
    with assms(2) that have "path = ''api/map/config'' \<or> path = ''api/serverstats''"
      unfolding allowed_paths by (simp add: named_resources_def)
    from forward_same [OF assms(1) this] None show ?thesis by simp
  next
    case (Some tile)
    then show ?thesis by (simp add: tile_same [OF assms(1)])
  qed
  show ?thesis
    unfolding serve_resource_def same(3,4,7) read
    by (intro if_cong refl arg_cong [of _ _ Some]) (rule rest)
qed

lemma entities_from_listing:
  "live_entities acc es = Some (Inr r) \<Longrightarrow> \<exists>k. re_test all_listed_re (acc @ concat (map (\<lambda>e. case e of Data c \<Rightarrow> c | _ \<Rightarrow> []) (take k es))) \<and>
     r = parse_entities (acc @ concat (map (\<lambda>e. case e of Data c \<Rightarrow> c | _ \<Rightarrow> []) (take k es)))"
proof (induction acc es rule: live_entities.induct)
  case (2 acc c es)
  show ?case
  proof (cases "re_test all_listed_re (acc @ c)")
    case True
    with 2(2) show ?thesis by (intro exI [of _ 1]) simp
  next
    case False
    with 2 obtain k where "re_test all_listed_re ((acc @ c) @ concat (map (\<lambda>e. case e of Data c \<Rightarrow> c | _ \<Rightarrow> []) (take k es)))"
      "r = parse_entities ((acc @ c) @ concat (map (\<lambda>e. case e of Data c \<Rightarrow> c | _ \<Rightarrow> []) (take k es)))" by auto
    then show ?thesis by (intro exI [of _ "Suc k"]) simp
  qed
qed simp_all

section \<open>Properties\<close>


definition sample_map_env :: map_env where
  "sample_map_env = \<lparr>me_control_url = None, me_web_url = None,
     me_fetch = (\<lambda>u h. if h = [(''authorization'', ''Bearer t'')] then Some \<lparr>wr_status = 200, wr_headers = [], wr_body = []\<rparr> else None),
     me_read = (\<lambda>f. if f = ''/7dtd-map/2/0/-1.png'' then Inr ''png'' else Inl ''ENOENT''),
     me_list = (\<lambda>d. Inr []), me_console = [TimedOut], me_now = 0\<rparr>"


text \<open>
  Text escaped for XML is read back unchanged: the ampersand is decoded last, so that an escaped
  \<open>&lt;\<close> in a name does not become a bracket.
\<close>

theorem decode_escaped: "decode_entities (escape_text (dquote @ apostrophe @ ''<>'') s) = s"
  unfolding decode_entities_def unescape_quot unescape_apos unescape_lt unescape_gt unescape_amp ..

text \<open>
  The names of attributes are not anchored: \<open>userid\<close> also occurs in \<open>nativeuserid\<close>, and when that
  attribute comes first its value is taken for the player's EOS id.
\<close>

theorem native_id_taken_for_eos:
  "attribute ('' nativeuserid='' @ dquote @ ''1'' @ dquote @ '' userid='' @ dquote @ ''2'' @ dquote) ''userid'' = ''1''"
  by code_simp

text \<open>Entities are answered only from a complete listing: the total has arrived, in whatever chunks.\<close>

theorem entities_complete:
  assumes "live_entities [] es = Some (Inr r)"
  shows "\<exists>output. re_test all_listed_re output \<and> r = parse_entities output"
  using entities_from_listing [OF assms] by blast

text \<open>The map of the offline configuration covers every region.\<close>

theorem extent_covers:
  assumes "r \<in> set (regions_of es)" and "r' \<in> set (regions_of es)"
  shows "(\<bar>rg_x r - rg_x r'\<bar> + 1) * 512 \<le> map_extent (Inr es) \<and> (\<bar>rg_z r - rg_z r'\<bar> + 1) * 512 \<le> map_extent (Inr es)"
proof -
  have "regions_of es \<noteq> []" using assms by auto
  have "\<bar>f r - f r'\<bar> \<le> Max (f ` set (regions_of es)) - Min (f ` set (regions_of es))" for f :: "region \<Rightarrow> int"
  proof -
    have "f x \<le> Max (f ` set (regions_of es)) \<and> Min (f ` set (regions_of es)) \<le> f x" if "x \<in> set (regions_of es)" for x
      using that by simp
    from this [OF assms(1)] this [OF assms(2)] show ?thesis by linarith
  qed
  from this [of rg_x] this [of rg_z] have
    "(\<bar>rg_x r - rg_x r'\<bar> + 1) * 512 \<le> (Max (rg_x ` set (regions_of es)) - Min (rg_x ` set (regions_of es)) + 1) * 512"
    "(\<bar>rg_z r - rg_z r'\<bar> + 1) * 512 \<le> (Max (rg_z ` set (regions_of es)) - Min (rg_z ` set (regions_of es)) + 1) * 512"
    by simp_all
  moreover from \<open>regions_of es \<noteq> []\<close> have "map_extent (Inr es) =
      max ((Max (rg_x ` set (regions_of es)) - Min (rg_x ` set (regions_of es)) + 1) * 512)
        ((Max (rg_z ` set (regions_of es)) - Min (rg_z ` set (regions_of es)) + 1) * 512)"
    by (simp add: map_extent_def Let_def)
  ultimately show ?thesis by linarith
qed

end
