(* ===== verification/WebGateway.thy ===== *)
theory WebGateway
  imports LiveMap OpenAiKeys
begin

text \<open>
  The other routes of the web server: the cookies that open the live map and the profile editor
  (\<open>web/src/app/api/live-map-session\<close>, \<open>profile-editor-session\<close>) and the proxy in front of the editor
  (\<open>profile-editor-tool\<close>), which turns a saved profile into a job.  Bodies are bytes; the network and
  \<open>JSON\<close> are parameters; \<open>new URL\<close> is kept as its text and parameters.
\<close>

section \<open>Text and bytes\<close>

fun utf8_encode :: "string \<Rightarrow> nat list" where
  "utf8_encode [] = []"
| "utf8_encode (c # cs) = (let n = of_char c :: nat in
     (if n < 128 then [n] else [192 + n div 64, 128 + n mod 64]) @ utf8_encode cs)"

text \<open>\<open>buffer.toString()\<close>; what lies outside the range of characters of the model is a question mark.\<close>

fun utf8_decode :: "nat list \<Rightarrow> string" where
  "utf8_decode [] = []"
| "utf8_decode [a] = [if a < 128 then char_of a else CHR ''?'']"
| "utf8_decode (a # b # bs) =
     (if a < 128 then char_of a # utf8_decode (b # bs)
      else if (a = 194 \<or> a = 195) \<and> 128 \<le> b \<and> b < 192 then char_of ((a - 192) * 64 + (b - 128)) # utf8_decode bs
      else CHR ''?'' # utf8_decode (b # bs))"

definition base64url :: "nat list \<Rightarrow> string" where
  "base64url bs = map (\<lambda>c. if c = CHR ''+'' then CHR ''-'' else if c = CHR ''/'' then CHR ''_'' else c)
     (filter (\<lambda>c. c \<noteq> CHR ''='') (to_base64 bs))"

text \<open>\<open>encodeURIComponent(s)\<close>\<close>

definition hex_upper :: "nat \<Rightarrow> char" where
  "hex_upper d = (if d < 10 then char_of (48 + d) else char_of (55 + d))"

definition unreserved :: "char \<Rightarrow> bool" where
  "unreserved c \<longleftrightarrow> is_digit c \<or> (let n = of_char c :: nat in 65 \<le> n \<and> n \<le> 90 \<or> 97 \<le> n \<and> n \<le> 122) \<or>
     c \<in> set (''-_.!~*()'' @ apostrophe)"

definition percent_byte :: "nat \<Rightarrow> string" where
  "percent_byte b = [CHR ''%'', hex_upper (b div 16), hex_upper (b mod 16)]"

definition encode_char :: "char \<Rightarrow> string" where
  "encode_char c = (if unreserved c then [c] else concat (map percent_byte (utf8_encode [c])))"

definition encode_uri_component :: "string \<Rightarrow> string" where
  "encode_uri_component s = concat (map encode_char s)"

section \<open>Requests and answers\<close>

type_synonym header_list = "(string \<times> string) list"

record web_request =
  rq_method :: string
  rq_url :: string
  rq_params :: "(string \<times> string) list"
  rq_headers :: header_list
  rq_body :: "nat list option"

record web_answer =
  an_status :: nat
  an_headers :: header_list
  an_body :: "nat list"

record web_cookie =
  ck_name :: string
  ck_value :: string
  ck_secure :: bool
  ck_path :: string
  ck_maxAge :: int

text \<open>\<open>fetch\<close> fails with a message or answers.\<close>

record gateway_env =
  ge_control_url :: "string option"
  ge_editor_url :: "string option"
  ge_fetch :: "web_request \<Rightarrow> string + web_answer"
  ge_stringify :: "json \<Rightarrow> string"
  ge_parse :: "string \<Rightarrow> json option"

definition answer_ok :: "web_answer \<Rightarrow> bool" where
  "answer_ok a \<longleftrightarrow> 200 \<le> an_status a \<and> an_status a \<le> 299"

definition control_base :: "gateway_env \<Rightarrow> string" where
  "control_base env = base_url (ge_control_url env) ''http://control-plane:3001''"

definition session_request :: "gateway_env \<Rightarrow> string \<Rightarrow> web_request" where
  "session_request env authorization = \<lparr>rq_method = ''GET'', rq_url = control_base env @ ''/api/auth/me'', rq_params = [],
     rq_headers = [(''authorization'', authorization)], rq_body = None\<rparr>"

definition session_valid :: "gateway_env \<Rightarrow> string \<Rightarrow> bool" where
  "session_valid env authorization =
    (case ge_fetch env (session_request env authorization) of Inl _ \<Rightarrow> False | Inr a \<Rightarrow> answer_ok a)"

section \<open>Opening a session\<close>

text \<open>The cookies to set (None deletes the cookie of that name), or a refusal.\<close>

datatype session_reply = Refused nat string | Opened "(string \<times> web_cookie option) list" | Crashed string

definition session_cookie :: "string \<Rightarrow> string \<Rightarrow> string \<Rightarrow> bool \<Rightarrow> web_cookie" where
  "session_cookie nm v path https = \<lparr>ck_name = nm, ck_value = v, ck_secure = https, ck_path = path, ck_maxAge = 3600\<rparr>"

definition with_session :: "gateway_env \<Rightarrow> string option \<Rightarrow> (string \<Rightarrow> session_reply) \<Rightarrow> session_reply" where
  "with_session env authorization opened = (case authorization of
     None \<Rightarrow> Refused 401 ''Authentication required''
   | Some a \<Rightarrow>
       if \<not> js_starts_with a ''Bearer '' then Refused 401 ''Authentication required''
       else if \<not> session_valid env a then Refused 401 ''Mastermind session is invalid''
       else opened (drop 7 a))"

definition live_map_session :: "gateway_env \<Rightarrow> string option \<Rightarrow> bool \<Rightarrow> session_reply" where
  "live_map_session env authorization https = with_session env authorization (\<lambda>token.
     Opened [(''mm_live_map_session'', Some (session_cookie ''mm_live_map_session'' token ''/api/live-map'' https))])"

definition editor_path :: string where "editor_path = ''/api/profile-editor-tool''"

text \<open>The target as \<open>JSON.stringify\<close> sees it; \<open>body\<close> is the parsed body, None where it is no JSON.\<close>

definition target_json :: "json \<Rightarrow> json" where
  "target_json b = JObj (jopt ''orgId'' (jget b ''orgId'') @ jopt ''serverId'' (jget b ''serverId'') @ jopt ''path'' (jget b ''path''))"

definition profile_editor_session :: "gateway_env \<Rightarrow> string option \<Rightarrow> bool \<Rightarrow> json option \<Rightarrow> session_reply" where
  "profile_editor_session env authorization https body = with_session env authorization (\<lambda>token.
     let b = (case body of None \<Rightarrow> JObj [] | Some v \<Rightarrow> v);
         session = (''mm_profile_editor_session'', Some (session_cookie ''mm_profile_editor_session'' token editor_path https))
     in if b = JNull then Crashed ''Cannot read properties of null (reading 'orgId')''
        else if truthy (jget b ''orgId'') \<and> truthy (jget b ''serverId'') \<and> truthy (jget b ''path'')
        then Opened [session, (''mm_profile_editor_target'', Some (session_cookie ''mm_profile_editor_target''
               (base64url (utf8_encode (ge_stringify env (target_json b)))) editor_path https))]
        else Opened [session, (''mm_profile_editor_target'', None)])"

section \<open>The proxy of the profile editor\<close>

record browser_request =
  br_method :: string
  br_segments :: "string list option"
  br_params :: "(string \<times> string) list"
  br_headers :: header_list
  br_cookies :: "(string \<times> string) list"
  br_body :: "nat list"

datatype proxy_reply = Problem nat string | Unavailable string | Proxied nat header_list "nat list"

definition without_headers :: "string list \<Rightarrow> header_list \<Rightarrow> header_list" where
  "without_headers ks hs = filter (\<lambda>(k, v). k \<notin> set ks) hs"

definition cookie :: "browser_request \<Rightarrow> string \<Rightarrow> string option" where
  "cookie r nm = non_empty (map_of (br_cookies r) nm)"

definition proxy_path :: "browser_request \<Rightarrow> string" where
  "proxy_path r = join_with ''/'' (case br_segments r of None \<Rightarrow> [''index.php''] | Some ss \<Rightarrow> ss)"

definition forwarded_headers :: "browser_request \<Rightarrow> header_list" where
  "forwarded_headers r =
    (let hs = without_headers [''host'', ''content-length'', ''accept-encoding'', ''cookie''] (br_headers r)
     in case cookie r ''PHPSESSID'' of None \<Rightarrow> hs | Some v \<Rightarrow> set_header ''cookie'' (''PHPSESSID='' @ v) hs)"

definition editor_request :: "gateway_env \<Rightarrow> browser_request \<Rightarrow> web_request" where
  "editor_request env r = \<lparr>rq_method = br_method r,
     rq_url = base_url (ge_editor_url env) ''http://profile-editor:8000'' @ ''/'' @ proxy_path r, rq_params = br_params r,
     rq_headers = forwarded_headers r,
     rq_body = (if br_method r = ''GET'' \<or> br_method r = ''HEAD'' then None else Some (br_body r))\<rparr>"

text \<open>\<open>s.replace(/Path=\/?/i, new)\<close>\<close>

fun replace_path :: "string \<Rightarrow> string \<Rightarrow> string" where
  "replace_path new [] = []"
| "replace_path new (c # cs) =
     (if js_starts_with (js_lower (c # cs)) ''path='' then new @
        (let r = drop 5 (c # cs) in if js_starts_with r ''/'' then drop 1 r else r)
      else c # replace_path new cs)"

definition proxied_headers :: "header_list \<Rightarrow> header_list" where
  "proxied_headers hs =
    (let out = without_headers [''content-length'', ''content-encoding'', ''transfer-encoding''] hs
     in case non_empty (map_of hs ''set-cookie'') of None \<Rightarrow> out
        | Some v \<Rightarrow> set_header ''set-cookie'' (replace_path (''Path='' @ editor_path) v) out)"

text \<open>\<open>`${v}`\<close> of a property that may be missing.\<close>

definition prop_text :: "json \<Rightarrow> string \<Rightarrow> string" where
  "prop_text v k = (case jget v k of None \<Rightarrow> ''undefined'' | Some x \<Rightarrow> js_string x)"

definition stage_request :: "gateway_env \<Rightarrow> string \<Rightarrow> json \<Rightarrow> nat list \<Rightarrow> web_request" where
  "stage_request env token selected edited = \<lparr>rq_method = ''POST'',
     rq_url = control_base env @ ''/api/orgs/'' @ encode_uri_component (prop_text selected ''orgId'') @ ''/jobs'', rq_params = [],
     rq_headers = [(''authorization'', ''Bearer '' @ token), (''content-type'', ''application/json'')],
     rq_body = Some (utf8_encode (ge_stringify env (JObj (jopt ''serverInstanceId'' (jget selected ''serverId'') @
       [(''type'', JStr ''PROFILE_STAGE''), (''payload'', JObj (jopt ''path'' (jget selected ''path'') @
         [(''contentBase64'', JStr (to_base64 edited))]))]))))\<rparr>"

definition staged_headers :: "gateway_env \<Rightarrow> web_answer \<Rightarrow> header_list \<Rightarrow> header_list" where
  "staged_headers env staged hs =
    (let queued = (case ge_parse env (utf8_decode (an_body staged)) of None \<Rightarrow> JNull | Some v \<Rightarrow> v);
         hs' = set_header ''x-mastermind-profile-staged'' ''true'' hs
     in if queued \<noteq> JNull \<and> truthy (jget queued ''jobRunId'')
        then set_header ''x-mastermind-profile-job-run-id'' (prop_text queued ''jobRunId'') hs' else hs')"

text \<open>The answer to a saved profile; reading from a null target throws into the same handler.\<close>

definition stage_profile :: "gateway_env \<Rightarrow> string \<Rightarrow> string \<Rightarrow> web_answer \<Rightarrow> header_list \<Rightarrow> proxy_reply" where
  "stage_profile env token encoded response hs =
    (case ge_parse env (utf8_decode (from_base64 encoded)) of
       None \<Rightarrow> Problem 400 ''Invalid staged profile target''
     | Some selected \<Rightarrow>
         if selected = JNull then Problem 400 ''Invalid staged profile target''
         else (case ge_fetch env (stage_request env token selected (an_body response)) of
           Inl _ \<Rightarrow> Problem 400 ''Invalid staged profile target''
         | Inr staged \<Rightarrow>
             if \<not> answer_ok staged then Problem 502 ''The profile was edited but could not be queued for the next restart''
             else Proxied (an_status response) (staged_headers env staged hs) (an_body response)))"

definition editor_proxy :: "gateway_env \<Rightarrow> browser_request \<Rightarrow> proxy_reply" where
  "editor_proxy env r = (case cookie r ''mm_profile_editor_session'' of
     None \<Rightarrow> Problem 401 ''Profile Editor session required''
   | Some token \<Rightarrow>
       if \<not> session_valid env (''Bearer '' @ token) then Problem 401 ''Profile Editor session expired''
       else (case ge_fetch env (editor_request env r) of
         Inl msg \<Rightarrow> Unavailable msg
       | Inr response \<Rightarrow>
           let hs = proxied_headers (an_headers response) in
           if proxy_path r = ''save.php'' \<and> answer_ok response
           then (case cookie r ''mm_profile_editor_target'' of
               None \<Rightarrow> Proxied (an_status response) hs (an_body response)
             | Some encoded \<Rightarrow> stage_profile env token encoded response hs)
           else Proxied (an_status response) hs (an_body response)))"

section \<open>Lemmas\<close>

lemma utf8_bytes: "b \<in> set (utf8_encode s) \<Longrightarrow> b < 256"
proof (induction s)
  case (Cons c s)
  have "n div 64 \<le> 3" if "n < 256" for n :: nat using that by linarith
  from this [of "of_char c"] have "(of_char c :: nat) div 64 \<le> 3" by simp
  with Cons show ?case by (auto simp: Let_def split: if_splits)
qed simp

lemma utf8_roundtrip: "utf8_decode (utf8_encode s) = s"
proof (induction s)
  case (Cons c s)
  define n where "n = (of_char c :: nat)"
  have n: "n < 256" by (simp add: n_def)
  have c: "char_of n = c" by (simp add: n_def)
  show ?case
  proof (cases "n < 128")
    case True
    have "utf8_decode (n # bs) = c # utf8_decode bs" for bs
      using True c by (cases bs) simp_all
    with True Cons show ?thesis by (simp add: n_def [symmetric])
  next
    case False
    with n have "n div 64 = 2 \<or> n div 64 = 3" by linarith
    then have "192 + n div 64 = 194 \<or> 192 + n div 64 = 195" "n div 64 * 64 + n mod 64 = n" by auto
    with False Cons c show ?thesis by (simp add: n_def [symmetric])
  qed
qed simp

text \<open>The cookie's alphabet is read back like the standard one.\<close>

lemma to_base64_pad: "\<forall>b \<in> set bs. b < 256 \<Longrightarrow> filter (\<lambda>c. c \<noteq> CHR ''='') (to_base64 bs) = takeWhile (\<lambda>c. c \<noteq> CHR ''='') (to_base64 bs)"
proof (induction bs rule: to_base64.induct)
  case (1 a b c rest)
  then have "a div 4 < 64" "(a mod 4) * 16 + b div 16 < 64" "(b mod 16) * 4 + c div 64 < 64" "c mod 64 < 64" by auto
  from this [THEN b64_char_plain] 1 show ?case by simp
next
  case (2 a b)
  then have "a div 4 < 64" "(a mod 4) * 16 + b div 16 < 64" "(b mod 16) * 4 < 64" by auto
  from this [THEN b64_char_plain] show ?case by simp
next
  case (3 a)
  then have "a div 4 < 64" "(a mod 4) * 16 < 64" by auto
  from this [THEN b64_char_plain] show ?case by simp
qed simp

definition url_char :: "char \<Rightarrow> char" where
  "url_char c = (if c = CHR ''+'' then CHR ''-'' else if c = CHR ''/'' then CHR ''_'' else c)"

lemma url_char_value: "b64_value (url_char c) = b64_value c" "url_char c = CHR ''='' \<longleftrightarrow> c = CHR ''=''"
  by (auto simp: url_char_def b64_value_def)

lemma takeWhile_url: "takeWhile (\<lambda>c. c \<noteq> CHR ''='') (map url_char (takeWhile (\<lambda>c. c \<noteq> CHR ''='') xs)) =
    map url_char (takeWhile (\<lambda>c. c \<noteq> CHR ''='') xs)"
  by (auto simp: takeWhile_eq_all_conv url_char_value dest: set_takeWhileD)

lemma map_filter_url: "List.map_filter b64_value (map url_char xs) = List.map_filter b64_value xs"
  by (induction xs) (simp_all add: List.map_filter_simps url_char_value split: option.split)

lemma from_base64url:
  assumes "\<forall>b \<in> set bs. b < 256"
  shows "from_base64 (base64url bs) = bs"
proof -
  have "base64url bs = map url_char (takeWhile (\<lambda>c. c \<noteq> CHR ''='') (to_base64 bs))"
    by (simp add: base64url_def url_char_def [abs_def] to_base64_pad [OF assms])
  then have "from_base64 (base64url bs) = from_base64 (to_base64 bs)"
    by (simp only: from_base64_def takeWhile_url map_filter_url)
  then show ?thesis by (simp only: from_to_base64 [OF assms])
qed

text \<open>A percent-encoded segment stays one segment.\<close>

lemma hex_upper_plain: "d < 16 \<Longrightarrow> hex_upper d \<notin> set ''/?#''"
proof -
  assume "d < 16"
  then have "d \<in> set [0..<16]" by simp
  moreover have "\<forall>d \<in> set [0..<16]. hex_upper d \<notin> set ''/?#''" by code_simp
  ultimately show ?thesis by blast
qed

lemma unreserved_plain: "unreserved c \<Longrightarrow> c \<notin> set ''/?#''"
  by (auto simp: unreserved_def is_digit_def apostrophe_def Let_def)

lemma percent_byte_plain:
  assumes "b < 256" and "c \<in> set (percent_byte b)"
  shows "c \<notin> set ''/?#''"
proof -
  have "b div 16 < 16" "b mod 16 < 16" using assms(1) by simp_all
  from this [THEN hex_upper_plain] assms(2) show ?thesis by (auto simp: percent_byte_def)
qed

lemma encoded_segment: "c \<in> set (encode_uri_component s) \<Longrightarrow> c \<notin> set ''/?#''"
proof -
  assume "c \<in> set (encode_uri_component s)"
  then obtain x where x: "c \<in> set (encode_char x)" by (auto simp: encode_uri_component_def)
  show ?thesis
  proof (cases "unreserved x")
    case True
    with x unreserved_plain show ?thesis by (simp add: encode_char_def)
  next
    case False
    with x obtain b where "b \<in> set (utf8_encode [x])" "c \<in> set (percent_byte b)"
      unfolding encode_char_def by (auto simp del: utf8_encode.simps)
    then show ?thesis using utf8_bytes percent_byte_plain by blast
  qed
qed

lemma cookie_parts: "cookie r nm = Some v \<longleftrightarrow> map_of (br_cookies r) nm = Some v \<and> v \<noteq> []"
  by (auto simp: cookie_def non_empty_def or_null_def split: option.splits)

lemma map_of_set_header: "map_of (set_header k v hs) k' = (if k' = k then Some v else map_of hs k')"
  by (simp add: set_header_def map_of_jput)

lemma map_of_without: "k \<notin> set ks \<Longrightarrow> map_of (without_headers ks hs) k = map_of hs k"
  by (induction hs) (auto simp: without_headers_def)

lemma map_of_without_None: "k \<in> set ks \<Longrightarrow> map_of (without_headers ks hs) k = None"
  by (induction hs) (auto simp: without_headers_def)

lemma forwarded_cookie: "map_of (forwarded_headers r) ''cookie'' = map_option (\<lambda>v. ''PHPSESSID='' @ v) (cookie r ''PHPSESSID'')"
  by (simp add: forwarded_headers_def Let_def map_of_set_header map_of_without_None split: option.split)

lemma target_json_get:
  "jget (target_json b) ''orgId'' = jget b ''orgId''" "jget (target_json b) ''serverId'' = jget b ''serverId''"
  "jget (target_json b) ''path'' = jget b ''path''" "target_json b \<noteq> JNull"
  by (auto simp: target_json_def jopt_def split: option.split)

lemma stage_request_target: "stage_request env token (target_json b) edited = stage_request env token b edited"
  by (simp add: stage_request_def prop_text_def target_json_get)

lemma decode_target_cookie:
  "utf8_decode (from_base64 (base64url (utf8_encode s))) = s"
  using from_base64url [of "utf8_encode s"] utf8_bytes by (simp add: utf8_roundtrip)

section \<open>Properties\<close>


definition sample_target :: json where
  "sample_target = JObj [(''orgId'', JStr ''o''), (''serverId'', JStr ''s''), (''path'', JStr ''a.ttp'')]"

definition sample_gateway :: gateway_env where
  "sample_gateway = \<lparr>ge_control_url = None, ge_editor_url = None, ge_fetch = (\<lambda>q. Inr \<lparr>an_status = 200, an_headers = [], an_body = [1, 2]\<rparr>),
     ge_stringify = (\<lambda>v. ''t''), ge_parse = (\<lambda>s. Some sample_target)\<rparr>"

definition sample_save :: browser_request where
  "sample_save = \<lparr>br_method = ''POST'', br_segments = Some [''save.php''], br_params = [], br_headers = [],
     br_cookies = [(''mm_profile_editor_session'', ''k''), (''mm_profile_editor_target'', ''dA'')], br_body = []\<rparr>"


text \<open>
  The editor never sees the session: the request that reaches it carries the editor's own
  \<open>PHPSESSID\<close> as its only cookie, whatever the browser sent.
\<close>

theorem session_not_forwarded:
  "map_of (rq_headers (editor_request env r)) ''cookie'' = map_option (\<lambda>v. ''PHPSESSID='' @ v) (cookie r ''PHPSESSID'')"
  by (simp add: editor_request_def forwarded_cookie)

text \<open>
  When the control plane cannot be reached after a save, the browser is told that the target of the
  profile is invalid: the failure of the request ends in the handler of an unreadable cookie.
\<close>

theorem unreachable_control_plane_blames_target:
  assumes "ge_parse env (utf8_decode (from_base64 encoded)) = Some selected"
    and "ge_fetch env (stage_request env token selected (an_body response)) = Inl msg"
  shows "stage_profile env token encoded response hs = Problem 400 ''Invalid staged profile target''"
  using assms by (simp add: stage_profile_def)

text \<open>
  Whatever organisation the cookie names, the staged job goes to one path segment below
  \<open>/api/orgs/\<close>: the name cannot add segments, a query or a fragment to the address.
\<close>

theorem stage_url_segment:
  "\<exists>org. rq_url (stage_request env token selected edited) = control_base env @ ''/api/orgs/'' @ org @ ''/jobs'' \<and>
    set org \<inter> set ''/?#'' = {}"
  using encoded_segment by (intro exI conjI) (auto simp: stage_request_def)

end
