(* ===== verification/WebClient.thy ===== *)
theory WebClient
  imports JsValues
begin

text \<open>
  The client of the control plane in the browser, \<open>web/src/lib/api.ts\<close>, and the loop with which the pages
  wait for a job they have queued (\<open>waitForJob\<close> of \<open>mods/page.tsx\<close> and its siblings).
\<close>

section \<open>Requests\<close>

text \<open>The body of a request: none, a value sent as JSON text, or a form with its fields.\<close>

datatype client_body = NoBody | JsonBody json | FormBody "(string \<times> string) list"

record client_request =
  cq_url :: string
  cq_method :: string
  cq_headers :: "(string \<times> string) list"
  cq_body :: client_body

text \<open>\<open>cs_json\<close> is what \<open>res.json()\<close> gives, the message of the error it throws for a body that is no JSON.\<close>

record client_response =
  cs_status :: nat
  cs_json :: "string + json"

text \<open>
  The browser: the address configured at build time, the stored token (None also on the server, where
  there is no \<open>window\<close>), and the network, which answers or throws.
\<close>

record client_env =
  ce_url :: "string option"
  ce_token :: "string option"
  ce_fetch :: "client_request \<Rightarrow> string + client_response"

definition cp_url :: "client_env \<Rightarrow> string" where
  "cp_url env = (case Option.bind (ce_url env) or_null of None \<Rightarrow> ''http://localhost:3001'' | Some u \<Rightarrow> u)"

definition bearer :: "client_env \<Rightarrow> (string \<times> string) list" where
  "bearer env = (case Option.bind (ce_token env) or_null of None \<Rightarrow> [] | Some t \<Rightarrow> [(''Authorization'', ''Bearer '' @ t)])"

definition response_ok :: "client_response \<Rightarrow> bool" where
  "response_ok r \<longleftrightarrow> 200 \<le> cs_status r \<and> cs_status r \<le> 299"

text \<open>\<open>body.message || `HTTP ${res.status}`\<close>; reading a property of \<open>null\<close> throws, with a text of the engine's.\<close>

definition null_read :: "string \<Rightarrow> string" where
  "null_read key = ''Cannot read properties of null (reading '' @ [CHR 0x27] @ key @ [CHR 0x27] @ '')''"

definition error_payload :: "client_response \<Rightarrow> json" where
  "error_payload r = (case cs_json r of Inl _ \<Rightarrow> JObj [] | Inr v \<Rightarrow> v)"

definition refusal_text :: "(json \<Rightarrow> json) \<Rightarrow> client_response \<Rightarrow> string" where
  "refusal_text read r = (case error_payload r of
     JNull \<Rightarrow> null_read ''message''
   | body \<Rightarrow> (let m = map_option read (jget body ''message'')
       in if truthy m then js_string (the m) else ''HTTP '' @ nat_string (cs_status r)))"

text \<open>An error is the message of what is thrown.\<close>

definition api_request :: "client_env \<Rightarrow> string \<Rightarrow> string \<Rightarrow> client_body \<Rightarrow> string + json" where
  "api_request env path meth body =
    (case ce_fetch env \<lparr>cq_url = cp_url env @ path, cq_method = meth,
        cq_headers = (''Content-Type'', ''application/json'') # bearer env, cq_body = body\<rparr> of
       Inl e \<Rightarrow> Inl e
     | Inr res \<Rightarrow> if \<not> response_ok res then Inl (refusal_text (\<lambda>m. m) res)
         else if cs_status res = 204 then Inr (JObj []) else cs_json res)"

definition api_get :: "client_env \<Rightarrow> string \<Rightarrow> string + json" where
  "api_get env path = api_request env path ''GET'' NoBody"

definition api_post :: "client_env \<Rightarrow> string \<Rightarrow> json \<Rightarrow> string + json" where
  "api_post env path body = api_request env path ''POST'' (JsonBody body)"

definition api_patch :: "client_env \<Rightarrow> string \<Rightarrow> json \<Rightarrow> string + json" where
  "api_patch env path body = api_request env path ''PATCH'' (JsonBody body)"

definition api_delete :: "client_env \<Rightarrow> string \<Rightarrow> string + json" where
  "api_delete env path = api_request env path ''DELETE'' NoBody"

text \<open>An upload leaves the content type to the browser, and joins the messages of a validation error.\<close>

definition joined_message :: "json \<Rightarrow> json" where
  "joined_message m = (case m of
     JArr vs \<Rightarrow> JStr (join_with '', '' (map (\<lambda>v. if v = JNull then [] else js_string v) vs))
   | v \<Rightarrow> v)"

definition api_upload :: "client_env \<Rightarrow> string \<Rightarrow> (string \<times> string) list \<Rightarrow> string + json" where
  "api_upload env path form =
    (case ce_fetch env \<lparr>cq_url = cp_url env @ path, cq_method = ''POST'', cq_headers = bearer env, cq_body = FormBody form\<rparr> of
       Inl e \<Rightarrow> Inl e
     | Inr res \<Rightarrow> if \<not> response_ok res then Inl (refusal_text joined_message res) else cs_json res)"

section \<open>Waiting\<close>

text \<open>
  A polling loop: \<open>replies i\<close> is the answer to the request of attempt \<open>i\<close>, an error message when it
  throws; the first argument is the number of attempts left, the last one the latest answer.
\<close>

fun poll_until :: "('r \<Rightarrow> bool) \<Rightarrow> nat \<Rightarrow> (nat \<Rightarrow> string + 'r) \<Rightarrow> nat \<Rightarrow> 'r \<Rightarrow> string + 'r" where
  "poll_until over 0 replies i r = Inr r"
| "poll_until over (Suc n) replies i r = (case replies i of
     Inl e \<Rightarrow> Inl e
   | Inr r' \<Rightarrow> if over r' then Inr r' else poll_until over n replies (Suc i) r')"

definition reported_status :: "json \<Rightarrow> string option" where
  "reported_status run = (case jget run ''status'' of Some (JStr st) \<Rightarrow> Some st | _ \<Rightarrow> None)"

definition run_result :: "json \<Rightarrow> json" where
  "run_result run = (case jget run ''result'' of None \<Rightarrow> JNull | Some v \<Rightarrow> v)"

fun wait_for_job :: "nat \<Rightarrow> (nat \<Rightarrow> string + json) \<Rightarrow> nat \<Rightarrow> string + json" where
  "wait_for_job 0 replies i = Inl ''Agent job timed out''"
| "wait_for_job (Suc n) replies i = (case replies i of
     Inl e \<Rightarrow> Inl e
   | Inr run \<Rightarrow>
       if reported_status run = Some ''failed''
       then Inl (let m = jget (run_result run) ''errorMessage'' in if truthy m then js_string (the m) else ''Agent job failed'')
       else if reported_status run = Some ''success''
       then Inr (if truthy (Some (run_result run)) then run_result run else JObj [])
       else wait_for_job n replies (Suc i))"

definition job_attempts :: nat where "job_attempts = 600"

text \<open>\<open>xs.slice(-n)\<close> for a positive \<open>n\<close>.\<close>

definition last_n :: "nat \<Rightarrow> 'a list \<Rightarrow> 'a list" where
  "last_n n xs = drop (length xs - n) xs"

section \<open>Lemmas\<close>

lemma length_last_n [simp]: "length (last_n n xs) = min n (length xs)"
  by (simp add: last_n_def)

lemma last_n_all: "length xs \<le> n \<Longrightarrow> last_n n xs = xs"
  by (simp add: last_n_def)

lemma set_last_n: "set (last_n n xs) \<subseteq> set xs"
  unfolding last_n_def by (rule set_drop_subset)

text \<open>The loop ends at an attempt when no earlier one threw or ended it.\<close>

definition first_at :: "('r \<Rightarrow> bool) \<Rightarrow> (nat \<Rightarrow> string + 'r) \<Rightarrow> nat \<Rightarrow> bool" where
  "first_at over replies i \<longleftrightarrow> (\<forall>j < i. \<exists>r. replies j = Inr r \<and> \<not> over r)"

lemma ex_less_Suc_shift: "(\<exists>i < Suc n. P i) \<longleftrightarrow> P 0 \<or> (\<exists>i < n. P (Suc i))"
  by (auto simp: less_Suc_eq_0_disj)

lemma all_less_Suc_shift: "(\<forall>j < Suc n. P j) \<longleftrightarrow> P 0 \<and> (\<forall>j < n. P (Suc j))"
  by (auto simp: less_Suc_eq_0_disj)

lemma first_at_0 [simp]: "first_at over replies 0"
  by (simp add: first_at_def)

lemma first_at_Suc: "first_at over replies (Suc i) \<longleftrightarrow>
    (\<exists>r. replies 0 = Inr r \<and> \<not> over r) \<and> first_at over (\<lambda>j. replies (Suc j)) i"
  by (simp add: first_at_def all_less_Suc_shift)

lemma poll_until_over:
  assumes "over r"
  shows "\<not> over prev \<Longrightarrow> poll_until over n replies k prev = Inr r \<longleftrightarrow>
    (\<exists>i < n. replies (k + i) = Inr r \<and> first_at over (\<lambda>j. replies (k + j)) i)"
proof (induction n arbitrary: k prev)
  case 0
  with assms show ?case by auto
next
  case (Suc n)
  show ?case
  proof (cases "replies k")
    case (Inl e)
    then show ?thesis by (simp add: ex_less_Suc_shift first_at_Suc)
  next
    case (Inr x)
    with Suc.IH [of x "Suc k"] assms show ?thesis
      by (cases "over x") (auto simp: ex_less_Suc_shift first_at_Suc)
  qed
qed

section \<open>Properties\<close>

text \<open>
  Waiting for a job ends after at most the given number of polls, and succeeds exactly when one of
  them finds the run successful while every poll before it answered with a run that had not ended.
\<close>

definition job_over :: "json \<Rightarrow> bool" where
  "job_over run \<longleftrightarrow> reported_status run = Some ''failed'' \<or> reported_status run = Some ''success''"

theorem wait_for_job_success:
  "(\<exists>result. wait_for_job n replies k = Inr result) \<longleftrightarrow>
    (\<exists>i < n. (\<exists>run. replies (k + i) = Inr run \<and> reported_status run = Some ''success'') \<and> first_at job_over (\<lambda>j. replies (k + j)) i)"
proof (induction n arbitrary: k)
  case (Suc n)
  show ?case
  proof (cases "replies k")
    case (Inl e)
    then show ?thesis by (simp add: ex_less_Suc_shift first_at_Suc)
  next
    case (Inr x)
    with Suc.IH [of "Suc k"] show ?thesis
      by (auto simp: ex_less_Suc_shift first_at_Suc job_over_def)
  qed
qed simp

text \<open>
  Every request carries the stored token and nothing else tells who the caller is; a refusal of the
  control plane reaches the page as the message the control plane gave.
\<close>

theorem api_refusal_reported:
  assumes "ce_fetch env \<lparr>cq_url = cp_url env @ path, cq_method = ''POST'',
      cq_headers = [(''Content-Type'', ''application/json''), (''Authorization'', ''Bearer '' @ token)], cq_body = JsonBody body\<rparr> =
      Inr \<lparr>cs_status = status, cs_json = Inr (JObj [(''statusCode'', code), (''message'', JStr message)])\<rparr>"
    and "ce_token env = Some token" and "token \<noteq> []" and "message \<noteq> []" and "299 < status"
  shows "api_post env path body = Inl message"
  using assms
  by (simp add: api_post_def api_request_def bearer_def or_null_def response_ok_def refusal_text_def error_payload_def truthy_def)

end
