(* ===== verification/MapView.thy ===== *)
theory MapView
  imports LiveMap WebClient
begin

text \<open>
  The live map page, \<open>web/src/app/(dashboard)/live-map/LiveMapClient.tsx\<close>, without its rendering:
  the history the browser keeps and what the page shows of it, the sections in which the map is
  generated, the commands of the generation and their outcome, and the grid of regions.
\<close>

section \<open>History\<close>

record snapshot =
  sn_at :: time
  sn_players :: "live_entity list"
  sn_animals :: "live_entity list"
  sn_hostiles :: "live_entity list"

definition history_retention :: int where "history_retention = 72 * 60 * 60 * 1000"

definition max_history :: nat where "max_history = 25920"

definition retain :: "time \<Rightarrow> snapshot list \<Rightarrow> snapshot list" where
  "retain now xs = last_n max_history (filter (\<lambda>x. now - history_retention < sn_at x) xs)"

text \<open>The stored history; None when it is damaged or no array.\<close>

definition load_history :: "time \<Rightarrow> snapshot list option \<Rightarrow> snapshot list" where
  "load_history now saved = (case saved of None \<Rightarrow> [] | Some xs \<Rightarrow> retain now xs)"

text \<open>An update of the feed: the same clock reads the time of the snapshot and, later, the limit.\<close>

definition remember :: "time \<Rightarrow> snapshot \<Rightarrow> snapshot list \<Rightarrow> snapshot list" where
  "remember now s old = retain now (old @ [s])"

fun watch :: "(time \<times> snapshot) list \<Rightarrow> snapshot list \<Rightarrow> snapshot list" where
  "watch [] h = h"
| "watch ((now, s) # us) h = watch us (remember now s h)"

section \<open>The feed\<close>

text \<open>
  What \<open>get\<close> makes of an answer of the map route: the data, or the message that is thrown.  A body
  that is no object has neither \<open>data\<close> nor \<open>message\<close>; one that is no JSON throws before.
\<close>

definition feed_answer :: "nat \<Rightarrow> string + json \<Rightarrow> string + json" where
  "feed_answer status body = (case body of
     Inl e \<Rightarrow> Inl e
   | Inr JNull \<Rightarrow> Inl (null_read (if 200 \<le> status \<and> status \<le> 299 then ''data'' else ''message''))
   | Inr b \<Rightarrow>
       if \<not> (200 \<le> status \<and> status \<le> 299)
       then Inl (if truthy (jget b ''message'') then js_string (the (jget b ''message''))
         else ''Map API returned '' @ nat_string status)
       else Inr (case nullish_get b ''data'' of None \<Rightarrow> b | Some v \<Rightarrow> v))"

text \<open>The answers of one update, in the order in which they arrive; the first field of a clock is the hour.\<close>

datatype feed_event =
    EntitiesFeed time "string + snapshot"
  | ClaimsFeed "string + land_claim list"
  | RegionsFeed "string + region list"
  | StatsFeed "string + (int \<times> int \<times> int) option"
  | VisitFeed "string + visit_state"

record map_feed =
  mf_active :: bool
  mf_live :: snapshot
  mf_history :: "snapshot list"
  mf_claims :: "land_claim list"
  mf_regions :: "region list"
  mf_gameTime :: string
  mf_visit :: visit_state
  mf_feedError :: string

definition game_time :: "(int \<times> int \<times> int) option \<Rightarrow> string" where
  "game_time t = (case t of
     None \<Rightarrow> []
   | Some (days, hours, minutes) \<Rightarrow> ''Day '' @ int_string days @ '', '' @ pad2 hours @ '':'' @ pad2 minutes)"

text \<open>After the page was left (\<open>active\<close> is false) nothing changes.\<close>

fun feed_step :: "feed_event \<Rightarrow> map_feed \<Rightarrow> map_feed" where
  "feed_step (EntitiesFeed now r) f = (if \<not> mf_active f then f else (case r of
     Inl e \<Rightarrow> f\<lparr>mf_feedError := e\<rparr>
   | Inr s \<Rightarrow> f\<lparr>mf_live := s, mf_history := remember now s (mf_history f), mf_feedError := []\<rparr>))"
| "feed_step (ClaimsFeed r) f = (if \<not> mf_active f then f else (case r of
     Inl e \<Rightarrow> f\<lparr>mf_feedError := ''Claims: '' @ e\<rparr> | Inr c \<Rightarrow> f\<lparr>mf_claims := c\<rparr>))"
| "feed_step (RegionsFeed r) f = (if \<not> mf_active f then f else (case r of
     Inl e \<Rightarrow> f\<lparr>mf_feedError := ''Regions: '' @ e\<rparr> | Inr c \<Rightarrow> f\<lparr>mf_regions := c\<rparr>))"
| "feed_step (StatsFeed r) f = (if \<not> mf_active f then f else (case r of
     Inl e \<Rightarrow> f | Inr t \<Rightarrow> f\<lparr>mf_gameTime := game_time t\<rparr>))"
| "feed_step (VisitFeed r) f = (if \<not> mf_active f then f else (case r of
     Inl e \<Rightarrow> f | Inr st \<Rightarrow> f\<lparr>mf_visit := st\<rparr>))"

section \<open>What the page shows\<close>

definition windowed :: "time \<Rightarrow> int \<Rightarrow> snapshot list \<Rightarrow> snapshot list" where
  "windowed now minutes history = filter (\<lambda>s. now - minutes * 60000 \<le> sn_at s) history"

definition viewed :: "snapshot \<Rightarrow> snapshot list \<Rightarrow> nat option \<Rightarrow> snapshot" where
  "viewed live windows index = (case index of
     None \<Rightarrow> live
   | Some i \<Rightarrow> if i < length windows then windows ! i else live)"

definition entity_key :: "live_entity \<Rightarrow> string" where
  "entity_key e = int_string (le_id e)"

text \<open>Every player once, at the place of the first sighting, with the last known record.\<close>

definition player_choices :: "snapshot list \<Rightarrow> live_entity list \<Rightarrow> live_entity list" where
  "player_choices history players =
     map snd (foldl (\<lambda>m p. jput m (entity_key p) p) [] (concat (map sn_players history) @ players))"

definition visible_ids :: "string \<Rightarrow> snapshot \<Rightarrow> string list" where
  "visible_ids trackedPlayer shown = (if trackedPlayer \<noteq> [] then [trackedPlayer] else js_unique (map entity_key (sn_players shown)))"

definition shown_part :: "nat option \<Rightarrow> snapshot list \<Rightarrow> snapshot list" where
  "shown_part index windows = (case index of None \<Rightarrow> windows | Some i \<Rightarrow> take (Suc i) windows)"

definition sightings :: "string \<Rightarrow> snapshot list \<Rightarrow> (js_num \<times> js_num) list" where
  "sightings i ss = concat (map (\<lambda>s. map (\<lambda>p. (le_x p, le_z p)) (filter (\<lambda>p. entity_key p = i) (sn_players s))) ss)"

definition trails :: "string list \<Rightarrow> nat option \<Rightarrow> snapshot list \<Rightarrow> (js_num \<times> js_num) list list" where
  "trails ids index windows =
     filter (\<lambda>line. 1 < length line) (map (\<lambda>i. last_n 60 (sightings i (shown_part index windows))) ids)"

definition tracked :: "string \<Rightarrow> snapshot \<Rightarrow> live_entity option" where
  "tracked trackedPlayer shown = List.find (\<lambda>p. entity_key p = trackedPlayer) (sn_players shown)"

section \<open>Sections of the map generation\<close>

record box =
  bx_x1 :: int
  bx_z1 :: int
  bx_x2 :: int
  bx_z2 :: int

text \<open>\<open>Math.floor\<close> of a world size; the sizes are far below \<open>2 ^ 53\<close>, where doubles are exact.\<close>

definition floor_num :: "js_num \<Rightarrow> int option" where
  "floor_num v = (case v of Fin m k \<Rightarrow> Some (if 0 \<le> k then m * 10 ^ nat k else m div 10 ^ nat (- k)) | _ \<Rightarrow> None)"

text \<open>
  The size of the world file, or of the map configuration where it is missing or zero (a number that
  is zero is falsy).
\<close>

definition visit_size :: "js_num option \<Rightarrow> int \<Rightarrow> int option" where
  "visit_size info fallback = (case info of
     None \<Rightarrow> Some fallback
   | Some NaN \<Rightarrow> Some fallback
   | Some (Fin m k) \<Rightarrow> if m = 0 then Some fallback else floor_num (Fin m k)
   | Some v \<Rightarrow> floor_num v)"

definition ceil_div :: "int \<Rightarrow> int \<Rightarrow> int" where "ceil_div n d = - ((- n) div d)"

definition world_box :: "int \<Rightarrow> int \<Rightarrow> box" where
  "world_box w h =
    (let x1 = - (w div 2); z1 = - (h div 2)
     in \<lparr>bx_x1 = x1, bx_z1 = z1, bx_x2 = x1 + w - 1, bx_z2 = z1 + h - 1\<rparr>)"

definition section_box :: "int \<Rightarrow> int \<Rightarrow> nat \<Rightarrow> box" where
  "section_box w h visitSection =
    (let world = world_box w h;
         sectionColumn = int (visitSection mod 4); sectionRow = int (visitSection div 4);
         sectionWidth = ceil_div w 4; sectionHeight = ceil_div h 4;
         visitX1 = bx_x1 world + sectionColumn * sectionWidth;
         visitX2 = min (bx_x2 world) (visitX1 + sectionWidth - 1);
         visitZ2 = bx_z2 world - sectionRow * sectionHeight;
         visitZ1 = max (bx_z1 world) (visitZ2 - sectionHeight + 1)
     in \<lparr>bx_x1 = visitX1, bx_z1 = visitZ1, bx_x2 = visitX2, bx_z2 = visitZ2\<rparr>)"

definition visit_command :: "box \<Rightarrow> string" where
  "visit_command b = ''visitmap '' @ join_with '' '' (map int_string [bx_x1 b, bx_z1 b, bx_x2 b, bx_z2 b])"

section \<open>The generation\<close>

record map_view =
  mv_orgId :: "string option"
  mv_server :: "string option"
  mv_world :: "world_info option"
  mv_players :: "live_entity list"
  mv_busy :: bool
  mv_notice :: string
  mv_state :: visit_state

definition visit_running :: "map_view \<Rightarrow> bool" where
  "visit_running v \<longleftrightarrow> mv_state v \<in> {Running, Stalled}"

definition visit_blocked :: "map_view \<Rightarrow> bool" where
  "visit_blocked v \<longleftrightarrow> mv_players v \<noteq> [] \<or> visit_running v"

definition generate_enabled :: "map_view \<Rightarrow> bool" where
  "generate_enabled v \<longleftrightarrow> \<not> (mv_server v = None \<or> mv_world v = None \<or> mv_busy v \<or> visit_blocked v)"

definition stop_enabled :: "map_view \<Rightarrow> bool" where
  "stop_enabled v \<longleftrightarrow> visit_running v \<and> \<not> (mv_server v = None \<or> mv_busy v)"

text \<open>A run as the control plane answers it; \<open>cr_error\<close> is \<open>run.result?.errorMessage\<close>.\<close>

record command_run =
  cr_status :: string
  cr_error :: "string option"

definition run_over :: "command_run option \<Rightarrow> bool" where
  "run_over r = (case r of None \<Rightarrow> False | Some x \<Rightarrow> cr_status x = ''success'' \<or> cr_status x = ''failed'')"

definition visit_attempts :: nat where "visit_attempts = 120"

record rcon_request =
  rr_server :: string
  rr_command :: string

definition run_failure :: "command_run option \<Rightarrow> string" where
  "run_failure r = (case Option.bind (Option.bind r cr_error) or_null of
     None \<Rightarrow> ''The visitmap command did not start within 30 seconds.''
   | Some message \<Rightarrow> message)"

text \<open>
  \<open>sendVisitCommand\<close>: the jobs it queues, and the page when it returns.  \<open>queued\<close> is the answer to the
  \<open>POST\<close>.
\<close>

definition send_visit_command ::
    "(string + string) \<Rightarrow> (nat \<Rightarrow> string + command_run option) \<Rightarrow> string \<Rightarrow> string \<Rightarrow> map_view \<Rightarrow> map_view \<times> rcon_request list" where
  "send_visit_command queued replies command successMessage v = (case (Option.bind (mv_orgId v) or_null, mv_server v) of
     (Some org, Some server) \<Rightarrow>
       if mv_busy v then (v, [])
       else (let jobs = [\<lparr>rr_server = server, rr_command = command\<rparr>]; failed = (\<lambda>m. (v\<lparr>mv_notice := m\<rparr>, jobs))
         in case queued of
              Inl e \<Rightarrow> failed e
            | Inr run_id \<Rightarrow> (case poll_until run_over visit_attempts replies 0 None of
                Inl e \<Rightarrow> failed e
              | Inr r \<Rightarrow>
                  if map_option cr_status r \<noteq> Some ''success'' then failed (run_failure r)
                  else (v\<lparr>mv_notice := successMessage,
                      mv_state := (if js_starts_with command ''visitmap '' \<and> command \<noteq> ''visitmap stop''
                        then Running else mv_state v)\<rparr>, jobs)))
   | _ \<Rightarrow> (v, []))"

text \<open>The check that \<open>stopVisitMap\<close> schedules after 3.5 seconds.\<close>

definition verify_stop :: "(string + visit_state) \<Rightarrow> map_view \<Rightarrow> map_view" where
  "verify_stop reply v = (case reply of
     Inl message \<Rightarrow> v\<lparr>mv_notice := message\<rparr>
   | Inr state \<Rightarrow> v\<lparr>mv_state := state, mv_notice :=
       (if state \<in> {Stopped, Idle, Complete} then ''Map generation is not running.''
        else if state = Stalled
        then ''Stop was sent, but the stalled game thread has not processed it. A server restart may be required.''
        else ''Stop was sent, but map generation is still reporting progress.'')\<rparr>)"

section \<open>Regions\<close>

definition region_name :: "int \<Rightarrow> int \<Rightarrow> string" where
  "region_name x z = ''r.'' @ int_string x @ ''.'' @ int_string z @ ''.7rg''"

text \<open>The grid of a world whose region files are not known.\<close>

definition region_grid :: "int \<Rightarrow> int \<Rightarrow> (string \<times> int \<times> int) list" where
  "region_grid sx sz = map (\<lambda>index.
     let width = ceil_div sz 512;
         x = (- sx) div 1024 + int index div width;
         z = (- sz) div 1024 + int index mod width
     in (region_name x z, x, z)) [0 ..< nat (ceil_div sx 512 * ceil_div sz 512)]"

section \<open>Lemmas\<close>

subsection \<open>Sections\<close>

text \<open>
  One axis: \<open>n\<close> cells are cut into four strips of \<open>ceil_div n 4\<close> cells, the last one shorter.
\<close>

definition strip :: "int \<Rightarrow> int \<Rightarrow> int \<Rightarrow> bool" where
  "strip n k i \<longleftrightarrow> k * ceil_div n 4 \<le> i \<and> i < min n ((k + 1) * ceil_div n 4)"

lemma ceil_div_4: "4 * ceil_div n 4 - 3 \<le> n \<and> n \<le> 4 * ceil_div n 4"
  unfolding ceil_div_def by presburger

lemma ceil_div_pos: "0 < n \<Longrightarrow> 0 < ceil_div n 4"
  using ceil_div_4 [of n] by linarith

lemma cell_bounds: "0 < (c::int) \<Longrightarrow> i div c * c \<le> i \<and> i < (i div c + 1) * c"
proof -
  assume "0 < c"
  then have "0 \<le> i mod c" "i mod c < c" by simp_all
  moreover have "i = i div c * c + i mod c" by simp
  ultimately show ?thesis by (simp only: distrib_right) linarith
qed

lemma strip_index:
  assumes "0 < n" and "0 \<le> k" and "k < 4"
  shows "strip n k i \<longleftrightarrow> 0 \<le> i \<and> i < n \<and> i div ceil_div n 4 = k"
proof -
  note c = ceil_div_pos [OF assms(1)]
  show ?thesis
  proof
    assume s: "strip n k i"
    then have "0 \<le> i" using assms(2) c by (auto simp: strip_def intro: order_trans [rotated])
    moreover have "i div ceil_div n 4 = k"
      using s by (intro int_div_pos_eq [of _ _ _ "i - k * ceil_div n 4"]) (auto simp: strip_def algebra_simps)
    ultimately show "0 \<le> i \<and> i < n \<and> i div ceil_div n 4 = k" using s by (simp add: strip_def)
  next
    assume a: "0 \<le> i \<and> i < n \<and> i div ceil_div n 4 = k"
    with cell_bounds [OF c, of i] show "strip n k i" by (auto simp: strip_def)
  qed
qed

lemma strip_exists:
  assumes "0 < n" and "0 \<le> i" and "i < n"
  shows "0 \<le> i div ceil_div n 4 \<and> i div ceil_div n 4 < 4"
proof -
  note c = ceil_div_pos [OF assms(1)]
  from ceil_div_4 [of n] assms(3) have "i < 4 * ceil_div n 4" by linarith
  with cell_bounds [OF c, of i] have "i div ceil_div n 4 * ceil_div n 4 < 4 * ceil_div n 4" by linarith
  with c have "i div ceil_div n 4 < 4" by simp
  with c assms(2) show ?thesis by (simp add: pos_imp_zdiv_nonneg_iff)
qed

definition inside :: "box \<Rightarrow> int \<times> int \<Rightarrow> bool" where
  "inside b p \<longleftrightarrow> bx_x1 b \<le> fst p \<and> fst p \<le> bx_x2 b \<and> bx_z1 b \<le> snd p \<and> snd p \<le> bx_z2 b"

definition proper :: "box \<Rightarrow> bool" where
  "proper b \<longleftrightarrow> bx_x1 b \<le> bx_x2 b \<and> bx_z1 b \<le> bx_z2 b"

text \<open>Columns are counted from the west, rows from the north.\<close>

lemma inside_section:
  "inside (section_box w h k) (x, z) \<longleftrightarrow>
    strip w (int (k mod 4)) (x + w div 2) \<and> strip h (int (k div 4)) (h - 1 - (z + h div 2))"
  by (auto simp: inside_def section_box_def world_box_def strip_def Let_def algebra_simps)

lemma inside_world:
  "inside (world_box w h) (x, z) \<longleftrightarrow>
    (0 \<le> x + w div 2 \<and> x + w div 2 < w) \<and> (0 \<le> h - 1 - (z + h div 2) \<and> h - 1 - (z + h div 2) < h)"
  by (auto simp: inside_def world_box_def Let_def)

lemma section_numbers: "k < 16 \<Longrightarrow> int (k mod 4) < 4 \<and> int (k div 4) < 4"
  by linarith

lemma strip_nonempty: "0 < n \<Longrightarrow> (\<forall>k \<in> {0, 1, 2, 3}. k * ceil_div n 4 < n) \<longleftrightarrow> n \<notin> {1, 2, 3, 5, 6, 9}"
  unfolding ceil_div_def by auto presburger+

lemma proper_section:
  assumes "0 < w" and "0 < h"
  shows "proper (section_box w h k) \<longleftrightarrow> int (k mod 4) * ceil_div w 4 < w \<and> int (k div 4) * ceil_div h 4 < h"
proof -
  from assms [THEN ceil_div_pos] show ?thesis by (auto simp: proper_def section_box_def world_box_def Let_def)
qed

lemma all_sections: "(\<forall>k < 16. P (k mod 4) \<and> Q (k div 4)) \<longleftrightarrow> (\<forall>c < 4. P c) \<and> (\<forall>r < 4. Q r)" for P Q :: "nat \<Rightarrow> bool"
proof (intro iffI conjI allI impI)
  assume a: "\<forall>k < 16. P (k mod 4) \<and> Q (k div 4)"
  show "P c" if "c < 4" for c using a [rule_format, of c] that by simp
  show "Q r" if "r < 4" for r using a [rule_format, of "4 * r"] that by simp
qed auto

lemma all_columns: "(\<forall>c < 4. P (int c)) \<longleftrightarrow> (\<forall>c \<in> {0, 1, 2, 3}. P c)"
  by (auto simp: numeral_eq_Suc less_Suc_eq)

subsection \<open>History\<close>

text \<open>Snapshots come every ten seconds, at the earliest.\<close>

definition spaced :: "snapshot list \<Rightarrow> bool" where
  "spaced xs \<longleftrightarrow> sorted_wrt (\<lambda>a b. sn_at a + 10000 \<le> sn_at b) xs"

text \<open>Updates with the times of a clock that does not run backwards.\<close>

definition clocked :: "(time \<times> snapshot) list \<Rightarrow> bool" where
  "clocked us \<longleftrightarrow> sorted (map fst us) \<and> list_all (\<lambda>(now, s). sn_at s \<le> now) us \<and> spaced (map snd us)"

lemma watch_append: "watch (us @ us') h = watch us' (watch us h)"
  by (induction us h rule: watch.induct) auto

lemma spaced_span: "spaced (x # xs) \<Longrightarrow> sn_at x + 10000 * int (length xs) \<le> sn_at (last (x # xs))"
proof (induction xs arbitrary: x)
  case (Cons y ys)
  then have "sn_at y + 10000 * int (length ys) \<le> sn_at (last (y # ys))" by (simp add: spaced_def)
  with Cons.prems show ?case by (simp add: spaced_def)
qed simp

lemma spaced_in_retention:
  assumes "spaced xs" and "\<forall>x \<in> set xs. now - history_retention < sn_at x \<and> sn_at x \<le> now"
  shows "length xs \<le> max_history"
proof (cases xs)
  case (Cons y ys)
  have "now - history_retention < sn_at y" "sn_at (last xs) \<le> now" using assms(2) Cons by simp_all
  with spaced_span [of y ys] assms(1) show ?thesis by (simp add: Cons history_retention_def max_history_def)
qed simp

lemma spaced_filter: "spaced xs \<Longrightarrow> spaced (filter P xs)"
  unfolding spaced_def by (rule sorted_wrt_filter)

lemma retain_spaced:
  assumes "spaced xs" and "\<forall>x \<in> set xs. sn_at x \<le> now"
  shows "retain now xs = filter (\<lambda>x. now - history_retention < sn_at x) xs"
  unfolding retain_def using assms
  by (intro last_n_all spaced_in_retention [where now = now]) (auto intro: spaced_filter)

lemma retain_filter: "now' \<le> now \<Longrightarrow>
    retain now (filter (\<lambda>x. now' - history_retention < sn_at x) xs @ [s]) = retain now (xs @ [s])"
proof -
  assume "now' \<le> now"
  then have "filter (\<lambda>x. now - history_retention < sn_at x) (filter (\<lambda>x. now' - history_retention < sn_at x) xs) =
      filter (\<lambda>x. now - history_retention < sn_at x) xs"
    by (auto intro: filter_cong)
  then show ?thesis by (simp only: retain_def filter_append)
qed

lemma clocked_snoc: "clocked (us @ [(now, s)]) \<Longrightarrow> clocked us \<and> (\<forall>u \<in> set us. fst u \<le> now) \<and>
    spaced (map snd us @ [s]) \<and> (\<forall>x \<in> set (map snd us @ [s]). sn_at x \<le> now)"
  by (auto simp: clocked_def spaced_def sorted_wrt_append sorted_append list_all_iff)

lemma watch_complete:
  "clocked us \<Longrightarrow> us \<noteq> [] \<Longrightarrow>
    watch us [] = filter (\<lambda>x. fst (last us) - history_retention < sn_at x) (map snd us)"
proof (induction us rule: rev_induct)
  case (snoc u us)
  obtain now s where u: "u = (now, s)" by force
  note c = clocked_snoc [OF snoc.prems(1) [unfolded u]]
  have "watch (us @ [u]) [] = retain now (watch us [] @ [s])" by (simp add: u watch_append remember_def)
  also have "\<dots> = retain now (map snd us @ [s])"
  proof (cases "us = []")
    case False
    with c have "fst (last us) \<le> now" by simp
    with False c snoc.IH show ?thesis by (simp add: retain_filter)
  qed simp
  also have "\<dots> = filter (\<lambda>x. now - history_retention < sn_at x) (map snd us @ [s])"
    using c by (blast intro: retain_spaced)
  finally show ?case by (simp add: u)
qed simp

lemma watch_bounded: "length h \<le> max_history \<Longrightarrow> length (watch us h) \<le> max_history"
  by (induction us h rule: watch.induct) (auto simp: remember_def retain_def)

subsection \<open>Players and trails\<close>

lemma set_jput: "set (jput m k v) \<subseteq> insert (k, v) (set m)"
  by (induction m) (auto split: if_splits)

lemma keyed_fold:
  assumes "\<forall>(k, p) \<in> set m. entity_key p = k" and "distinct (map fst m)"
  shows "(\<forall>(k, p) \<in> set (foldl (\<lambda>m p. jput m (entity_key p) p) m ps). entity_key p = k) \<and>
    distinct (map fst (foldl (\<lambda>m p. jput m (entity_key p) p) m ps)) \<and>
    fst ` set (foldl (\<lambda>m p. jput m (entity_key p) p) m ps) = fst ` set m \<union> entity_key ` set ps"
  using assms
proof (induction ps arbitrary: m)
  case (Cons p ps)
  have "\<forall>(k, q) \<in> set (jput m (entity_key p) p). entity_key q = k"
    using Cons.prems(1) set_jput [of m "entity_key p" p] by fastforce
  with Cons.IH [of "jput m (entity_key p) p"] Cons.prems(2) show ?case
    by (simp add: distinct_jput map_of_jput_keys)
qed simp

subsection \<open>Commands\<close>

text \<open>The run ends with the status within the attempts, and no request before throws.\<close>

definition ends_with :: "(nat \<Rightarrow> string + command_run option) \<Rightarrow> nat \<Rightarrow> string \<Rightarrow> bool" where
  "ends_with replies n status \<longleftrightarrow> (\<exists>i < n. (\<exists>r. replies i = Inr (Some r) \<and> cr_status r = status) \<and>
     (\<forall>j < i. \<exists>r. replies j = Inr r \<and> \<not> run_over r))"

lemma poll_success:
  "(\<exists>r. poll_until run_over n replies 0 None = Inr r \<and> map_option cr_status r = Some ''success'') \<longleftrightarrow>
    ends_with replies n ''success''"
proof -
  have none: "\<not> run_over None" by (simp add: run_over_def)
  have eq: "poll_until run_over n replies 0 None = Inr r \<longleftrightarrow> (\<exists>i < n. replies i = Inr r \<and> first_at run_over replies i)"
    if "map_option cr_status r = Some ''success''" for r
  proof -
    from that have "run_over r" by (auto simp: run_over_def)
    from poll_until_over [where over = run_over and k = 0, OF this none] show ?thesis by simp
  qed
  show ?thesis
  proof
    assume "\<exists>r. poll_until run_over n replies 0 None = Inr r \<and> map_option cr_status r = Some ''success''"
    then obtain r where "poll_until run_over n replies 0 None = Inr (Some r)" "cr_status r = ''success''" by auto
    with eq [of "Some r"] show "ends_with replies n ''success''" by (auto simp: ends_with_def first_at_def)
  next
    assume "ends_with replies n ''success''"
    then obtain r where "\<exists>i < n. replies i = Inr (Some r) \<and> first_at run_over replies i" "cr_status r = ''success''"
      by (auto simp: ends_with_def first_at_def)
    with eq [of "Some r"] show "\<exists>r. poll_until run_over n replies 0 None = Inr r \<and> map_option cr_status r = Some ''success''"
      by (intro exI [of _ "Some r"]) simp
  qed
qed

section \<open>Properties\<close>

text \<open>
  C24. The sixteen sections of the map generation partition the world: a block lies in the world exactly
  when it lies in exactly one of them, so that generating them one after the other visits every
  block once.  All of them are proper rectangles except in worlds with a side of 1, 2, 3, 5, 6 or 9
  blocks, where rounding up leaves nothing for the last ones and the command names an inverted
  rectangle.
\<close>

theorem visit_sections_partition:
  assumes "0 < w" and "0 < h"
  shows "(\<forall>p. inside (world_box w h) p \<longleftrightarrow> (\<exists>!k. k < 16 \<and> inside (section_box w h k) p)) \<and>
    ((\<forall>k < 16. proper (section_box w h k)) \<longleftrightarrow> w \<notin> {1, 2, 3, 5, 6, 9} \<and> h \<notin> {1, 2, 3, 5, 6, 9})"
proof
  show "\<forall>p. inside (world_box w h) p \<longleftrightarrow> (\<exists>!k. k < 16 \<and> inside (section_box w h k) p)"
  proof
    fix p :: "int \<times> int"
    obtain x z where p: "p = (x, z)" by force
    let ?i = "x + w div 2" and ?j = "h - 1 - (z + h div 2)"
    have sec: "inside (section_box w h k) p \<longleftrightarrow> inside (world_box w h) p \<and>
        ?i div ceil_div w 4 = int (k mod 4) \<and> ?j div ceil_div h 4 = int (k div 4)" if "k < 16" for k
      using section_numbers [OF that] assms by (auto simp: p inside_section inside_world strip_index)
    show "inside (world_box w h) p \<longleftrightarrow> (\<exists>!k. k < 16 \<and> inside (section_box w h k) p)"
    proof
      assume in_world: "inside (world_box w h) p"
      define c where "c = nat (?i div ceil_div w 4)"
      define r where "r = nat (?j div ceil_div h 4)"
      from strip_exists [OF assms(1), of ?i] strip_exists [OF assms(2), of ?j] in_world
      have cr: "int c = ?i div ceil_div w 4" "int r = ?j div ceil_div h 4" "c < 4" "r < 4"
        by (auto simp: p inside_world c_def r_def nat_less_iff)
      show "\<exists>!k. k < 16 \<and> inside (section_box w h k) p"
      proof
        show "4 * r + c < 16 \<and> inside (section_box w h (4 * r + c)) p"
          using cr in_world sec [of "4 * r + c"] by simp
        show "k = 4 * r + c" if "k < 16 \<and> inside (section_box w h k) p" for k
          using that sec [of k] cr by simp
      qed
    qed (use sec in blast)
  qed
  have "(\<forall>k < 16. proper (section_box w h k)) \<longleftrightarrow>
      (\<forall>c \<in> {0, 1, 2, 3}. c * ceil_div w 4 < w) \<and> (\<forall>r \<in> {0, 1, 2, 3}. r * ceil_div h 4 < h)"
    unfolding proper_section [OF assms]
      all_sections [of "\<lambda>c. int c * ceil_div w 4 < w" "\<lambda>r. int r * ceil_div h 4 < h"]
      all_columns [of "\<lambda>c. c * ceil_div w 4 < w"] all_columns [of "\<lambda>r. r * ceil_div h 4 < h"] ..
  with strip_nonempty [OF assms(1)] strip_nonempty [OF assms(2)]
  show "(\<forall>k < 16. proper (section_box w h k)) \<longleftrightarrow> w \<notin> {1, 2, 3, 5, 6, 9} \<and> h \<notin> {1, 2, 3, 5, 6, 9}" by simp
qed

theorem visit_sections_partition_witness:
  "(\<exists>!k. k < 16 \<and> inside (section_box 6144 6144 k) (0, 0)) \<and> (\<exists>k. k < 16 \<and> \<not> proper (section_box 9 6144 k))"
proof -
  have "inside (world_box 6144 6144) (0, 0)" by (simp add: inside_def world_box_def)
  with visit_sections_partition [of 6144 6144] visit_sections_partition [of 9 6144] show ?thesis by simp
qed

text \<open>
  C27. The browser keeps at most 25,920 snapshots, whatever happens, and this limit costs nothing: with an
  update every ten seconds at the earliest, the history is exactly the snapshots of the last 72
  hours.
\<close>

theorem history_complete:
  assumes "us \<noteq> []"
  shows "(length h \<le> max_history \<longrightarrow> length (watch us h) \<le> max_history) \<and>
    (clocked us \<longrightarrow> watch us [] = filter (\<lambda>x. fst (last us) - history_retention < sn_at x) (map snd us))"
  using assms watch_bounded watch_complete by blast

definition sample_snapshot :: "time \<Rightarrow> snapshot" where
  "sample_snapshot t = \<lparr>sn_at = t, sn_players = [], sn_animals = [], sn_hostiles = []\<rparr>"

theorem history_complete_witness:
  "watch [(5, sample_snapshot 4), (20000, sample_snapshot 20000), (259200005, sample_snapshot 259200004)] [] =
    [sample_snapshot 20000, sample_snapshot 259200004]"
proof -
  let ?us = "[(5, sample_snapshot 4), (20000, sample_snapshot 20000), (259200005, sample_snapshot 259200004)]"
  have "clocked ?us" by (simp add: clocked_def spaced_def sample_snapshot_def)
  with history_complete [of ?us "[]"] show ?thesis by (simp add: sample_snapshot_def history_retention_def)
qed

text \<open>Every trail has two to sixty points, and they are sightings of one shown player.\<close>

theorem trails_bounded:
  "\<forall>line \<in> set (trails ids index windows). 2 \<le> length line \<and> length line \<le> 60 \<and>
    (\<exists>i \<in> set ids. set line \<subseteq> set (sightings i windows))"
proof -
  have "set (last_n 60 (sightings i (shown_part index windows))) \<subseteq> set (sightings i windows)" for i
  proof -
    have "set (shown_part index windows) \<subseteq> set windows"
      by (auto simp: shown_part_def dest: in_set_takeD split: option.splits)
    then have "set (sightings i (shown_part index windows)) \<subseteq> set (sightings i windows)"
      unfolding sightings_def by auto
    then show ?thesis by (rule order_trans [OF set_last_n])
  qed
  then show ?thesis by (auto simp: trails_def)
qed

text \<open>The list of players offers each player ever seen once.\<close>

theorem player_choices_once:
  "distinct (map entity_key (player_choices history players)) \<and>
    set (map entity_key (player_choices history players)) =
      entity_key ` ((\<Union>s \<in> set history. set (sn_players s)) \<union> set players)"
proof -
  define m where "m = foldl (\<lambda>m p. jput m (entity_key p) p) [] (concat (map sn_players history) @ players)"
  have m: "\<forall>(k, p) \<in> set m. entity_key p = k" "distinct (map fst m)"
      "fst ` set m = entity_key ` set (concat (map sn_players history) @ players)"
    using keyed_fold [of "[]" "concat (map sn_players history) @ players"] by (simp_all add: m_def)
  from m(1) have "map entity_key (map snd m) = map fst m" by auto
  then have "map entity_key (player_choices history players) = map fst m" by (simp add: player_choices_def m_def)
  with m(2,3) show ?thesis by simp
qed

text \<open>
  A command of the map generation queues exactly one job and is reported as delivered exactly when
  one of the 120 polls finds the run successful before any poll fails or finds it failed; only then
  does the page take a generation for running.
\<close>

theorem visit_command_outcome:
  assumes "mv_orgId v = Some org" and "org \<noteq> []" and "mv_server v = Some server" and "\<not> mv_busy v"
  shows "snd (send_visit_command (Inr run_id) replies command message v) = [\<lparr>rr_server = server, rr_command = command\<rparr>] \<and>
    (if ends_with replies 120 ''success''
     then fst (send_visit_command (Inr run_id) replies command message v) =
       v\<lparr>mv_notice := message, mv_state :=
         (if js_starts_with command ''visitmap '' \<and> command \<noteq> ''visitmap stop'' then Running else mv_state v)\<rparr>
     else mv_state (fst (send_visit_command (Inr run_id) replies command message v)) = mv_state v)"
proof -
  note success = poll_success [of 120 replies]
  show ?thesis
  proof (cases "poll_until run_over 120 replies 0 None")
    case (Inl e)
    with success have "\<not> ends_with replies 120 ''success''" by simp
    with Inl assms show ?thesis by (simp add: send_visit_command_def visit_attempts_def or_null_def)
  next
    case (Inr r)
    with success have "map_option cr_status r = Some ''success'' \<longleftrightarrow> ends_with replies 120 ''success''" by simp
    with Inr assms show ?thesis by (simp add: send_visit_command_def visit_attempts_def or_null_def Let_def)
  qed
qed

definition sample_view :: map_view where
  "sample_view = \<lparr>mv_orgId = Some ''org'', mv_server = Some ''srv'', mv_world = None, mv_players = [], mv_busy = False,
     mv_notice = [], mv_state = Idle\<rparr>"

definition sample_replies :: "nat \<Rightarrow> string + command_run option" where
  "sample_replies i = Inr (if i < 3 then None else Some \<lparr>cr_status = ''success'', cr_error = None\<rparr>)"

theorem visit_command_outcome_witness:
  "mv_state (fst (send_visit_command (Inr ''run'') sample_replies ''visitmap 0 0 9 9'' ''started'' sample_view)) = Running"
proof -
  have "sample_replies 3 = Inr (Some \<lparr>cr_status = ''success'', cr_error = None\<rparr>)" "\<forall>j < 3. sample_replies j = Inr None"
    by (simp_all add: sample_replies_def)
  then have e: "ends_with sample_replies 120 ''success''"
    unfolding ends_with_def by (intro exI [of _ 3]) (simp add: run_over_def)
  have "js_starts_with ''visitmap 0 0 9 9'' ''visitmap ''" by simp
  with e visit_command_outcome [of sample_view "''org''" "''srv''" "''run''" sample_replies "''visitmap 0 0 9 9''" "''started''"]
  show ?thesis by (simp add: sample_view_def)
qed

text \<open>
  The grid drawn before the region files are known covers exactly the world, when its sides are
  multiples of 1024, as those of generated worlds are.
\<close>

lemma region_grid_set:
  assumes "0 < m" and "0 < n"
  shows "snd ` set (region_grid (1024 * m) (1024 * n)) = {- m ..< m} \<times> {- n ..< n}"
proof -
  have g: "region_grid (1024 * m) (1024 * n) =
      map (\<lambda>i. let x = - m + int i div (2 * n); z = - n + int i mod (2 * n) in (region_name x z, x, z)) [0 ..< nat (2 * m * (2 * n))]"
  proof -
    have c: "ceil_div (1024 * k) 512 = 2 * k" "- (1024 * k) div 1024 = - k" for k :: int
    proof -
      have e: "- (1024 * k) = 512 * (- (2 * k))" "- (1024 * k) = 1024 * - k" by simp_all
      show "ceil_div (1024 * k) 512 = 2 * k" unfolding ceil_div_def e(1) by (subst nonzero_mult_div_cancel_left) simp_all
      show "- (1024 * k) div 1024 = - k" unfolding e(2) by (rule nonzero_mult_div_cancel_left) simp
    qed
    show ?thesis by (simp add: region_grid_def c Let_def)
  qed
  show ?thesis
  proof (intro equalityI subsetI)
    fix p assume "p \<in> snd ` set (region_grid (1024 * m) (1024 * n))"
    then obtain i where i: "i < nat (2 * m * (2 * n))" "p = (- m + int i div (2 * n), - n + int i mod (2 * n))"
      by (auto simp: g Let_def)
    have "int i < 2 * m * (2 * n)" using i(1) assms by linarith
    with cell_bounds [of "2 * n" "int i"] assms(2) have "int i div (2 * n) * (2 * n) < 2 * m * (2 * n)" by linarith
    then have "int i div (2 * n) < 2 * m" using assms(2) by simp
    with assms(2) show "p \<in> {- m ..< m} \<times> {- n ..< n}"
      using pos_mod_bound [of "2 * n" "int i"] pos_mod_sign [of "2 * n" "int i"] by (auto simp: i(2) pos_imp_zdiv_nonneg_iff)
  next
    fix p assume "p \<in> {- m ..< m} \<times> {- n ..< n}"
    then obtain x z where p: "p = (x, z)" "0 \<le> x + m" "x + m < 2 * m" "0 \<le> z + n" "z + n < 2 * n" by auto
    define i where "i = nat ((x + m) * (2 * n) + (z + n))"
    have i: "int i = (x + m) * (2 * n) + (z + n)" using p assms by (simp add: i_def)
    have "int i div (2 * n) = x + m" "int i mod (2 * n) = z + n" using p by (simp_all add: i)
    moreover have "i < nat (2 * m * (2 * n))"
    proof -
      have "(x + m + 1) * (2 * n) \<le> 2 * m * (2 * n)" using p assms by (intro mult_right_mono) auto
      with p have "int i < 2 * m * (2 * n)" by (simp add: i distrib_right)
      then show ?thesis by linarith
    qed
    ultimately show "p \<in> snd ` set (region_grid (1024 * m) (1024 * n))"
      by (auto simp: g Let_def p(1) image_iff intro!: bexI [of _ i])
  qed
qed

theorem region_grid_covers:
  assumes "0 < m" and "0 < n"
  shows "(- (512 * m) \<le> x \<and> x < 512 * m \<and> - (512 * n) \<le> z \<and> z < 512 * n) \<longleftrightarrow>
    (x div 512, z div 512) \<in> snd ` set (region_grid (1024 * m) (1024 * n))"
proof -
  have "- (512 * k) \<le> y \<and> y < 512 * k \<longleftrightarrow> - k \<le> y div 512 \<and> y div 512 < k" for k y :: int
    using cell_bounds [of 512 y] by auto
  from this [of m x] this [of n z] show ?thesis by (auto simp: region_grid_set [OF assms])
qed

text \<open>
  Whether the page reports that the claims could not be read depends on which answer of the same
  update arrives last: entities that arrive after the failure wipe its message out.
\<close>

theorem feed_error_depends_on_order:
  assumes "mf_active f"
  shows "mf_feedError (fold feed_step [EntitiesFeed now (Inr s), ClaimsFeed (Inl e)] f) = ''Claims: '' @ e \<and>
    mf_feedError (fold feed_step [ClaimsFeed (Inl e), EntitiesFeed now (Inr s)] f) = []"
  using assms by simp

text \<open>A feed that fails leaves every list as it was; one that answers changes its own only.\<close>

theorem feed_failures_keep_data:
  "mf_live (feed_step (ClaimsFeed r) f) = mf_live f \<and> mf_history (feed_step (ClaimsFeed r) f) = mf_history f \<and>
   mf_regions (feed_step (ClaimsFeed r) f) = mf_regions f \<and>
   mf_live (feed_step (EntitiesFeed now (Inl e)) f) = mf_live f \<and> mf_history (feed_step (EntitiesFeed now (Inl e)) f) = mf_history f \<and>
   mf_claims (feed_step (EntitiesFeed now q) f) = mf_claims f \<and> mf_claims (feed_step (ClaimsFeed (Inl e)) f) = mf_claims f"
  by (simp split: sum.split)

end
