(* ===== verification/LogPage.thy ===== *)
theory LogPage
  imports LogStream WebClient
begin

text \<open>
  The log page, \<open>web/src/app/(dashboard)/logs/page.tsx\<close>: following the log of the selected server with
  the endpoint of \<open>LogStream\<close> (\<open>list_logs\<close>), as a machine whose steps are the user's and the timer's events
  and the answers to the request under way; and the console under the log.
\<close>

section \<open>Following the log\<close>

text \<open>\<open>lp_server\<close> and \<open>lp_after\<close> are the parameters of a request under way.\<close>

record log_request =
  lp_server :: id
  lp_initial :: bool
  lp_after :: "id option"

text \<open>\<open>latestLogId\<close>, \<open>pausedRef\<close> and \<open>loadingLogs\<close> are references; no server is the empty text.\<close>

record log_view =
  lv_serverId :: id
  lv_latestLogId :: id
  lv_logs :: "server_log list"
  lv_paused :: bool
  lv_loading :: "log_request option"
  lv_error :: string

datatype log_event =
    SelectServer id
  | Tick
  | Pause bool
  | Answered store
  | Broken string

definition fresh_view :: log_view where
  "fresh_view = \<lparr>lv_serverId = [], lv_latestLogId = [], lv_logs = [], lv_paused = False, lv_loading = None, lv_error = []\<rparr>"

definition start_load :: "bool \<Rightarrow> log_view \<Rightarrow> log_view" where
  "start_load initial v =
    (if lv_serverId v = [] \<or> lv_paused v \<or> lv_loading v \<noteq> None then v
     else v\<lparr>lv_loading := Some \<lparr>lp_server = lv_serverId v, lp_initial = initial,
       lp_after = (if \<not> initial then or_null (lv_latestLogId v) else None)\<rparr>\<rparr>)"

definition answer_rows :: "id \<Rightarrow> store \<Rightarrow> log_request \<Rightarrow> server_log list" where
  "answer_rows orgId s rq = list_logs s orgId (Some (lp_server rq)) (Some (if lp_initial rq then 300 else 200)) (lp_after rq)"

definition add_rows :: "server_log list \<Rightarrow> server_log list \<Rightarrow> server_log list" where
  "add_rows current rows = last_n 500 (current @ filter (\<lambda>row. log_id row \<notin> log_id ` set current) rows)"

definition finish_load :: "bool \<Rightarrow> server_log list \<Rightarrow> log_view \<Rightarrow> log_view" where
  "finish_load initial rows v =
    (if rows \<noteq> []
     then v\<lparr>lv_latestLogId := log_id (last rows), lv_logs := (if initial then rows else add_rows (lv_logs v) rows),
       lv_error := [], lv_loading := None\<rparr>
     else v\<lparr>lv_logs := (if initial then [] else lv_logs v), lv_error := [], lv_loading := None\<rparr>)"

text \<open>
  Another server is selected: the effect of the page clears the list and starts the initial request.
  An answer is what the endpoint returns for the store at the time it is served.
\<close>

fun log_step :: "id \<Rightarrow> log_event \<Rightarrow> log_view \<Rightarrow> log_view" where
  "log_step orgId (SelectServer sid) v =
    (if sid = lv_serverId v then v
     else start_load True (v\<lparr>lv_serverId := sid, lv_latestLogId := [], lv_logs := []\<rparr>))"
| "log_step orgId Tick v = start_load False v"
| "log_step orgId (Pause b) v = v\<lparr>lv_paused := b\<rparr>"
| "log_step orgId (Answered s) v = (case lv_loading v of
     None \<Rightarrow> v
   | Some rq \<Rightarrow> finish_load (lp_initial rq) (answer_rows orgId s rq) v)"
| "log_step orgId (Broken e) v = (case lv_loading v of
     None \<Rightarrow> v
   | Some rq \<Rightarrow> v\<lparr>lv_error := e, lv_loading := None\<rparr>)"

fun run_log :: "id \<Rightarrow> log_event list \<Rightarrow> log_view \<Rightarrow> log_view" where
  "run_log orgId [] v = v"
| "run_log orgId (e # es) v = run_log orgId es (log_step orgId e v)"

section \<open>The console\<close>

record console_entry =
  ce_id :: id
  ce_command :: string
  ce_output :: string
  ce_failed :: bool

definition console_attempts :: nat where "console_attempts = 30"

text \<open>\<open>failed ? result?.errorMessage : result?.output\<close>, then \<open>result?.output\<close>, then a default.\<close>

definition console_output :: "json \<Rightarrow> string" where
  "console_output r =
    (let result = run_result r; failed = (reported_status r = Some ''failed'');
         first = jget result (if failed then ''errorMessage'' else ''output''); second = jget result ''output''
     in if truthy first then js_string (the first)
        else if truthy second then js_string (the second)
        else if failed then ''Command failed'' else ''Command completed with no output.'')"

definition fill_entry :: "id \<Rightarrow> string \<Rightarrow> bool \<Rightarrow> console_entry list \<Rightarrow> console_entry list" where
  "fill_entry i output failed = map (\<lambda>row. if ce_id row = i then row\<lparr>ce_output := output, ce_failed := failed\<rparr> else row)"

text \<open>
  \<open>sendCommand\<close> when its job was queued (or not: \<open>Inl\<close>) and polled: the entries at the end.  A last answer
  that has not ended, or that is missing, is a timeout.  (The waiting text ends in an ellipsis in the source.)
\<close>

definition send_command ::
    "id \<Rightarrow> string \<Rightarrow> (string + id) \<Rightarrow> (nat \<Rightarrow> string + json) \<Rightarrow> console_entry list \<Rightarrow> console_entry list" where
  "send_command i command queued replies entries =
    (let waiting = entries @ [\<lparr>ce_id = i, ce_command = js_trim command, ce_output = ''Waiting for server response'', ce_failed = False\<rparr>]
     in if js_trim command = [] then entries
        else (case queued of
          Inl e \<Rightarrow> fill_entry i e True waiting
        | Inr run_id \<Rightarrow> (case poll_until job_over console_attempts replies 0 JNull of
            Inl e \<Rightarrow> fill_entry i e True waiting
          | Inr r \<Rightarrow> if \<not> job_over r then fill_entry i ''Console command timed out'' True waiting
              else fill_entry i (console_output r) (reported_status r = Some ''failed'') waiting)))"

section \<open>Lemmas\<close>

text \<open>The endpoint answers rows of the server it is asked for, each once, and no more than the limit.\<close>

lemma insert_log_length [simp]: "length (insert_log x ys) = Suc (length ys)"
  by (induction ys) auto

lemma insert_log_distinct: "distinct (map log_id (insert_log x ys)) \<longleftrightarrow> log_id x \<notin> log_id ` set ys \<and> distinct (map log_id ys)"
proof (induction ys)
  case (Cons y ys)
  have "set (insert_log x ys) = insert x (set ys)" by (induction ys) auto
  with Cons show ?case by auto
qed simp

lemma sorted_logs_distinct: "distinct (map log_id xs) \<Longrightarrow> distinct (map log_id (foldr insert_log xs []))"
  by (induction xs) (auto simp: insert_log_distinct sort_logs)

lemma answer_rows_ok:
  assumes "distinct (map log_id (t_serverLogs s))"
  shows "distinct (map log_id (answer_rows orgId s rq))" and "length (answer_rows orgId s rq) \<le> 300"
    and "lp_server rq \<noteq> [] \<Longrightarrow> row \<in> set (answer_rows orgId s rq) \<Longrightarrow> log_serverInstanceId row = lp_server rq"
proof -
  define rows where "rows = filter (visible_log orgId (Some (lp_server rq))) (t_serverLogs s)"
  define n where "n = page_size 250 1000 (Some (if lp_initial rq then 300 else 200))"
  have n: "n \<le> 300" by (simp add: n_def page_size_def)
  have d: "distinct (map log_id rows)" using assms unfolding rows_def by (rule distinct_map_filter)
  have newest: "distinct (map log_id (drop k rows))" for k using d by (simp add: drop_map [symmetric])
  define page :: "server_log \<Rightarrow> server_log list" where "page c = take n (foldr insert_log (filter (\<lambda>l. log_createdAt c \<le> log_createdAt l \<and> log_id l \<noteq> log_id c) rows) [])" for c
  have later: "distinct (map log_id (page c))" for c
    using sorted_logs_distinct [OF distinct_map_filter [OF d]] unfolding page_def by (simp add: take_map [symmetric])
  have cases: "answer_rows orgId s rq = drop (length rows - n) rows \<or> (\<exists>c. answer_rows orgId s rq = page c)"
  proof (cases "Option.bind (non_blank (lp_after rq)) (\<lambda>i. List.find (\<lambda>l. log_id l = i) rows)")
    case None
    then have "answer_rows orgId s rq = drop (length rows - n) rows"
      unfolding answer_rows_def list_logs_def Let_def rows_def [symmetric] n_def [symmetric]
      by (auto simp: bind_eq_None_conv split: option.split)
    then show ?thesis ..
  next
    case (Some c)
    then obtain i where i: "non_blank (lp_after rq) = Some i" "List.find (\<lambda>l. log_id l = i) rows = Some c"
      by (auto simp: bind_eq_Some_conv)
    moreover have "log_id c = i" using find_SomeD [OF i(2)] by simp
    ultimately have "answer_rows orgId s rq = page c"
      unfolding answer_rows_def list_logs_def Let_def rows_def [symmetric] n_def [symmetric] page_def by simp
    then show ?thesis by blast
  qed
  show "distinct (map log_id (answer_rows orgId s rq))" using cases newest later by auto
  show "length (answer_rows orgId s rq) \<le> 300" using cases n by (auto simp: page_def)
  show "log_serverInstanceId row = lp_server rq" if "lp_server rq \<noteq> []" "row \<in> set (answer_rows orgId s rq)"
  proof -
    have "row \<in> set rows"
      using cases that(2) by (auto simp: page_def sort_logs dest!: in_set_dropD in_set_takeD)
    with that(1) show ?thesis by (simp add: rows_def visible_log_def non_blank_def)
  qed
qed

lemma add_rows_ok:
  assumes "distinct (map log_id current)" and "distinct (map log_id rows)"
  shows "distinct (map log_id (add_rows current rows)) \<and> length (add_rows current rows) \<le> 500 \<and>
    set (add_rows current rows) \<subseteq> set current \<union> set rows"
proof -
  let ?all = "current @ filter (\<lambda>row. log_id row \<notin> log_id ` set current) rows"
  have "distinct (map log_id (filter (\<lambda>row. log_id row \<notin> log_id ` set current) rows))"
    using assms(2) by (rule distinct_map_filter)
  with assms(1) have "distinct (map log_id ?all)" by (auto simp: image_iff)
  then have "distinct (map log_id (last_n 500 ?all))"
    unfolding last_n_def drop_map [symmetric] by (rule distinct_drop)
  then show ?thesis using set_last_n [of 500 ?all] by (auto simp: add_rows_def)
qed

text \<open>The list of the page, and its request under way, belong to the selected server.\<close>

definition log_view_inv :: "log_view \<Rightarrow> bool" where
  "log_view_inv v \<longleftrightarrow> distinct (map log_id (lv_logs v)) \<and> length (lv_logs v) \<le> 500 \<and>
     (\<forall>row \<in> set (lv_logs v). log_serverInstanceId row = lv_serverId v) \<and>
     (\<forall>rq. lv_loading v = Some rq \<longrightarrow> lp_server rq = lv_serverId v \<and> lp_server rq \<noteq> [])"

definition sound_answer :: "log_event \<Rightarrow> bool" where
  "sound_answer e = (case e of Answered s \<Rightarrow> distinct (map log_id (t_serverLogs s)) | _ \<Rightarrow> True)"

text \<open>No other server is selected while a request is under way.\<close>

fun calm :: "id \<Rightarrow> log_event list \<Rightarrow> log_view \<Rightarrow> bool" where
  "calm orgId [] v \<longleftrightarrow> True"
| "calm orgId (e # es) v \<longleftrightarrow> (case e of SelectServer sid \<Rightarrow> lv_loading v = None \<or> sid = lv_serverId v | _ \<Rightarrow> True) \<and>
     calm orgId es (log_step orgId e v)"

lemma start_load_inv: "log_view_inv v \<Longrightarrow> log_view_inv (start_load initial v)"
  by (auto simp: log_view_inv_def start_load_def)

lemma finish_load_inv:
  assumes "log_view_inv v" and "lv_loading v = Some rq" and "distinct (map log_id (t_serverLogs s))"
  shows "log_view_inv (finish_load (lp_initial rq) (answer_rows orgId s rq) v)"
proof -
  let ?rows = "answer_rows orgId s rq"
  have rq: "lp_server rq = lv_serverId v" "lp_server rq \<noteq> []" using assms(1,2) by (auto simp: log_view_inv_def)
  have own: "\<forall>row \<in> set ?rows. log_serverInstanceId row = lv_serverId v"
    using answer_rows_ok(3) [OF assms(3) rq(2)] rq(1) by simp
  note d = answer_rows_ok(1) [OF assms(3), of orgId rq] and l = answer_rows_ok(2) [OF assms(3), of orgId rq]
  have v: "distinct (map log_id (lv_logs v))" "\<forall>row \<in> set (lv_logs v). log_serverInstanceId row = lv_serverId v"
      "length (lv_logs v) \<le> 500"
    using assms(1) by (simp_all add: log_view_inv_def)
  from add_rows_ok [OF v(1) d] own v(2)
  have "\<forall>row \<in> set (add_rows (lv_logs v) ?rows). log_serverInstanceId row = lv_serverId v" by blast
  with add_rows_ok [OF v(1) d] own d l v show ?thesis
    by (simp add: finish_load_def log_view_inv_def)
qed

lemma log_step_inv:
  assumes "log_view_inv v" and "sound_answer e" and "calm orgId [e] v"
  shows "log_view_inv (log_step orgId e v)"
proof (cases e)
  case (SelectServer sid)
  show ?thesis
  proof (cases "sid = lv_serverId v")
    case False
    with assms(3) SelectServer have "log_view_inv (v\<lparr>lv_serverId := sid, lv_latestLogId := [], lv_logs := []\<rparr>)"
      by (simp add: log_view_inv_def)
    with False show ?thesis by (simp add: SelectServer start_load_inv)
  qed (simp add: SelectServer assms(1))
next
  case (Answered s)
  with assms show ?thesis by (auto simp: sound_answer_def intro: finish_load_inv split: option.split)
next
  case Tick
  then show ?thesis by (simp add: start_load_inv assms(1))
qed (use assms(1) in \<open>auto simp: log_view_inv_def split: option.split\<close>)

lemma calm_Cons: "calm orgId (e # es) v \<longleftrightarrow> calm orgId [e] v \<and> calm orgId es (log_step orgId e v)"
  by simp

lemma run_log_inv:
  "log_view_inv v \<Longrightarrow> \<forall>e \<in> set es. sound_answer e \<Longrightarrow> calm orgId es v \<Longrightarrow> log_view_inv (run_log orgId es v)"
proof (induction es arbitrary: v)
  case (Cons e es)
  from Cons.prems(3) have "calm orgId [e] v" "calm orgId es (log_step orgId e v)" unfolding calm_Cons [of orgId e es] by simp_all
  with Cons.IH log_step_inv [OF Cons.prems(1)] Cons.prems(2) show ?case by simp
qed simp

section \<open>Properties\<close>

text \<open>
  C25. The log page shows rows of the selected server only, each once and at most 500 of them, as long as
  the user does not select another server while a request is under way.  The condition is needed:
  the answer to the request for the old server is then added to the cleared list of the new one,
  whose own initial request was dropped because another one was running.
\<close>

theorem log_page_own_rows:
  assumes "\<forall>e \<in> set es. sound_answer e" and "a \<noteq> []" and "b \<noteq> []" and "a \<noteq> b"
  shows "(calm orgId es fresh_view \<longrightarrow>
      (\<forall>row \<in> set (lv_logs (run_log orgId es fresh_view)). log_serverInstanceId row = lv_serverId (run_log orgId es fresh_view)) \<and>
      distinct (map log_id (lv_logs (run_log orgId es fresh_view))) \<and> length (lv_logs (run_log orgId es fresh_view)) \<le> 500) \<and>
    (\<forall>s. let v = run_log orgId [SelectServer a, SelectServer b, Answered s] fresh_view
      in lv_serverId v = b \<and> lv_loading v = None \<and>
         lv_logs v = list_logs s orgId (Some a) (Some 300) None)"
proof
  have init: "log_view_inv fresh_view" by (simp add: log_view_inv_def fresh_view_def)
  let ?v = "run_log orgId es fresh_view"
  have "log_view_inv ?v" if "calm orgId es fresh_view" by (rule run_log_inv [OF init assms(1) that])
  then show "calm orgId es fresh_view \<longrightarrow> (\<forall>row \<in> set (lv_logs ?v). log_serverInstanceId row = lv_serverId ?v) \<and>
      distinct (map log_id (lv_logs ?v)) \<and> length (lv_logs ?v) \<le> 500"
    unfolding log_view_inv_def by blast
  show "\<forall>s. let v = run_log orgId [SelectServer a, SelectServer b, Answered s] fresh_view
      in lv_serverId v = b \<and> lv_loading v = None \<and> lv_logs v = list_logs s orgId (Some a) (Some 300) None"
    using assms(2-4) by (simp add: fresh_view_def start_load_def finish_load_def answer_rows_def Let_def)
qed

definition sample_log_store :: store where
  "sample_log_store = empty_store\<lparr>t_serverLogs := [\<lparr>log_id = ''1'', log_orgId = ''o'', log_serverInstanceId = ''a'', log_content = ''x'', log_createdAt = 5\<rparr>,
     \<lparr>log_id = ''2'', log_orgId = ''o'', log_serverInstanceId = ''b'', log_content = ''y'', log_createdAt = 6\<rparr>]\<rparr>"

theorem log_page_own_rows_witness:
  "lv_logs (run_log ''o'' [SelectServer ''a'', Answered sample_log_store] fresh_view) \<noteq> [] \<and>
   list_all (\<lambda>row. log_serverInstanceId row = ''a'') (lv_logs (run_log ''o'' [SelectServer ''a'', Answered sample_log_store] fresh_view))"
proof -
  let ?es = "[SelectServer ''a'', Answered sample_log_store]"
  have sound: "\<forall>e \<in> set ?es. sound_answer e" by (simp add: sound_answer_def sample_log_store_def)
  have calm: "calm ''o'' ?es fresh_view" by (simp add: fresh_view_def)
  have "\<forall>row \<in> set (lv_logs (run_log ''o'' ?es fresh_view)). log_serverInstanceId row = lv_serverId (run_log ''o'' ?es fresh_view)"
    by (rule log_page_own_rows [of ?es "''a''" "''b''" "''o''", OF sound, THEN conjunct1, THEN mp, OF _ _ _ calm, THEN conjunct1]) simp_all
  moreover have "lv_serverId (run_log ''o'' ?es fresh_view) = ''a''" "lv_logs (run_log ''o'' ?es fresh_view) \<noteq> []"
    by (simp_all add: fresh_view_def start_load_def finish_load_def answer_rows_def list_logs_def visible_log_def non_blank_def
        page_size_def sample_log_store_def Let_def)
  ultimately show ?thesis by (simp add: list_all_iff)
qed

text \<open>
  The entry of a command is filled exactly once the polling is over, whatever happens: it does not stay
  in the waiting state.
\<close>

theorem console_entry_filled:
  assumes "js_trim command \<noteq> []"
  shows "\<exists>output failed. send_command i command queued replies entries =
    fill_entry i output failed (entries @ [\<lparr>ce_id = i, ce_command = js_trim command, ce_output = ''Waiting for server response'', ce_failed = False\<rparr>])"
  using assms by (auto simp: send_command_def Let_def split: sum.split)

end
