(* ===== verification/TextDiff.thy ===== *)
theory TextDiff
  imports JsValues "HOL-Library.Sublist"
begin

text \<open>
  The line diff of the mod editor, \<open>makeDiff\<close> of \<open>web/src/app/(dashboard)/mods/page.tsx\<close>: a table of
  longest common subsequences, filled from the end in 32-bit cells, and the walk through it that
  lists kept, added and removed lines.
\<close>

datatype diff_kind = Same | Add | Remove

record diff_row =
  df_type :: diff_kind
  df_line :: nat
  df_text :: string

section \<open>The table\<close>

text \<open>A cell of a \<open>Uint32Array\<close>.\<close>

definition uint32 :: "nat \<Rightarrow> nat" where
  "uint32 n = n mod 2 ^ 32"

text \<open>
  Row \<open>i\<close> from row \<open>i + 1\<close> (\<open>below\<close>), for the line \<open>x\<close> of the first text, from the right: the last
  column is zero.
\<close>

fun table_row :: "string \<Rightarrow> string list \<Rightarrow> nat list \<Rightarrow> nat list" where
  "table_row x (y # ys) (d # e # below) =
     (let right = table_row x ys (e # below)
      in uint32 (if x = y then e + 1 else max d (hd right)) # right)"
| "table_row x ys below = [0]"

fun table :: "string list \<Rightarrow> string list \<Rightarrow> nat list list" where
  "table [] b = [replicate (length b + 1) 0]"
| "table (x # xs) b = (let t = table xs b in table_row x b (hd t) # t)"

section \<open>The walk\<close>

text \<open>\<open>i\<close> starts at zero and never passes the end of \<open>a\<close>, so \<open>i === a.length\<close> is the comparison below.\<close>

function walk :: "string list \<Rightarrow> string list \<Rightarrow> nat list list \<Rightarrow> nat \<Rightarrow> nat \<Rightarrow> diff_row list" where
  "walk a b matrix i j =
     (if i < length a \<or> j < length b
      then if i < length a \<and> j < length b \<and> a ! i = b ! j
           then \<lparr>df_type = Same, df_line = i + 1, df_text = a ! i\<rparr> # walk a b matrix (i + 1) (j + 1)
           else if j < length b \<and> (length a \<le> i \<or> matrix ! (i + 1) ! j \<le> matrix ! i ! (j + 1))
           then \<lparr>df_type = Add, df_line = j + 1, df_text = b ! j\<rparr> # walk a b matrix i (j + 1)
           else \<lparr>df_type = Remove, df_line = i + 1, df_text = a ! i\<rparr> # walk a b matrix (i + 1) j
      else [])"
  by pat_completeness auto
termination by (relation "measure (\<lambda>(a, b, m, i, j). (length a - i) + (length b - j))") auto

declare walk.simps [simp del]

definition large_notice :: "diff_row list" where
  "large_notice = [\<lparr>df_type = Remove, df_line = 1, df_text = ''Large file: original content replaced. Compare editor content carefully.''\<rparr>,
     \<lparr>df_type = Add, df_line = 1, df_text = ''Large file: proposed content appears in editor below.''\<rparr>]"

definition text_lines :: "string \<Rightarrow> string list" where
  "text_lines s = js_split CHR 0x0A s"

definition make_diff :: "string \<Rightarrow> string \<Rightarrow> diff_row list" where
  "make_diff before after =
    (let a = text_lines before; b = text_lines after
     in if 250000 < length a * length b then large_notice else walk a b (table a b) 0 0)"

text \<open>The number of changed lines the review shows.\<close>

definition changed_lines :: "diff_row list \<Rightarrow> nat" where
  "changed_lines rows = length (filter (\<lambda>r. df_type r \<noteq> Same) rows)"

section \<open>Longest common subsequences\<close>

fun lcs :: "string list \<Rightarrow> string list \<Rightarrow> nat" where
  "lcs [] b = 0"
| "lcs a [] = 0"
| "lcs (x # xs) (y # ys) = (if x = y then Suc (lcs xs ys) else max (lcs xs (y # ys)) (lcs (x # xs) ys))"

lemma lcs_Nil2 [simp]: "lcs a [] = 0"
  by (cases a) simp_all

lemma lcs_le: "lcs a b \<le> length a" "lcs a b \<le> length b"
  by (induction a b rule: lcs.induct) auto

lemma lcs_upper: "subseq c a \<Longrightarrow> subseq c b \<Longrightarrow> length c \<le> lcs a b"
proof (induction a b arbitrary: c rule: lcs.induct)
  case (3 x xs y ys)
  show ?case
  proof (cases c)
    case Nil
    then show ?thesis by simp
  next
    case (Cons z cs)
    show ?thesis
    proof (cases "x = y")
      case True
      show ?thesis
      proof (cases "z = x")
        case eq: True
        with Cons True 3(4,5) have "subseq cs xs" "subseq cs ys" by simp_all
        with 3(1) [OF True] Cons True show ?thesis by simp
      next
        case False
        with Cons True 3(4,5) have "subseq c xs" "subseq c ys" by simp_all
        with 3(1) [OF True] True show ?thesis by fastforce
      qed
    next
      case False
      show ?thesis
      proof (cases "z = x")
        case True
        with Cons False 3(5) have "subseq c ys" by simp
        with 3(3) [OF False 3(4)] False show ?thesis by fastforce
      next
        case neq: False
        with Cons 3(4) have "subseq c xs" by simp
        with 3(2) [OF False _ 3(5)] False show ?thesis by fastforce
      qed
    qed
  qed
qed auto

section \<open>The table holds them\<close>

definition row_of :: "string list \<Rightarrow> string list \<Rightarrow> nat list" where
  "row_of a b = map (\<lambda>j. lcs a (drop j b)) [0..<length b + 1]"

lemma upt_zero_Suc: "[0..<Suc n] = 0 # map Suc [0..<n]"
  by (simp add: map_Suc_upt upt_conv_Cons del: upt_Suc)

lemma row_of_Cons: "row_of a (y # ys) = lcs a (y # ys) # row_of a ys"
  by (simp add: row_of_def upt_zero_Suc [of "Suc (length ys)"] comp_def del: upt_Suc)

lemma row_of_Nil: "row_of a [] = [0]"
  by (simp add: row_of_def)

lemma row_of_empty: "row_of [] b = replicate (length b + 1) 0"
  by (simp add: row_of_def map_replicate_const del: upt_Suc)

lemma table_row_lcs:
  "length b < 2 ^ 32 \<Longrightarrow> table_row x b (row_of xs b) = row_of (x # xs) b"
proof (induction b)
  case Nil
  show ?case by (simp add: row_of_Nil)
next
  case (Cons y ys)
  obtain e below where e: "row_of xs ys = e # below" "e = lcs xs ys"
    by (cases ys) (auto simp: row_of_Nil row_of_Cons)
  have "lcs (x # xs) (y # ys) < 2 ^ 32"
    using lcs_le(2) [of "x # xs" "y # ys"] Cons(2) by simp
  moreover have "hd (row_of (x # xs) ys) = lcs (x # xs) ys"
    by (cases ys) (simp_all add: row_of_Nil row_of_Cons)
  ultimately show ?case
    using Cons e by (auto simp: row_of_Cons uint32_def Let_def simp del: lcs.simps(3)) (simp_all add: lcs.simps(3))
qed

lemma table_lcs: "length b < 2 ^ 32 \<Longrightarrow> table a b = map (\<lambda>i. row_of (drop i a) b) [0..<length a + 1]"
proof (induction a)
  case Nil
  show ?case by (simp add: row_of_empty)
next
  case (Cons x xs)
  have upt: "[0..<length (x # xs) + 1] = 0 # map Suc [0..<length xs + 1]" by (simp add: upt_zero_Suc del: upt_Suc)
  have "hd (table xs b) = row_of xs b" using Cons by (simp add: upt_conv_Cons del: upt_Suc)
  then show ?case using Cons table_row_lcs [of b x xs] unfolding upt by (simp add: Let_def comp_def del: upt_Suc)
qed

lemma table_cell:
  "length b < 2 ^ 32 \<Longrightarrow> i \<le> length a \<Longrightarrow> j \<le> length b \<Longrightarrow> table a b ! i ! j = lcs (drop i a) (drop j b)"
  by (simp add: table_lcs row_of_def del: upt_Suc)

section \<open>What the walk lists\<close>

definition kept :: "diff_row list \<Rightarrow> string list" where
  "kept rows = map df_text (filter (\<lambda>r. df_type r = Same) rows)"

definition old_rows :: "diff_row list \<Rightarrow> diff_row list" where
  "old_rows rows = filter (\<lambda>r. df_type r \<noteq> Add) rows"

definition new_rows :: "diff_row list \<Rightarrow> diff_row list" where
  "new_rows rows = filter (\<lambda>r. df_type r \<noteq> Remove) rows"

lemma walk_steps:
  "i < length a \<Longrightarrow> j < length b \<Longrightarrow> a ! i = b ! j \<Longrightarrow>
    walk a b m i j = \<lparr>df_type = Same, df_line = i + 1, df_text = a ! i\<rparr> # walk a b m (i + 1) (j + 1)"
  "j < length b \<Longrightarrow> \<not> (i < length a \<and> a ! i = b ! j) \<Longrightarrow> length a \<le> i \<or> m ! (i + 1) ! j \<le> m ! i ! (j + 1) \<Longrightarrow>
    walk a b m i j = \<lparr>df_type = Add, df_line = j + 1, df_text = b ! j\<rparr> # walk a b m i (j + 1)"
  "i < length a \<Longrightarrow> \<not> (j < length b \<and> a ! i = b ! j) \<Longrightarrow> \<not> (j < length b \<and> m ! (i + 1) ! j \<le> m ! i ! (j + 1)) \<Longrightarrow>
    walk a b m i j = \<lparr>df_type = Remove, df_line = i + 1, df_text = a ! i\<rparr> # walk a b m (i + 1) j"
  "length a \<le> i \<Longrightarrow> length b \<le> j \<Longrightarrow> walk a b m i j = []"
  by (subst walk.simps; auto)+

lemma walk_split:
  obtains A B E | B "\<not> (A \<and> E)" "\<not> A \<or> L" | A "\<not> (B \<and> E)" "\<not> (B \<and> L)" | "\<not> A" "\<not> B"
  by blast

text \<open>Induction along the walk.\<close>

lemma walk_induct [case_names same add remove stop]:
  assumes "\<And>i j. i < length a \<Longrightarrow> j < length b \<Longrightarrow> a ! i = b ! j \<Longrightarrow> P (i + 1) (j + 1) \<Longrightarrow> P i j"
    and "\<And>i j. j < length b \<Longrightarrow> \<not> (i < length a \<and> a ! i = b ! j) \<Longrightarrow>
      length a \<le> i \<or> m ! (i + 1) ! j \<le> m ! i ! (j + 1) \<Longrightarrow> P i (j + 1) \<Longrightarrow> P i j"
    and "\<And>i j. i < length a \<Longrightarrow> \<not> (j < length b \<and> a ! i = b ! j) \<Longrightarrow>
      \<not> (j < length b \<and> m ! (i + 1) ! j \<le> m ! i ! (j + 1)) \<Longrightarrow> P (i + 1) j \<Longrightarrow> P i j"
    and "\<And>i j. length a \<le> i \<Longrightarrow> length b \<le> j \<Longrightarrow> P i j"
  shows "P i j"
proof (induction "(length a - i) + (length b - j)" arbitrary: i j rule: less_induct)
  case less
  show ?case
  proof (rule walk_split [where A = "i < length a" and B = "j < length b" and E = "a ! i = b ! j" and L = "m ! (i + 1) ! j \<le> m ! i ! (j + 1)"])
    assume h: "i < length a" "j < length b" "a ! i = b ! j"
    then have "P (i + 1) (j + 1)" by (intro less) simp
    with h show ?thesis by (rule assms(1))
  next
    assume h: "j < length b" "\<not> (i < length a \<and> a ! i = b ! j)" "\<not> i < length a \<or> m ! (i + 1) ! j \<le> m ! i ! (j + 1)"
    then have "P i (j + 1)" by (intro less) simp
    with h show ?thesis unfolding not_less by (rule assms(2))
  next
    assume h: "i < length a" "\<not> (j < length b \<and> a ! i = b ! j)" "\<not> (j < length b \<and> m ! (i + 1) ! j \<le> m ! i ! (j + 1))"
    then have "P (i + 1) j" by (intro less) simp
    with h show ?thesis by (rule assms(3))
  next
    assume "\<not> i < length a" "\<not> j < length b"
    then show ?thesis unfolding not_less by (rule assms(4))
  qed
qed

lemma drop_nth: "i < length xs \<Longrightarrow> drop i xs = xs ! i # drop (i + 1) xs"
  by (simp add: Cons_nth_drop_Suc)

lemma walk_old: "map df_text (old_rows (walk a b m i j)) = drop i a"
proof (induction i j rule: walk_induct [where a = a and b = b and m = m])
  case (same i j)
  from walk_steps(1) [OF same(1-3), of m] same show ?case by (simp add: drop_nth [of i a] old_rows_def)
next
  case (add i j)
  from walk_steps(2) [OF add(1-3)] add show ?case by (simp add: old_rows_def)
next
  case (remove i j)
  from walk_steps(3) [OF remove(1-3)] remove show ?case by (simp add: drop_nth [of i a] old_rows_def)
next
  case (stop i j)
  then show ?case by (simp add: walk_steps(4) old_rows_def)
qed

lemma walk_new: "map df_text (new_rows (walk a b m i j)) = drop j b"
proof (induction i j rule: walk_induct [where a = a and b = b and m = m])
  case (same i j)
  from walk_steps(1) [OF same(1-3), of m] same show ?case by (simp add: drop_nth [of j b] new_rows_def)
next
  case (add i j)
  from walk_steps(2) [OF add(1-3)] add show ?case by (simp add: drop_nth [of j b] new_rows_def)
next
  case (remove i j)
  from walk_steps(3) [OF remove(1-3)] remove show ?case by (simp add: new_rows_def)
next
  case (stop i j)
  then show ?case by (simp add: walk_steps(4) new_rows_def)
qed

lemma walk_old_lines: "i \<le> length a \<Longrightarrow> map df_line (old_rows (walk a b m i j)) = [i + 1..<length a + 1]"
proof (induction i j rule: walk_induct [where a = a and b = b and m = m])
  case (same i j)
  from walk_steps(1) [OF same(1-3), of m] same show ?case by (simp add: old_rows_def upt_conv_Cons del: upt_Suc)
next
  case (add i j)
  from walk_steps(2) [OF add(1-3)] add show ?case by (simp add: old_rows_def)
next
  case (remove i j)
  from walk_steps(3) [OF remove(1-3)] remove show ?case by (simp add: old_rows_def upt_conv_Cons del: upt_Suc)
next
  case (stop i j)
  then show ?case by (simp add: walk_steps(4) old_rows_def)
qed

lemma lcs_neq: "x \<noteq> y \<Longrightarrow> lcs (x # xs) (y # ys) = max (lcs xs (y # ys)) (lcs (x # xs) ys)"
  by simp

lemma walk_kept:
  assumes m: "\<And>i j. i \<le> length a \<Longrightarrow> j \<le> length b \<Longrightarrow> m ! i ! j = lcs (drop i a) (drop j b)"
  shows "i \<le> length a \<Longrightarrow> j \<le> length b \<Longrightarrow> length (kept (walk a b m i j)) = lcs (drop i a) (drop j b)"
proof (induction i j rule: walk_induct [where a = a and b = b and m = m])
  case (same i j)
  from walk_steps(1) [OF same(1-3), of m] same show ?case by (simp add: drop_nth [of i a] drop_nth [of j b] kept_def)
next
  case (add i j)
  have "lcs (drop i a) (drop j b) = lcs (drop i a) (drop (j + 1) b)"
  proof (cases "i < length a")
    case True
    with add have "a ! i \<noteq> b ! j" "lcs (drop (i + 1) a) (drop j b) \<le> lcs (drop i a) (drop (j + 1) b)"
      using m [of "i + 1" j] m [of i "j + 1"] by auto
    with True add(1) show ?thesis by (simp add: drop_nth [of i a] drop_nth [of j b])
  qed simp
  with walk_steps(2) [OF add(1-3)] add show ?case by (simp add: kept_def)
next
  case (remove i j)
  have "lcs (drop i a) (drop j b) = lcs (drop (i + 1) a) (drop j b)"
  proof (cases "j < length b")
    case True
    with remove have "a ! i \<noteq> b ! j" "lcs (drop i a) (drop (j + 1) b) \<le> lcs (drop (i + 1) a) (drop j b)"
      using m [of "i + 1" j] m [of i "j + 1"] by auto
    with True remove(1) show ?thesis by (simp add: drop_nth [of i a] drop_nth [of j b])
  qed simp
  with walk_steps(3) [OF remove(1-3)] remove show ?case by (simp add: kept_def)
next
  case (stop i j)
  then show ?case by (simp add: walk_steps(4) kept_def)
qed

section \<open>The review\<close>

lemma join_split: "join_with [c] (js_split c s) = s"
proof (induction s)
  case (Cons x s)
  obtain p ps where p: "js_split c s = p # ps" by (cases "js_split c s") auto
  show ?case
  proof (cases "x = c")
    case True
    with Cons p show ?thesis by simp
  next
    case False
    with Cons p show ?thesis by (cases ps) auto
  qed
qed simp

lemma old_new_count:
  "length (old_rows rows) + length (new_rows rows) = changed_lines rows + 2 * length (kept rows)"
proof (induction rows)
  case (Cons r rows)
  then show ?case by (cases "df_type r") (simp_all add: old_rows_def new_rows_def changed_lines_def kept_def)
qed (simp add: old_rows_def new_rows_def changed_lines_def kept_def)

lemma kept_subseq: "subseq (kept rows) (map df_text (old_rows rows))" "subseq (kept rows) (map df_text (new_rows rows))"
proof -
  have "filter (\<lambda>r. df_type r = Same) rows = filter (\<lambda>r. df_type r = Same) (old_rows rows)"
    "filter (\<lambda>r. df_type r = Same) rows = filter (\<lambda>r. df_type r = Same) (new_rows rows)"
    by (auto simp: old_rows_def new_rows_def intro: filter_cong)
  then show "subseq (kept rows) (map df_text (old_rows rows))" "subseq (kept rows) (map df_text (new_rows rows))"
    unfolding kept_def by (metis subseq_filter_left subseq_map)+
qed

lemma small_diff:
  assumes "length (text_lines before) * length (text_lines after) \<le> 250000"
  shows "make_diff before after = walk (text_lines before) (text_lines after) (table (text_lines before) (text_lines after)) 0 0"
    and "length (text_lines after) < 2 ^ 32"
proof -
  have "1 \<le> length (text_lines before)" by (simp add: text_lines_def Suc_le_eq)
  from mult_le_mono1 [OF this, of "length (text_lines after)"] assms
  have "length (text_lines after) \<le> 250000" by linarith
  then show "length (text_lines after) < 2 ^ 32" by simp
qed (use assms in \<open>simp add: make_diff_def Let_def\<close>)

section \<open>Properties\<close>



end
