(* ===== verification/ModEditor.thy ===== *)
theory ModEditor
  imports TextDiff
begin

text \<open>
  The editor of mod configurations in \<open>web/src/app/(dashboard)/mods/page.tsx\<close>: the state behind the
  controls, the events a user or a request can cause while their control is shown and enabled, and
  the promise of the page that edits of the AI agent are saved only after their review.
\<close>

section \<open>The state and its events\<close>

datatype editor_op = Idle | Asking | Saving | Reading

text \<open>
  \<open>ed_op\<close> tells which request is under way (\<open>editorBusy\<close>), \<open>ed_saved\<close> which contents were posted as
  \<open>MOD_CONFIG_WRITE\<close>.  \<open>ed_unreviewed\<close> is a ghost: the content stems from a proposal that nobody has
  approved.
\<close>

record editor =
  ed_content :: string
  ed_original :: string
  ed_summary :: string
  ed_approved :: bool
  ed_showDiff :: bool
  ed_op :: editor_op
  ed_saved :: "string list"
  ed_unreviewed :: bool

record proposal =
  pr_updatedContent :: string
  pr_summary :: string
  pr_agent :: string
  pr_model :: string

datatype editor_event =
    Edit string
  | Ask string
  | Answer "string + proposal"
  | ToggleDiff
  | Approve
  | Reject
  | Discard
  | Save
  | SaveDone bool
  | ReadFile
  | ReadDone "string option"

definition summary_text :: "proposal \<Rightarrow> string" where
  "summary_text p = pr_summary p @ '' ('' @ pr_agent p @ '' '' @ [CHR 0xB7] @ '' '' @ pr_model p @ '')''"

definition save_enabled :: "editor \<Rightarrow> bool" where
  "save_enabled e \<longleftrightarrow> ed_op e = Idle \<and> ed_content e \<noteq> ed_original e \<and> \<not> (ed_summary e \<noteq> [] \<and> \<not> ed_approved e)"

text \<open>The two buttons under an open review.\<close>

definition review_shown :: "editor \<Rightarrow> bool" where
  "review_shown e \<longleftrightarrow> ed_summary e \<noteq> [] \<and> ed_showDiff e \<and> \<not> ed_approved e"

text \<open>None where the control of the event is hidden or disabled, or no such request is under way.\<close>

fun editor_step :: "editor_event \<Rightarrow> editor \<Rightarrow> editor option" where
  "editor_step (Edit s) e = (if ed_op e \<noteq> Idle then None
     else Some (e\<lparr>ed_content := s, ed_approved := (if ed_summary e \<noteq> [] then False else ed_approved e)\<rparr>))"
| "editor_step (Ask request) e = (if ed_op e \<noteq> Idle \<or> js_trim request = [] then None
     else Some (e\<lparr>ed_op := Asking, ed_summary := [], ed_approved := False\<rparr>))"
| "editor_step (Answer r) e = (if ed_op e \<noteq> Asking then None
     else (case r of
         Inl msg \<Rightarrow> Some (e\<lparr>ed_op := Idle\<rparr>)
       | Inr p \<Rightarrow> Some (e\<lparr>ed_op := Idle, ed_content := pr_updatedContent p, ed_summary := summary_text p,
           ed_showDiff := True, ed_unreviewed := True\<rparr>)))"
| "editor_step ToggleDiff e = (if ed_summary e = [] then None else Some (e\<lparr>ed_showDiff := \<not> ed_showDiff e\<rparr>))"
| "editor_step Approve e = (if \<not> review_shown e then None
     else Some (e\<lparr>ed_approved := True, ed_showDiff := False, ed_unreviewed := False\<rparr>))"
| "editor_step Reject e = (if \<not> review_shown e then None
     else Some (e\<lparr>ed_content := ed_original e, ed_summary := [], ed_showDiff := False, ed_unreviewed := False\<rparr>))"
| "editor_step Discard e = (if ed_op e \<noteq> Idle \<or> ed_content e = ed_original e then None
     else Some (e\<lparr>ed_content := ed_original e, ed_summary := [], ed_approved := False, ed_showDiff := False,
       ed_unreviewed := False\<rparr>))"
| "editor_step Save e = (if \<not> save_enabled e then None
     else Some (e\<lparr>ed_op := Saving, ed_saved := ed_saved e @ [ed_content e]\<rparr>))"
| "editor_step (SaveDone ok) e = (if ed_op e \<noteq> Saving then None
     else Some (if ok then e\<lparr>ed_op := Idle, ed_original := ed_content e\<rparr> else e\<lparr>ed_op := Idle\<rparr>))"
| "editor_step ReadFile e = (if ed_op e \<noteq> Idle then None else Some (e\<lparr>ed_op := Reading\<rparr>))"
| "editor_step (ReadDone r) e = (if ed_op e \<noteq> Reading then None
     else (case r of
         None \<Rightarrow> Some (e\<lparr>ed_op := Idle\<rparr>)
       | Some c \<Rightarrow> Some (e\<lparr>ed_op := Idle, ed_content := c, ed_original := c, ed_unreviewed := False\<rparr>)))"

fun run_editor :: "editor_event list \<Rightarrow> editor \<Rightarrow> editor option" where
  "run_editor [] e = Some e"
| "run_editor (ev # evs) e = (case editor_step ev e of None \<Rightarrow> None | Some e' \<Rightarrow> run_editor evs e')"

text \<open>The editor after its file was read for the first time.\<close>

definition opened :: "string \<Rightarrow> editor" where
  "opened content = \<lparr>ed_content = content, ed_original = content, ed_summary = [], ed_approved = False, ed_showDiff = False,
     ed_op = Idle, ed_saved = [], ed_unreviewed = False\<rparr>"

section \<open>The invariant\<close>

text \<open>
  While an unreviewed proposal is in the text area, either its summary demands the approval, or a new
  request is under way.  A request starts with no summary and nothing approved.
\<close>

definition review_inv :: "editor \<Rightarrow> bool" where
  "review_inv e \<longleftrightarrow> (ed_op e = Asking \<longrightarrow> ed_summary e = [] \<and> \<not> ed_approved e) \<and>
     (ed_unreviewed e \<longrightarrow> ed_op e = Asking \<or> ed_summary e \<noteq> [] \<and> \<not> ed_approved e)"

definition failed_ask :: "editor_event \<Rightarrow> bool" where
  "failed_ask ev \<longleftrightarrow> (\<exists>msg. ev = Answer (Inl msg))"

lemma summary_text_nonempty [simp]: "summary_text p \<noteq> []"
  by (simp add: summary_text_def)

lemma review_inv_step: "editor_step ev e = Some e' \<Longrightarrow> \<not> failed_ask ev \<Longrightarrow> review_inv e \<Longrightarrow> review_inv e'"
  by (cases ev) (auto simp: review_inv_def failed_ask_def review_shown_def save_enabled_def split: if_splits sum.splits option.splits)

lemma review_inv_run: "run_editor evs e = Some e' \<Longrightarrow> \<forall>ev \<in> set evs. \<not> failed_ask ev \<Longrightarrow> review_inv e \<Longrightarrow> review_inv e'"
  by (induction evs arbitrary: e) (auto split: option.splits dest: review_inv_step)

lemma run_editor_append: "run_editor (xs @ ys) e = (case run_editor xs e of None \<Rightarrow> None | Some e' \<Rightarrow> run_editor ys e')"
  by (induction xs arbitrary: e) (auto split: option.splits)

lemma review_inv_save: "review_inv e \<Longrightarrow> save_enabled e \<Longrightarrow> \<not> ed_unreviewed e"
  by (auto simp: review_inv_def save_enabled_def)

section \<open>Properties\<close>

text \<open>
  C23. Edits of the agent are saved only after their review, as long as no request to the agent fails:
  whatever the user does, when the save is possible the content is not an unapproved proposal.
  The condition is needed.  A second request clears the summary of the first proposal before
  it is answered; when it fails, the first proposal is still in the text area, nothing asks for its
  approval any more, and it can be saved.
\<close>

theorem review_before_save:
  assumes "run_editor evs (opened content) = Some e" and "editor_step Save e = Some e'"
  shows "((\<forall>ev \<in> set evs. \<not> failed_ask ev) \<longrightarrow> \<not> ed_unreviewed e) \<and>
    (\<forall>p. pr_updatedContent p \<noteq> content \<longrightarrow>
      (\<exists>x. run_editor [Ask ''change'', Answer (Inr p), Ask ''again'', Answer (Inl ''HTTP 502''), Save] (opened content) = Some x \<and>
        ed_saved x = [pr_updatedContent p] \<and> ed_unreviewed x))"
proof
  have "review_inv (opened content)" by (simp add: review_inv_def opened_def)
  with review_inv_run [OF assms(1)] review_inv_save assms(2)
  show "(\<forall>ev \<in> set evs. \<not> failed_ask ev) \<longrightarrow> \<not> ed_unreviewed e" by (auto split: if_splits)
  have "js_trim ''change'' \<noteq> []" "js_trim ''again'' \<noteq> []" by code_simp+
  then show "\<forall>p. pr_updatedContent p \<noteq> content \<longrightarrow>
      (\<exists>x. run_editor [Ask ''change'', Answer (Inr p), Ask ''again'', Answer (Inl ''HTTP 502''), Save] (opened content) = Some x \<and>
        ed_saved x = [pr_updatedContent p] \<and> ed_unreviewed x)"
    by (simp add: opened_def save_enabled_def)
qed

definition sample_proposal :: proposal where
  "sample_proposal = \<lparr>pr_updatedContent = ''b'', pr_summary = ''Doubled.'', pr_agent = ''Codex'', pr_model = ''m''\<rparr>"

theorem review_before_save_witness:
  "\<exists>e. run_editor [Ask ''x'', Answer (Inr sample_proposal), Approve] (opened ''a'') = Some e \<and> \<not> ed_unreviewed e"
proof -
  let ?evs = "[Ask ''x'', Answer (Inr sample_proposal), Approve]"
  have "case run_editor ?evs (opened ''a'') of None \<Rightarrow> False | Some e \<Rightarrow> editor_step Save e \<noteq> None" by code_simp
  then obtain e e' where e: "run_editor ?evs (opened ''a'') = Some e" "editor_step Save e = Some e'"
    by (auto split: option.splits)
  from review_before_save [OF this] have "\<not> ed_unreviewed e" by (simp add: failed_ask_def)
  with e(1) show ?thesis by blast
qed

end
