(* ===== verification/Spec2Isabelle.thy ===== *)
theory Spec2Isabelle
  imports Access Accounts JobReport JobChecks PlayersService Scheduler Inventory LogService Frigate ModAi WebGateway MapView LogPage ModEditor
begin

text \<open>
  A model of the Mastermind server manager for game servers of 7 Days to Die: the control plane
  (\<open>control-plane/src\<close>, NestJS) and those parts of the web server (\<open>web/src\<close>, Next.js) that compute.

  \<^bold>\<open>The program.\<close>  Users of an organisation register game servers on hosts.  An agent on each host
  exchanges a pairing token for a key, reports heartbeats, and polls the control plane for jobs.
  Users, schedules, batches, chat moderation, the relay to Discord and the connection protection
  all act by creating jobs: a row in the database and an entry in the organisation's Redis queue.  The
  agent takes an entry, starts the run and reports its result; the results of player listings and
  the uploaded log chunks update players, play sessions, the chat transcript and alerts.  The web
  server hands the browser's session on to the control plane, serves the live map from the game's
  files, and proxies the profile editor.

  \<^bold>\<open>Conventions.\<close>  One theory per component, in the order of the imports.  A definition has the name of
  its source where that is free.  The database with the queues is one record, \<open>store\<close> (\<open>Schema\<close>): a list of
  rows per table of \<open>control-plane/prisma/schema.prisma\<close> in insertion order.  A service's own memory (its
  \<open>Map\<close>s) is a further argument and result.  A handler is a function of the state that returns the new
  one; an exception is \<open>Inl\<close> of an \<open>exn\<close> of \<open>Prelude\<close>.  Where a handler yields between a check and
  the write that depends on it, check and write are separate definitions (\<open>pair_check\<close>, \<open>pair_commit\<close>;
  \<open>delete_account_check\<close>, \<open>delete_account_commit\<close>), so that interleavings can be stated.  The clock and
  every generated value (row ids, tokens) are arguments.  Integers are \<open>int\<close>: the sources count
  far below \<open>2 ^ 53\<close>; the one typed array (the diff's table) wraps at 32 bits.  Texts are lists of
  Latin-1 characters.  Time values are milliseconds, the process runs in UTC.

  \<^bold>\<open>Shared theories.\<close>
  \<^item> \<open>Prelude\<close>, \<open>JsValues\<close>, \<open>Calendar\<close>: exceptions, JSON, JavaScript's strings, numbers and dates, and the table
    operations with the lemmas (\<open>table_simps\<close>) every component uses.
  \<^item> \<open>Regex\<close>: a backtracking matcher for the sources' regular expressions, proved sound and complete
    against the relation \<open>consumes\<close> (\<open>run_iff\<close>); \<open>spells\<close> gives the language of an expression.
  \<^item> \<open>OneShot\<close> (locale \<open>one_shot\<close>): a credential that is consumed is consumed once.  Interpreted in \<open>Pairing\<close>.
  \<^item> \<open>Throttle\<close> (locale \<open>throttle\<close>): a memory that blocks a key for a while; clients get the spacing of what
    was let through.  Interpreted on the six hand-written throttles of \<open>Alerts\<close>, \<open>Chat\<close>, \<open>Hosts\<close>, \<open>LogStream\<close>,
    \<open>PlayersService\<close> and \<open>Protection\<close>.
  \<^item> \<open>JobSystem\<close> (locale \<open>player_sync\<close>): what the job service may assume of the player synchronisation it
    calls.  Interpreted in \<open>JobReport\<close> on \<open>reconcile_players\<close> followed by \<open>enforce\<close>.
  \<^item> \<open>Samples\<close>, \<open>SampleWorld\<close>: concrete providers and a small installation for the witnesses.

  \<^bold>\<open>Accounts and access.\<close>
  \<^item> \<open>Pairing\<close> (\<open>pairing/\<close>), \<open>Access\<close> (the four guards and the routing tables of the controllers), \<open>Auth\<close>
    (\<open>auth/auth.service.ts\<close>), \<open>Orgs\<close> and \<open>OpenAiKeys\<close> (\<open>orgs/\<close>), \<open>Accounts\<close> (all of them together).
    Shown: tokens and keys are single-use and revocable, who passes the guards of an organisation's
    endpoints, registration and login fit together, every organisation with members keeps an
    administrator (\<open>account_step\<close>), and the races for which that and the single use fail.

  \<^bold>\<open>Jobs.\<close>
  \<^item> \<open>Queue\<close> (\<open>jobs/jobs-queue.service.ts\<close>), \<open>Batches\<close> (\<open>batches/\<close>), \<open>Jobs\<close> (\<open>jobs/\<close>), \<open>JobSystem\<close> (the step relation \<open>job_step\<close>
    and its invariant), \<open>JobReport\<close> and \<open>JobChecks\<close> (properties).
    Shown: the counters of a batch refine the tally of its runs in every reachable state, what a
    poll hands out, what the creation of a job checks, what the sweep of stale runs breaks.
  \<^item> \<open>Cron\<close> (\<open>scheduler/cron-next.ts\<close> and the expressions the web pages build), \<open>Scheduler\<close>
    (\<open>scheduler/\<close>, with \<open>sched_step\<close>).
    Shown: the next run is the least match, enabled schedules stay armed, firings do not stack.
  \<^item> \<open>Hosts\<close> (\<open>hosts/\<close>, \<open>health-monitor/\<close>), \<open>ServerInstances\<close> (\<open>server-instances/\<close>, \<open>game-types/\<close>), \<open>Inventory\<close>
    (both, with \<open>inventory_step\<close>).
    Shown: servers stay on hosts of their organisation, discovery is idempotent, a job created for a
    server reaches the agent of its host.

  \<^bold>\<open>Players, logs, alerts.\<close>
  \<^item> \<open>Discord\<close> (\<open>discord/\<close>), \<open>Alerts\<close> (\<open>alerts/\<close>), \<open>Frigate\<close> (\<open>frigate/\<close>), \<open>ModAi\<close> (\<open>orgs/mod-ai.service.ts\<close>).
  \<^item> \<open>Players\<close>, \<open>PlayersService\<close>, \<open>Protection\<close> (\<open>players/\<close> and the player functions of \<open>jobs/jobs.service.ts\<close>).
    Shown: online players have exactly the open sessions, kicks are spaced and need their streak.
  \<^item> \<open>LogStream\<close>, \<open>Chat\<close>, \<open>LogPlayers\<close>, \<open>LogService\<close> (\<open>logs/\<close>).
    Shown: chunk borders change nothing, keywords are found exactly once, muting works, every upload
    keeps the players' books.

  \<^bold>\<open>The web server and the browser.\<close>
  \<^item> \<open>VisitMap\<close>, \<open>LiveMap\<close> (\<open>app/api/live-map\<close>), \<open>WebGateway\<close> (\<open>app/api/live-map-session\<close>,
    \<open>profile-editor-session\<close>, \<open>profile-editor-tool\<close>).
    Shown: the map route reads and fetches nothing beyond its resources, a saved profile is staged for
    the target the session was opened for.
  \<^item> \<open>WebClient\<close> (\<open>lib/api.ts\<close>), \<open>MapView\<close> (\<open>live-map/LiveMapClient.tsx\<close>), \<open>LogPage\<close> (\<open>logs/page.tsx\<close>), \<open>TextDiff\<close> and
    \<open>ModEditor\<close> (\<open>mods/page.tsx\<close>): the state machines behind the pages.
    Shown: the review lists exactly the changes, unreviewed AI edits are not saved, the sections of the
    map generation partition the world, the stored history is complete, the log page shows the selected
    server; and the interleavings in which the second and the last fail.

  \<^bold>\<open>Bounds and fuel.\<close>  \<open>cron_search\<close> has the source's own bound of minutes (\<open>max_iter\<close>, 366 days);
  \<open>cron_daily_returns\<close> shows that it is enough for expressions without day and month.  The retry loop of
  \<open>Discord\<close>, the polling loops of \<open>WebClient\<close> and their clients count down the source's attempts.  The
  matcher of \<open>Regex\<close>, the diff's walk, the entity decoder and the search for all matches terminate by
  measures.  Nothing else needs fuel.

  \<^bold>\<open>Parameters.\<close>  SHA-256, scrypt, AES-GCM, JSON web tokens, \<open>JSON.parse\<close>, \<open>JSON.stringify\<close>, the URL and e-mail
  validators, BullMQ's choices, the network, the file system, the telnet console and the country
  service are arguments; what a property needs of them is a hypothesis, with a witness on a concrete
  provider.

  \<^bold>\<open>Not modelled.\<close>  Start-up, module wiring, the database client and the WebSocket gateway (configuration and
  pure output); the install script (text); \<open>alerts/alert-rules.controller.ts\<close> (no module registers it);
  the rendering of the pages and the pages that only call an endpoint and show its answer; the agent (Go), the Discord
  bot (JavaScript without types), SQL migrations and scripts (other languages, reached only through the endpoints
  modelled here).  Of the pages of \<open>MapView\<close>, \<open>LogPage\<close> and \<open>ModEditor\<close>, lists and forms without state of their own are
  left out.
\<close>

end
